(* ===== verification/Prelude.thy ===== *)
theory Prelude
  imports Main "HOL-Library.Word"
begin

text \<open>
  Shared vocabulary of the development.

  \<^item> \<open>('s, 'e, 'a) prog\<close>: a Python coroutine as a function from the state to either a raised
    exception (\<open>Inl\<close>) or a value (\<open>Inr\<close>), together with the state it leaves. An exception keeps
    the state changes made before it, as in Python.
  \<^item> \<open>wp m Q E s\<close>: running \<open>m\<close> in \<open>s\<close> ends in \<open>Q\<close> when it returns and in \<open>E\<close> when it raises.
    The rules in the collection \<open>wp_simps\<close> compute it for each construct.
  \<^item> rows of a database table as a list: \<open>sel\<close>, \<open>upd\<close> and \<open>del\<close> are \<open>SELECT\<close>, \<open>UPDATE\<close> and
    \<open>DELETE ... WHERE\<close>, and the lemmas say how counts and sums over a table change when one row
    does (collection \<open>table_simps\<close>).
\<close>

named_theorems wp_simps \<open>weakest preconditions of the program constructs\<close>
named_theorems table_simps \<open>rewriting of table operations\<close>

section \<open>Programs that may raise\<close>

type_synonym ('s, 'e, 'a) prog = "'s \<Rightarrow> ('e + 'a) \<times> 's"

definition ret :: "'a \<Rightarrow> ('s, 'e, 'a) prog" where
  "ret x s = (Inr x, s)"

definition raise :: "'e \<Rightarrow> ('s, 'e, 'a) prog" where
  "raise e s = (Inl e, s)"

definition bind :: "('s, 'e, 'a) prog \<Rightarrow> ('a \<Rightarrow> ('s, 'e, 'b) prog) \<Rightarrow> ('s, 'e, 'b) prog" where
  "bind m f s = (case m s of (Inl e, t) \<Rightarrow> (Inl e, t) | (Inr x, t) \<Rightarrow> f x t)"

definition seq :: "('s, 'e, unit) prog \<Rightarrow> ('s, 'e, 'b) prog \<Rightarrow> ('s, 'e, 'b) prog" where
  "seq m n = bind m (\<lambda>_. n)"

definition gets :: "('s \<Rightarrow> 'a) \<Rightarrow> ('s, 'e, 'a) prog" where
  "gets f s = (Inr (f s), s)"

definition modify :: "('s \<Rightarrow> 's) \<Rightarrow> ('s, 'e, unit) prog" where
  "modify f s = (Inr (), f s)"

definition try_except :: "('s, 'e, 'a) prog \<Rightarrow> ('e \<Rightarrow> ('s, 'e, 'a) prog) \<Rightarrow> ('s, 'e, 'a) prog" where
  "try_except m h s = (case m s of (Inl e, t) \<Rightarrow> h e t | (Inr x, t) \<Rightarrow> (Inr x, t))"

definition guard :: "bool \<Rightarrow> 'e \<Rightarrow> ('s, 'e, unit) prog" where
  "guard ok e = (if ok then ret () else raise e)"

definition of_sum :: "'e + 'a \<Rightarrow> ('s, 'e, 'a) prog" where
  "of_sum r s = (r, s)"

fun for_each :: "'a list \<Rightarrow> ('a \<Rightarrow> ('s, 'e, unit) prog) \<Rightarrow> ('s, 'e, unit) prog" where
  "for_each [] f = ret ()"
| "for_each (x # xs) f = seq (f x) (for_each xs f)"

definition wp :: "('s, 'e, 'a) prog \<Rightarrow> ('a \<Rightarrow> 's \<Rightarrow> bool) \<Rightarrow> ('e \<Rightarrow> 's \<Rightarrow> bool) \<Rightarrow> 's \<Rightarrow> bool" where
  "wp m Q E s = (case m s of (Inl e, t) \<Rightarrow> E e t | (Inr x, t) \<Rightarrow> Q x t)"

lemma wp_ret [wp_simps]: "wp (ret x) Q E = Q x"
  by (simp add: wp_def ret_def fun_eq_iff)

lemma wp_raise [wp_simps]: "wp (raise e) Q E = E e"
  by (simp add: wp_def raise_def fun_eq_iff)

lemma wp_bind [wp_simps]: "wp (bind m f) Q E = wp m (\<lambda>x. wp (f x) Q E) E"
  by (auto simp: wp_def bind_def fun_eq_iff split: prod.splits sum.splits)

lemma wp_seq [wp_simps]: "wp (seq m n) Q E = wp m (\<lambda>_. wp n Q E) E"
  by (simp add: seq_def wp_bind)

lemma wp_gets [wp_simps]: "wp (gets f) Q E s = Q (f s) s"
  by (simp add: wp_def gets_def)

lemma wp_modify [wp_simps]: "wp (modify f) Q E s = Q () (f s)"
  by (simp add: wp_def modify_def)

lemma wp_try [wp_simps]: "wp (try_except m h) Q E = wp m Q (\<lambda>e. wp (h e) Q E)"
  by (auto simp: wp_def try_except_def fun_eq_iff split: prod.splits sum.splits)

lemma wp_guard [wp_simps]: "wp (guard b e) Q E s = (if b then Q () s else E e s)"
  by (simp add: guard_def wp_ret wp_raise)

lemma wp_of_sum [wp_simps]: "wp (of_sum r) Q E s = (case r of Inl e \<Rightarrow> E e s | Inr x \<Rightarrow> Q x s)"
  by (simp add: wp_def of_sum_def)

lemma wp_if [wp_simps]: "wp (if b then m else n) Q E s = (if b then wp m Q E s else wp n Q E s)"
  by simp

lemma wp_mono:
  assumes "wp m Q E s" and "\<And>x t. Q x t \<Longrightarrow> Q' x t" and "\<And>e t. E e t \<Longrightarrow> E' e t"
  shows "wp m Q' E' s"
  using assms by (auto simp: wp_def split: prod.splits sum.splits)

lemma wp_conj: "wp m Q E s \<Longrightarrow> wp m Q' E' s \<Longrightarrow> wp m (\<lambda>x t. Q x t \<and> Q' x t) (\<lambda>e t. E e t \<and> E' e t) s"
  by (auto simp: wp_def split: prod.splits sum.splits)

lemma wp_returns: "m s = (Inr x, t) \<Longrightarrow> wp m Q E s \<Longrightarrow> Q x t"
  by (simp add: wp_def)

lemma wp_raises: "m s = (Inl e, t) \<Longrightarrow> wp m Q E s \<Longrightarrow> E e t"
  by (simp add: wp_def)

lemma wpI:
  assumes "\<And>x t. m s = (Inr x, t) \<Longrightarrow> Q x t" and "\<And>e t. m s = (Inl e, t) \<Longrightarrow> E e t"
  shows "wp m Q E s"
  using assms by (auto simp: wp_def split: prod.splits sum.splits)

lemma wp_True [simp]: "wp m (\<lambda>_ _. True) (\<lambda>_ _. True) s"
  by (simp add: wp_def split: prod.split sum.split)

lemma wp_True_fun [simp]: "wp m (\<lambda>_ _. True) (\<lambda>_ _. True) = (\<lambda>_. True)"
  by (rule ext) simp

lemma wp_any: "(\<And>x t. Q x t) \<Longrightarrow> (\<And>e t. E e t) \<Longrightarrow> wp m Q E s"
  by (rule wpI)

lemma wp_for_each:
  assumes "\<And>x s. x \<in> set xs \<Longrightarrow> I s \<Longrightarrow> wp (f x) (\<lambda>_. I) (\<lambda>_. I) s" and "I s"
  shows "wp (for_each xs f) (\<lambda>_. I) (\<lambda>_. I) s"
  using assms
proof (induction xs arbitrary: s)
  case Nil
  then show ?case by (simp add: wp_ret)
next
  case (Cons x xs)
  have "wp (f x) (\<lambda>_. I) (\<lambda>_. I) s" using Cons.prems by simp
  moreover have "wp (for_each xs f) (\<lambda>_. I) (\<lambda>_. I) t" if "I t" for t
    using that Cons.prems(1) by (intro Cons.IH) simp_all
  ultimately show ?case
    unfolding for_each.simps wp_seq by (rule wp_mono)
qed

text \<open>A program keeps \<open>I\<close>: from any state with \<open>I\<close>, both outcomes end in a state with \<open>I\<close>.\<close>

definition keeps :: "('s \<Rightarrow> bool) \<Rightarrow> ('s, 'e, 'a) prog \<Rightarrow> bool" where
  "keeps I m \<longleftrightarrow> (\<forall>s. I s \<longrightarrow> I (snd (m s)))"

lemma keepsI: "(\<And>s. I s \<Longrightarrow> I (snd (m s))) \<Longrightarrow> keeps I m"
  by (simp add: keeps_def)

lemma keepsD: "keeps I m \<Longrightarrow> I s \<Longrightarrow> I (snd (m s))"
  by (simp add: keeps_def)

lemma keeps_iff_wp: "keeps I m \<longleftrightarrow> (\<forall>s. I s \<longrightarrow> wp m (\<lambda>_. I) (\<lambda>_. I) s)"
proof -
  have "wp m (\<lambda>_. I) (\<lambda>_. I) s \<longleftrightarrow> I (snd (m s))" for s
    by (auto simp: wp_def split: prod.splits sum.splits)
  then show ?thesis by (simp add: keeps_def)
qed

lemma wp_keeps: "wp m Q E s \<Longrightarrow> keeps I m \<Longrightarrow> I s \<Longrightarrow> wp m (\<lambda>x t. Q x t \<and> I t) (\<lambda>e t. E e t \<and> I t) s"
  unfolding keeps_iff_wp by (intro wp_conj) blast+

lemma keeps_ret [intro]: "keeps I (ret x)"
  by (simp add: keeps_def ret_def)

lemma keeps_raise [intro]: "keeps I (raise e)"
  by (simp add: keeps_def raise_def)

lemma keeps_gets [intro]: "keeps I (gets f)"
  by (simp add: keeps_def gets_def)

lemma keeps_guard [intro]: "keeps I (guard b e)"
  by (simp add: guard_def keeps_ret keeps_raise)

lemma keeps_of_sum [intro]: "keeps I (of_sum r)"
  by (simp add: keeps_def of_sum_def)

lemma keeps_bind [intro]:
  assumes "keeps I m" and "\<And>x. keeps I (f x)"
  shows "keeps I (bind m f)"
  using assms unfolding keeps_iff_wp by (auto simp: wp_bind elim!: wp_mono)

lemma keeps_seq [intro]: "keeps I m \<Longrightarrow> keeps I n \<Longrightarrow> keeps I (seq m n)"
  unfolding seq_def by blast

lemma keeps_if [intro]: "keeps I m \<Longrightarrow> keeps I n \<Longrightarrow> keeps I (if b then m else n)"
  by simp

lemma keeps_try [intro]:
  assumes "keeps I m" and "\<And>e. keeps I (h e)"
  shows "keeps I (try_except m h)"
  using assms unfolding keeps_iff_wp by (auto simp: wp_try elim!: wp_mono)

lemma keeps_for_each [intro]: "(\<And>x. x \<in> set xs \<Longrightarrow> keeps I (f x)) \<Longrightarrow> keeps I (for_each xs f)"
  unfolding keeps_iff_wp by (auto intro: wp_for_each)

lemma keeps_case_prod [intro]: "(\<And>a b. p = (a, b) \<Longrightarrow> keeps I (f a b)) \<Longrightarrow> keeps I (case p of (a, b) \<Rightarrow> f a b)"
  by (cases p) simp

lemma keeps_case_option [intro]:
  "keeps I m \<Longrightarrow> (\<And>x. keeps I (f x)) \<Longrightarrow> keeps I (case opt of None \<Rightarrow> m | Some x \<Rightarrow> f x)"
  by (cases opt) simp_all

lemma wp_case_prod [wp_simps]: "wp (case p of (a, b) \<Rightarrow> f a b) Q E s = (case p of (a, b) \<Rightarrow> wp (f a b) Q E s)"
  by (cases p) simp

lemma wp_case_option [wp_simps]:
  "wp (case opt of None \<Rightarrow> m | Some x \<Rightarrow> f x) Q E s = (case opt of None \<Rightarrow> wp m Q E s | Some x \<Rightarrow> wp (f x) Q E s)"
  by (cases opt) simp_all

section \<open>Tables\<close>

definition sel :: "('r \<Rightarrow> bool) \<Rightarrow> 'r list \<Rightarrow> 'r list" where
  "sel P rows = filter P rows"

definition upd :: "('r \<Rightarrow> bool) \<Rightarrow> ('r \<Rightarrow> 'r) \<Rightarrow> 'r list \<Rightarrow> 'r list" where
  "upd P f rows = map (\<lambda>r. if P r then f r else r) rows"

definition del :: "('r \<Rightarrow> bool) \<Rightarrow> 'r list \<Rightarrow> 'r list" where
  "del P rows = filter (\<lambda>r. \<not> P r) rows"

definition rowcount :: "('r \<Rightarrow> bool) \<Rightarrow> 'r list \<Rightarrow> nat" where
  "rowcount P rows = length (filter P rows)"

lemma set_sel [simp]: "set (sel P rows) = {r \<in> set rows. P r}"
  by (simp add: sel_def)

lemma set_del [simp]: "set (del P rows) = {r \<in> set rows. \<not> P r}"
  by (simp add: del_def)

lemma set_upd: "set (upd P f rows) = (\<lambda>r. if P r then f r else r) ` set rows"
  by (simp add: upd_def)

lemma upd_Nil [simp]: "upd P f [] = []" and del_Nil [simp]: "del P [] = []"
  and sel_Nil [simp]: "sel P [] = []"
  by (simp_all add: upd_def del_def sel_def)

lemma upd_Cons [simp]: "upd P f (r # rs) = (if P r then f r else r) # upd P f rs"
  and del_Cons [simp]: "del P (r # rs) = (if P r then del P rs else r # del P rs)"
  and sel_Cons [simp]: "sel P (r # rs) = (if P r then r # sel P rs else sel P rs)"
  by (simp_all add: upd_def del_def sel_def)

lemma del_append [table_simps]: "del P (rs @ ts) = del P rs @ del P ts"
  and upd_append [table_simps]: "upd P f (rs @ ts) = upd P f rs @ upd P f ts"
  and sel_append [table_simps]: "sel P (rs @ ts) = sel P rs @ sel P ts"
  by (simp_all add: upd_def del_def sel_def)

lemma map_upd_key [table_simps]:
  "(\<And>r. P r \<Longrightarrow> key (f r) = key r) \<Longrightarrow> map key (upd P f rows) = map key rows"
  by (induction rows) auto

lemma distinct_map_del [table_simps]: "distinct (map key rows) \<Longrightarrow> distinct (map key (del P rows))"
  by (simp add: del_def distinct_map_filter)

lemma distinct_key_unique:
  "distinct (map key rows) \<Longrightarrow> r \<in> set rows \<Longrightarrow> t \<in> set rows \<Longrightarrow> key r = key t \<Longrightarrow> r = t"
  by (metis distinct_map inj_onD)

lemma sel_key_empty: "k \<notin> key ` set rows \<Longrightarrow> sel (\<lambda>t. key t = k) rows = []"
  by (auto simp: sel_def filter_empty_conv)

lemma sel_key:
  assumes "distinct (map key rows)" and "r \<in> set rows"
  shows "sel (\<lambda>t. key t = key r) rows = [r]"
  using assms
proof (induction rows)
  case (Cons t rows)
  show ?case
  proof (cases "t = r")
    case True
    with Cons.prems have "key r \<notin> key ` set rows" by simp
    with True show ?thesis by (simp add: sel_key_empty)
  next
    case False
    with Cons.prems have "key t \<noteq> key r" by auto
    with False Cons show ?thesis by simp
  qed
qed simp

lemma rowcount_pos [simp]: "0 < rowcount P rows \<longleftrightarrow> (\<exists>r \<in> set rows. P r)"
  by (auto simp: rowcount_def filter_empty_conv)

lemma upd_none: "(\<And>r. r \<in> set rows \<Longrightarrow> \<not> P r) \<Longrightarrow> upd P f rows = rows"
  by (induction rows) auto

lemma del_none: "(\<And>r. r \<in> set rows \<Longrightarrow> \<not> P r) \<Longrightarrow> del P rows = rows"
  by (induction rows) auto

text \<open>How a sum over a table moves when the one row with a given key changes or goes.\<close>

lemma sum_upd_key:
  fixes g :: "'r \<Rightarrow> int"
  assumes "distinct (map key rows)" and "r \<in> set rows"
  shows "sum_list (map g (upd (\<lambda>t. key t = key r) f rows)) = sum_list (map g rows) - g r + g (f r)"
  using assms
proof (induction rows)
  case (Cons t rows)
  show ?case
  proof (cases "t = r")
    case True
    with Cons.prems have "key r \<notin> key ` set rows" by simp
    then have "\<And>t. t \<in> set rows \<Longrightarrow> key t \<noteq> key r" by (metis imageI)
    with True show ?thesis by (simp add: upd_none)
  next
    case False
    with Cons.prems have "key t \<noteq> key r" by auto
    with False Cons show ?thesis by simp
  qed
qed simp

lemma sum_del_key:
  fixes g :: "'r \<Rightarrow> int"
  assumes "distinct (map key rows)" and "r \<in> set rows"
  shows "sum_list (map g (del (\<lambda>t. key t = key r) rows)) = sum_list (map g rows) - g r"
  using assms
proof (induction rows)
  case (Cons t rows)
  show ?case
  proof (cases "t = r")
    case True
    with Cons.prems have "key r \<notin> key ` set rows" by simp
    then have "\<And>t. t \<in> set rows \<Longrightarrow> key t \<noteq> key r" by (metis imageI)
    with True show ?thesis by (simp add: del_none)
  next
    case False
    with Cons.prems have "key t \<noteq> key r" by auto
    with False Cons show ?thesis by simp
  qed
qed simp

lemma sum_upd_same:
  fixes g :: "'r \<Rightarrow> int"
  shows "(\<And>r. r \<in> set rows \<Longrightarrow> P r \<Longrightarrow> g (f r) = g r) \<Longrightarrow>
    sum_list (map g (upd P f rows)) = sum_list (map g rows)"
  by (induction rows) auto

lemma sum_del_zero:
  fixes g :: "'r \<Rightarrow> int"
  shows "(\<And>r. r \<in> set rows \<Longrightarrow> P r \<Longrightarrow> g r = 0) \<Longrightarrow>
    sum_list (map g (del P rows)) = sum_list (map g rows)"
  by (induction rows) auto

lemma sum_list_map_nonneg:
  fixes g :: "'r \<Rightarrow> int"
  shows "(\<And>r. r \<in> set rows \<Longrightarrow> 0 \<le> g r) \<Longrightarrow> 0 \<le> sum_list (map g rows)"
  by (induction rows) auto

lemma sum_list_map_ge:
  fixes g :: "'r \<Rightarrow> int"
  shows "(\<And>t. t \<in> set rows \<Longrightarrow> 0 \<le> g t) \<Longrightarrow> r \<in> set rows \<Longrightarrow> g r \<le> sum_list (map g rows)"
proof (induction rows)
  case (Cons t rows)
  have "0 \<le> sum_list (map g rows)" using Cons.prems by (intro sum_list_map_nonneg) auto
  then show ?case using Cons by fastforce
qed simp

end
