(* ===== verification/Py_Str.thy ===== *)
theory Py_Str
  imports Prelude "HOL-Library.Sublist"
begin

text \<open>
  The Python string and bytes operations the backend uses.

  A Python \<open>str\<close> is a \<open>string\<close> whose characters are the code points 0 to 255; \<open>bytes\<close> are
  lists of \<open>8 word\<close>. White space, digits and case conversion follow Python's tables on these
  code points (NEL and NBSP are white space; the superscript digits satisfy \<open>isdigit\<close> and are
  rejected by \<open>int\<close>; the sharp s becomes two letters in upper case).
\<close>

type_synonym bytes = "8 word list"

section \<open>strip, upper, split\<close>

definition code :: "char \<Rightarrow> nat" where
  "code c = of_char c"

definition isspace :: "char \<Rightarrow> bool" where
  "isspace c \<longleftrightarrow> (let n = code c in
     9 \<le> n \<and> n \<le> 13 \<or> 28 \<le> n \<and> n \<le> 32 \<or> n = 133 \<or> n = 160)"

definition lstrip :: "string \<Rightarrow> string" where
  "lstrip s = dropWhile isspace s"

definition rstrip :: "string \<Rightarrow> string" where
  "rstrip s = rev (dropWhile isspace (rev s))"

definition strip :: "string \<Rightarrow> string" where
  "strip s = rstrip (lstrip s)"

definition rstrip_char :: "char \<Rightarrow> string \<Rightarrow> string" where
  "rstrip_char c s = rev (dropWhile (\<lambda>d. d = c) (rev s))"

definition upper_char :: "char \<Rightarrow> string" where
  "upper_char c = (let n = code c in
     if 97 \<le> n \<and> n \<le> 122 \<or> 224 \<le> n \<and> n \<le> 254 \<and> n \<noteq> 247 then [char_of (n - 32)]
     else if n = 223 then ''SS'' else [c])"

definition upper :: "string \<Rightarrow> string" where
  "upper s = concat (map upper_char s)"

definition split_first :: "char \<Rightarrow> string \<Rightarrow> string" where
  "split_first c s = takeWhile (\<lambda>d. d \<noteq> c) s"

definition rsplit1 :: "char \<Rightarrow> string \<Rightarrow> (string \<times> string) option" where
  "rsplit1 c s = (if c \<in> set s
     then Some (rev (tl (dropWhile (\<lambda>d. d \<noteq> c) (rev s))), rev (takeWhile (\<lambda>d. d \<noteq> c) (rev s)))
     else None)"

definition encode_ascii :: "string \<Rightarrow> bytes" where
  "encode_ascii s = map of_char s"

lemma rsplit1_snoc:
  assumes "c \<notin> set b"
  shows "rsplit1 c (a @ c # b) = Some (a, b)"
proof -
  have "takeWhile (\<lambda>d. d \<noteq> c) (rev b @ c # rev a) = rev b"
    using assms by (subst takeWhile_append2) auto
  moreover have "dropWhile (\<lambda>d. d \<noteq> c) (rev b @ c # rev a) = c # rev a"
    using assms by (subst dropWhile_append2) auto
  ultimately show ?thesis by (simp add: rsplit1_def)
qed

lemma dropWhile_hd: "dropWhile P s = [] \<or> \<not> P (hd (dropWhile P s))"
  using hd_dropWhile by blast

lemma rstrip_last: "rstrip s \<noteq> [] \<Longrightarrow> \<not> isspace (last (rstrip s))"
  using dropWhile_hd [of isspace "rev s"] by (auto simp: rstrip_def last_rev)

lemma rstrip_prefix: "\<exists>t. s = rstrip s @ t"
proof -
  have "rev s = takeWhile isspace (rev s) @ dropWhile isspace (rev s)" by simp
  then have "s = rev (dropWhile isspace (rev s)) @ rev (takeWhile isspace (rev s))"
    by (metis rev_append rev_rev_ident)
  then show ?thesis unfolding rstrip_def by blast
qed

lemma strip_first: "strip s \<noteq> [] \<Longrightarrow> \<not> isspace (hd (strip s))"
proof -
  assume ne: "strip s \<noteq> []"
  obtain t where t: "lstrip s = strip s @ t"
    using rstrip_prefix unfolding strip_def by blast
  with ne have "hd (strip s) = hd (lstrip s)" and "lstrip s \<noteq> []" by (auto simp: hd_append)
  then show ?thesis using dropWhile_hd [of isspace s] by (auto simp: lstrip_def)
qed

lemma strip_last: "strip s \<noteq> [] \<Longrightarrow> \<not> isspace (last (strip s))"
  unfolding strip_def by (rule rstrip_last)

lemma rstrip_idem: "s = [] \<or> \<not> isspace (last s) \<Longrightarrow> rstrip s = s"
  using dropWhile_eq_self_iff [of isspace "rev s"] by (auto simp: rstrip_def hd_rev)

lemma lstrip_idem: "s = [] \<or> \<not> isspace (hd s) \<Longrightarrow> lstrip s = s"
  by (auto simp: lstrip_def dropWhile_eq_self_iff)

lemma strip_strip [simp]: "strip (strip s) = strip s"
proof -
  have "lstrip (strip s) = strip s" using strip_first [of s] by (intro lstrip_idem) auto
  moreover have "rstrip (strip s) = strip s" using strip_last [of s] by (intro rstrip_idem) auto
  ultimately show ?thesis by (simp add: strip_def [of "strip s"])
qed

lemma strip_empty_iff: "strip s = [] \<longleftrightarrow> (\<forall>c \<in> set s. isspace c)"
proof
  assume "strip s = []"
  then have "\<forall>c \<in> set (lstrip s). isspace c"
    by (simp add: strip_def rstrip_def dropWhile_eq_Nil_conv)
  then have "lstrip s = []" by (metis dropWhile_eq_Nil_conv dropWhile_idem lstrip_def)
  then show "\<forall>c \<in> set s. isspace c" by (simp add: lstrip_def dropWhile_eq_Nil_conv)
next
  assume "\<forall>c \<in> set s. isspace c"
  then have "lstrip s = []" by (simp add: lstrip_def dropWhile_eq_Nil_conv)
  then show "strip s = []" by (simp add: strip_def rstrip_def)
qed

section \<open>Decimal numbers\<close>

definition digit_char :: "nat \<Rightarrow> char" where
  "digit_char d = char_of (48 + d)"

definition digit_val :: "char \<Rightarrow> nat" where
  "digit_val c = code c - 48"

definition is_ascii_digit :: "char \<Rightarrow> bool" where
  "is_ascii_digit c \<longleftrightarrow> 48 \<le> code c \<and> code c \<le> 57"

definition isdigit_char :: "char \<Rightarrow> bool" where
  "isdigit_char c \<longleftrightarrow> is_ascii_digit c \<or> code c = 178 \<or> code c = 179 \<or> code c = 185"

definition isdigit :: "string \<Rightarrow> bool" where
  "isdigit s \<longleftrightarrow> s \<noteq> [] \<and> list_all isdigit_char s"

fun dec :: "nat \<Rightarrow> string" where
  "dec n = (if n < 10 then [digit_char n] else dec (n div 10) @ [digit_char (n mod 10)])"

declare dec.simps [simp del]

definition undec :: "string \<Rightarrow> nat" where
  "undec s = foldl (\<lambda>a c. 10 * a + digit_val c) 0 s"

text \<open>\<open>int(s)\<close> for an \<open>s\<close> that satisfies \<open>isdigit\<close>; \<open>None\<close> is ValueError.\<close>

definition py_int :: "string \<Rightarrow> int option" where
  "py_int s = (if s \<noteq> [] \<and> list_all is_ascii_digit s then Some (int (undec s)) else None)"

definition zfill :: "nat \<Rightarrow> string \<Rightarrow> string" where
  "zfill w s = replicate (w - length s) (CHR ''0'') @ s"

text \<open>The format \<open>f"{i:06d}"\<close>: the sign comes before the padding.\<close>

definition fmt06d :: "int \<Rightarrow> string" where
  "fmt06d i = (if i < 0 then CHR ''-'' # zfill 5 (dec (nat (- i))) else zfill 6 (dec (nat i)))"

lemma code_digit_char [simp]: "d < 10 \<Longrightarrow> code (digit_char d) = 48 + d"
  by (simp add: code_def digit_char_def of_char_of)

lemma digit_val_char [simp]: "d < 10 \<Longrightarrow> digit_val (digit_char d) = d"
  by (simp add: digit_val_def)

lemma is_ascii_digit_char [simp]: "d < 10 \<Longrightarrow> is_ascii_digit (digit_char d)"
  by (simp add: is_ascii_digit_def)

lemma digit_zero: "CHR ''0'' = digit_char 0"
  by code_simp

lemma undec_snoc: "undec (s @ [c]) = 10 * undec s + digit_val c"
  by (simp add: undec_def)

lemma undec_dec: "undec (dec n) = n"
proof (induction n rule: dec.induct)
  case (1 n)
  then show ?case
    by (subst dec.simps) (auto simp: undec_snoc undec_def [of "[_]"])
qed

lemma dec_digits: "list_all is_ascii_digit (dec n) \<and> dec n \<noteq> []"
proof (induction n rule: dec.induct)
  case (1 n)
  then show ?case by (subst (1 2) dec.simps) auto
qed

lemma undec_zeros: "undec (replicate k (CHR ''0'') @ s) = undec s"
  by (induction k) (auto simp: undec_def digit_zero)

lemma zfill_digits: "list_all is_ascii_digit s \<Longrightarrow> list_all is_ascii_digit (zfill w s)"
  by (simp add: zfill_def digit_zero list_all_append) (simp add: list_all_iff)

lemma py_int_fmt06d: "0 \<le> i \<Longrightarrow> py_int (fmt06d i) = Some i"
  using dec_digits [of "nat i"]
  by (simp add: py_int_def fmt06d_def zfill_digits) (simp add: zfill_def undec_zeros undec_dec)

lemma isdigit_fmt06d: "0 \<le> i \<Longrightarrow> isdigit (fmt06d i)"
  using zfill_digits [of "dec (nat i)" 6] dec_digits [of "nat i"]
  by (auto simp: isdigit_def fmt06d_def zfill_def list_all_iff isdigit_char_def)

lemma fmt06d_no_dot: "0 \<le> i \<Longrightarrow> CHR ''.'' \<notin> set (fmt06d i)"
proof -
  assume "0 \<le> i"
  then have "list_all is_ascii_digit (fmt06d i)"
    using dec_digits [of "nat i"] by (simp add: fmt06d_def zfill_digits)
  moreover have "\<not> is_ascii_digit (CHR ''.'')" by (simp add: is_ascii_digit_def code_def)
  ultimately show ?thesis by (auto simp: list_all_iff)
qed

lemma fmt06d_inj: "0 \<le> i \<Longrightarrow> 0 \<le> j \<Longrightarrow> fmt06d i = fmt06d j \<Longrightarrow> i = j"
  by (metis option.inject py_int_fmt06d)

text \<open>\<open>str\<close> of an integer and of a list of integers, for the f-strings of error messages.\<close>

definition str_int :: "int \<Rightarrow> string" where
  "str_int i = (if i < 0 then CHR ''-'' # dec (nat (- i)) else dec (nat i))"

fun join :: "string \<Rightarrow> string list \<Rightarrow> string" where
  "join sep [] = []"
| "join sep [s] = s"
| "join sep (s # t # ts) = s @ sep @ join sep (t # ts)"

definition str_int_list :: "int list \<Rightarrow> string" where
  "str_int_list is = ''['' @ join '', '' (map str_int is) @ '']''"

end
