(* ===== verification/Security.thy ===== *)
theory Security
  imports Config
begin

text \<open>
  \<open>core/security.py\<close>: tokens, room codes, password hashing and the signed double-submit CSRF
  token, with the URL-safe base64 of Python's standard library in full (the decoder is the lenient
  one: it skips characters outside the alphabet and stops at the padding).

  The cryptographic primitives are the fields of \<open>crypto\<close>: SHA-256 and HMAC-SHA-256, the argon2
  hasher and the timed serializer of itsdangerous. Nothing is assumed of them here; a property
  that needs one of their documented laws states it as a hypothesis. Random draws are arguments.
\<close>

datatype argon_outcome = Verified | VerificationFailed | InvalidHash

record crypto =
  sha256 :: "bytes \<Rightarrow> bytes"
  hmac_sha256 :: "bytes \<Rightarrow> bytes \<Rightarrow> bytes"
  argon_hash :: "bytes \<Rightarrow> string \<Rightarrow> string"
  argon_verify :: "string \<Rightarrow> string \<Rightarrow> argon_outcome"
  signer_dumps :: "string \<Rightarrow> int \<Rightarrow> string \<Rightarrow> string"
  signer_loads :: "string \<Rightarrow> int \<Rightarrow> int \<Rightarrow> string \<Rightarrow> string option"

section \<open>Base64, hexadecimal, UTF-8\<close>

definition b64_alphabet :: string where
  "b64_alphabet = ''ABCDEFGHIJKLMNOPQRSTUVWXYZabcdefghijklmnopqrstuvwxyz0123456789-_''"

definition b64_char :: "nat \<Rightarrow> char" where
  "b64_char n = b64_alphabet ! n"

definition b64_val :: "char \<Rightarrow> nat option" where
  "b64_val c = (let n = code c in
     if 65 \<le> n \<and> n \<le> 90 then Some (n - 65)
     else if 97 \<le> n \<and> n \<le> 122 then Some (n - 71)
     else if 48 \<le> n \<and> n \<le> 57 then Some (n + 4)
     else if n = 43 \<or> n = 45 then Some 62
     else if n = 47 \<or> n = 95 then Some 63
     else None)"

fun urlsafe_b64encode :: "bytes \<Rightarrow> string" where
  "urlsafe_b64encode [] = []"
| "urlsafe_b64encode [a] =
     (let x = unat a in [b64_char (x div 4), b64_char (x mod 4 * 16), CHR ''='', CHR ''=''])"
| "urlsafe_b64encode [a, b] =
     (let x = unat a; y = unat b in
      [b64_char (x div 4), b64_char (x mod 4 * 16 + y div 16), b64_char (y mod 16 * 4), CHR ''=''])"
| "urlsafe_b64encode (a # b # c # rest) =
     (let x = unat a; y = unat b; z = unat c in
      [b64_char (x div 4), b64_char (x mod 4 * 16 + y div 16), b64_char (y mod 16 * 4 + z div 64),
       b64_char (z mod 64)] @ urlsafe_b64encode rest)"

text \<open>The decoder loop: position in the quad, bits left over, padding seen. \<open>None\<close> is
  \<open>binascii.Error\<close>.\<close>

fun a2b :: "nat \<Rightarrow> nat \<Rightarrow> nat \<Rightarrow> string \<Rightarrow> bytes option" where
  "a2b q l p [] = (if q = 0 then Some [] else None)"
| "a2b q l p (c # cs) =
     (if c = CHR ''='' then
        (if 2 \<le> q then (if 4 \<le> q + Suc p then Some [] else a2b q l (Suc p) cs) else a2b q l p cs)
      else case b64_val c of
        None \<Rightarrow> a2b q l p cs
      | Some v \<Rightarrow>
          if q = 0 then a2b 1 v 0 cs
          else if q = 1 then map_option (Cons (of_nat (l * 4 + v div 16))) (a2b 2 (v mod 16) 0 cs)
          else if q = 2 then map_option (Cons (of_nat (l * 16 + v div 4))) (a2b 3 (v mod 4) 0 cs)
          else map_option (Cons (of_nat (l * 64 + v))) (a2b 0 0 0 cs))"

definition urlsafe_b64decode :: "string \<Rightarrow> bytes option" where
  "urlsafe_b64decode s = a2b 0 0 0 s"

definition hex_digits :: string where
  "hex_digits = ''0123456789abcdef''"

definition hexdigest :: "bytes \<Rightarrow> string" where
  "hexdigest bs = concat (map (\<lambda>b. [hex_digits ! (unat b div 16), hex_digits ! (unat b mod 16)]) bs)"

definition utf8_encode :: "string \<Rightarrow> bytes" where
  "utf8_encode s = concat (map (\<lambda>c. let n = code c in
     if n < 128 then [of_nat n] else [of_nat (192 + n div 64), of_nat (128 + n mod 64)]) s)"

definition is_ascii :: "string \<Rightarrow> bool" where
  "is_ascii s \<longleftrightarrow> list_all (\<lambda>c. code c < 128) s"

lemma b64_alphabet_vals: "map b64_val b64_alphabet = map Some [0..<64]"
  by code_simp

lemma b64_alphabet_plain: "list_all (\<lambda>c. c \<noteq> CHR ''='' \<and> c \<noteq> CHR ''.'' \<and> code c < 128) b64_alphabet"
  by code_simp

lemma b64_alphabet_length: "length b64_alphabet = 64"
  by (simp add: b64_alphabet_def)

lemma b64_val_char: "n < 64 \<Longrightarrow> b64_val (b64_char n) = Some n"
  using arg_cong [OF b64_alphabet_vals, of "\<lambda>xs. xs ! n"] by (simp add: b64_char_def b64_alphabet_length)

lemma b64_char_plain: "n < 64 \<Longrightarrow> b64_char n \<noteq> CHR ''='' \<and> b64_char n \<noteq> CHR ''.'' \<and> code (b64_char n) < 128"
  using b64_alphabet_plain by (simp add: b64_char_def list_all_length b64_alphabet_length)

lemma byte_less: "unat (a :: 8 word) < 256"
  using unsigned_less [of a, where 'a = nat] by simp

lemma b64_bounds:
  assumes "(x :: nat) < 256" and "(y :: nat) < 256" and "(z :: nat) < 256"
  shows "x div 4 < 64" and "x mod 4 * 16 < 64" and "x mod 4 * 16 + y div 16 < 64"
    and "y mod 16 * 4 < 64" and "y mod 16 * 4 + z div 64 < 64" and "z mod 64 < 64"
proof -
  have "x mod 4 < 4" "y mod 16 < 16" "z mod 64 < 64" by simp_all
  moreover have "x div 4 < 64" "y div 16 < 16" "z div 64 < 4"
    using assms by (simp_all add: less_mult_imp_div_less)
  ultimately show "x div 4 < 64" and "x mod 4 * 16 < 64" and "x mod 4 * 16 + y div 16 < 64"
    and "y mod 16 * 4 < 64" and "y mod 16 * 4 + z div 64 < 64" and "z mod 64 < 64"
    by linarith+
qed

lemma byte_parts:
  fixes a :: "8 word"
  shows "unat a div 16 div 16 = 0" and "unat a div 16 mod 16 = unat a div 16"
    and "unat a div 64 div 4 = 0" and "unat a div 64 mod 4 = unat a div 64"
  using byte_less [of a] by (simp_all add: less_mult_imp_div_less)

lemma byte_join:
  fixes a :: "8 word"
  shows "of_nat (unat a div 4) * 4 + of_nat (unat a mod 4) = a"
    and "of_nat (unat a div 16) * 16 + of_nat (unat a mod 16) = a"
    and "of_nat (unat a div 64) * 64 + of_nat (unat a mod 64) = a"
proof -
  have "of_nat (unat a div k) * of_nat k + of_nat (unat a mod k) = a" for k
    by (metis div_mult_mod_eq of_nat_add of_nat_mult of_nat_unat ucast_id)
  from this [of 4] this [of 16] this [of 64]
  show "of_nat (unat a div 4) * 4 + of_nat (unat a mod 4) = a"
    and "of_nat (unat a div 16) * 16 + of_nat (unat a mod 16) = a"
    and "of_nat (unat a div 64) * 64 + of_nat (unat a mod 64) = a"
    by simp_all
qed

lemmas b64_quad = b64_bounds [OF byte_less byte_less byte_less]
lemmas b64_plain = b64_quad [THEN b64_char_plain] b64_quad [THEN b64_val_char]
lemmas b64_join = byte_parts byte_join

lemma a2b_b64encode: "a2b 0 0 0 (urlsafe_b64encode bs) = Some bs"
  by (induction bs rule: urlsafe_b64encode.induct) (simp_all add: Let_def b64_plain b64_join)

lemma b64_roundtrip: "urlsafe_b64decode (urlsafe_b64encode bs) = Some bs"
  by (simp add: urlsafe_b64decode_def a2b_b64encode)

lemma b64encode_plain: "list_all (\<lambda>c. c \<noteq> CHR ''.'' \<and> code c < 128) (urlsafe_b64encode bs)"
  by (induction bs rule: urlsafe_b64encode.induct)
    (simp_all add: Let_def b64_plain, simp_all add: code_def)

lemma b64encode_no_dot: "CHR ''.'' \<notin> set (urlsafe_b64encode bs)"
  and b64encode_ascii: "is_ascii (urlsafe_b64encode bs)"
  using b64encode_plain [of bs] by (auto simp: list_all_iff is_ascii_def)

section \<open>Tokens, room codes, passwords\<close>

text \<open>\<open>dumps\<close> stamps the current time; the \<open>max_age_seconds\<close> argument of \<open>sign_access_token\<close> is
  not used by its body.\<close>

definition sign_access_token :: "crypto \<Rightarrow> int \<Rightarrow> string \<Rightarrow> string \<Rightarrow> int \<Rightarrow> string" where
  "sign_access_token cr now access_token secret max_age_seconds = signer_dumps cr secret now access_token"

definition unsign_access_token :: "crypto \<Rightarrow> int \<Rightarrow> string \<Rightarrow> string \<Rightarrow> int \<Rightarrow> string option" where
  "unsign_access_token cr now token_signed secret max_age_seconds =
     signer_loads cr secret max_age_seconds now token_signed"

text \<open>\<open>secrets.token_urlsafe\<close> of the random bytes \<open>rnd\<close>.\<close>

definition generate_token :: "bytes \<Rightarrow> string" where
  "generate_token rnd = rstrip_char (CHR ''='') (urlsafe_b64encode rnd)"

definition hash_token :: "crypto \<Rightarrow> string \<Rightarrow> string" where
  "hash_token cr token = hexdigest (sha256 cr (utf8_encode token))"

definition ROOM_CODE_ALPHABET :: string where
  "ROOM_CODE_ALPHABET = ''ABCDEFGHJKMNPQRSTUVWXYZ23456789''"

text \<open>\<open>choices\<close> are the indices \<open>secrets.choice\<close> draws.\<close>

definition generate_room_code :: "nat \<Rightarrow> (nat \<Rightarrow> nat) \<Rightarrow> string" where
  "generate_room_code len choices =
     map (\<lambda>i. ROOM_CODE_ALPHABET ! (choices i mod length ROOM_CODE_ALPHABET)) [0..<len]"

definition hash_password :: "crypto \<Rightarrow> bytes \<Rightarrow> string \<Rightarrow> string" where
  "hash_password cr salt password = argon_hash cr salt password"

text \<open>Only \<open>VerificationError\<close> is caught: a malformed hash raises.\<close>

definition verify_password :: "crypto \<Rightarrow> string \<Rightarrow> string \<Rightarrow> exc + bool" where
  "verify_password cr password password_hash = (case argon_verify cr password_hash password of
     Verified \<Rightarrow> Inr True | VerificationFailed \<Rightarrow> Inr False | InvalidHash \<Rightarrow> Inl (Py ValueError))"

section \<open>CSRF tokens\<close>

definition csrf_sig :: "crypto \<Rightarrow> bytes \<Rightarrow> string \<Rightarrow> string" where
  "csrf_sig cr payload secret = urlsafe_b64encode (hmac_sha256 cr (utf8_encode secret) payload)"

definition make_csrf_token :: "crypto \<Rightarrow> bytes \<Rightarrow> string \<Rightarrow> string" where
  "make_csrf_token cr rnd secret =
     (let payload = encode_ascii (generate_token rnd)
      in urlsafe_b64encode payload @ CHR ''.'' # csrf_sig cr payload secret)"

definition verify_csrf_token :: "crypto \<Rightarrow> string \<Rightarrow> string \<Rightarrow> bool" where
  "verify_csrf_token cr token secret =
     (case rsplit1 (CHR ''.'') token of
        None \<Rightarrow> False
      | Some (payload_b64, sig) \<Rightarrow>
          if \<not> is_ascii payload_b64 then False
          else case urlsafe_b64decode payload_b64 of
              None \<Rightarrow> False
            | Some payload \<Rightarrow> is_ascii sig \<and> csrf_sig cr payload secret = sig)"

lemma csrf_sig_no_dot: "CHR ''.'' \<notin> set (csrf_sig cr payload secret)"
  by (simp add: csrf_sig_def b64encode_no_dot)

lemma verify_split:
  assumes "CHR ''.'' \<notin> set sig" and "is_ascii payload_b64"
    and "urlsafe_b64decode payload_b64 = Some payload"
  shows "verify_csrf_token cr (payload_b64 @ CHR ''.'' # sig) secret \<longleftrightarrow> sig = csrf_sig cr payload secret"
  using assms b64encode_ascii
  by (auto simp: verify_csrf_token_def rsplit1_snoc csrf_sig_def)

lemma make_csrf_token_verifies: "verify_csrf_token cr (make_csrf_token cr rnd secret) secret"
  unfolding make_csrf_token_def Let_def
  by (subst verify_split [OF csrf_sig_no_dot b64encode_ascii b64_roundtrip]) (rule refl)

lemma rsplit1_Some: "rsplit1 c s = Some (a, b) \<Longrightarrow> s = a @ c # b \<and> c \<notin> set b"
proof -
  assume r: "rsplit1 c s = Some (a, b)"
  then have "c \<in> set s" by (simp add: rsplit1_def split: if_splits)
  then obtain u v where "s = u @ c # v" and "c \<notin> set v" by (meson split_list_last)
  with r rsplit1_snoc [of c v u] show ?thesis by simp
qed

text \<open>What an accepted token is: its signature is the MAC of its own payload under the secret.\<close>

lemma verify_csrf_token_sound:
  assumes "verify_csrf_token cr token secret"
  shows "\<exists>payload_b64 payload. urlsafe_b64decode payload_b64 = Some payload \<and>
    token = payload_b64 @ CHR ''.'' # csrf_sig cr payload secret"
  using assms unfolding verify_csrf_token_def
  by (auto split: option.splits prod.splits if_splits dest!: rsplit1_Some)

section \<open>Room codes are canonical\<close>

lemma alphabet_canonical:
  "list_all (\<lambda>c. upper_char c = [c] \<and> \<not> isspace c \<and> c \<notin> set ''01OIL'') ROOM_CODE_ALPHABET"
  by code_simp

lemma alphabet_length: "length ROOM_CODE_ALPHABET = 31"
  by (simp add: ROOM_CODE_ALPHABET_def)

lemma room_code_chars:
  "c \<in> set (generate_room_code len choices) \<Longrightarrow>
     upper_char c = [c] \<and> \<not> isspace c \<and> c \<notin> set ''01OIL''"
  using alphabet_canonical
  by (auto simp: generate_room_code_def list_all_length alphabet_length)

lemma room_code_length: "length (generate_room_code len choices) = len"
  by (simp add: generate_room_code_def)

lemma upper_id: "(\<And>c. c \<in> set s \<Longrightarrow> upper_char c = [c]) \<Longrightarrow> upper s = s"
  by (induction s) (auto simp: upper_def)

lemma strip_id: "(\<And>c. c \<in> set s \<Longrightarrow> \<not> isspace c) \<Longrightarrow> strip s = s"
  by (cases "s = []") (simp_all add: strip_def lstrip_idem rstrip_idem)

lemma room_code_canonical: "strip (upper (generate_room_code len choices)) = generate_room_code len choices"
proof -
  have "upper (generate_room_code len choices) = generate_room_code len choices"
    by (rule upper_id) (simp add: room_code_chars)
  moreover have "strip (generate_room_code len choices) = generate_room_code len choices"
    by (rule strip_id) (simp add: room_code_chars)
  ultimately show ?thesis by simp
qed

end
