(* ===== verification/Models.thy ===== *)
theory Models
  imports Security
begin

text \<open>
  \<open>models/\<close> and \<open>db/\<close>: the rows of the five tables, the database, and the state a request works on.

  A database is the list of rows of each table in insertion order. Constraints are checked where a
  row is inserted: unique columns and foreign keys raise \<open>IntegrityError\<close>, a value longer than its
  column raises \<open>DataError\<close> (PostgreSQL, the configured database). Deleting sessions sets the
  references to them to NULL (\<open>ondelete="SET NULL"\<close>). Sequences are not part of the
  transaction: a rolled-back id is never handed out again.

  The state \<open>world\<close> holds the clock, the database as the running transaction sees it, the database
  as last committed, the sequences, and the state of the object store (of any type).
\<close>

section \<open>Rows\<close>

datatype RoomStatus = ACTIVE | EXPIRED | DELETING | DELETED

datatype FileStatus = PENDING | CONFIRMED | FILE_DELETED

datatype Role = OWNER | GUEST

datatype json = JNull | JInt int | JStr string

type_synonym json_dict = "(string \<times> json) list"

record room =
  r_id :: int
  r_room_code :: string
  r_access_token_hash :: string
  r_access_token_signed :: "string option"
  r_owner_token_hash :: string
  r_password_hash :: "string option"
  r_name :: "string option"
  r_status :: RoomStatus
  r_guest_upload_enabled :: bool
  r_guest_download_enabled :: bool
  r_max_users :: int
  r_user_count :: int
  r_storage_used_bytes :: int
  r_file_count :: int
  r_expires_at :: int
  r_created_at :: int
  r_updated_at :: int

record session_rec =
  s_id :: int
  s_room_id :: int
  s_session_token_hash :: string
  s_display_name :: "string option"
  s_role :: Role
  s_connected_at :: int
  s_last_seen_at :: int
  s_expires_at :: int
  s_created_at :: int
  s_updated_at :: int

record file_rec =
  f_id :: int
  f_room_id :: int
  f_original_filename :: string
  f_storage_key :: string
  f_content_type :: "string option"
  f_size_bytes :: int
  f_total_size_bytes :: "int option"
  f_status :: FileStatus
  f_uploaded_by :: "int option"
  f_download_count :: int
  f_expires_at :: "int option"
  f_created_at :: int
  f_updated_at :: int

record message =
  m_id :: int
  m_room_id :: int
  m_sender_session_id :: "int option"
  m_display_name :: "string option"
  m_body :: string
  m_created_at :: int

record audit_event =
  a_id :: int
  a_room_id :: "int option"
  a_event_type :: string
  a_metadata_json :: "json_dict option"
  a_created_at :: int

record database =
  rooms :: "room list"
  sessions :: "session_rec list"
  files :: "file_rec list"
  messages :: "message list"
  audit_events :: "audit_event list"

record sequences =
  room_seq :: int
  session_seq :: int
  file_seq :: int
  message_seq :: int
  audit_seq :: int

definition empty_db :: database where
  "empty_db = \<lparr>rooms = [], sessions = [], files = [], messages = [], audit_events = []\<rparr>"

definition init_seq :: sequences where
  "init_seq = \<lparr>room_seq = 1, session_seq = 1, file_seq = 1, message_seq = 1, audit_seq = 1\<rparr>"

section \<open>The state of a request\<close>

record 'st world =
  w_now :: int
  w_db :: database
  w_saved :: database
  w_seq :: sequences
  w_store :: 'st

type_synonym ('st, 'z, 'a) action = "(('st, 'z) world_scheme, exc, 'a) prog"

definition utcnow :: "('st, 'z, int) action" where
  "utcnow = gets w_now"

definition query :: "(database \<Rightarrow> 'a) \<Rightarrow> ('st, 'z, 'a) action" where
  "query q = gets (\<lambda>w. q (w_db w))"

definition exec :: "(database \<Rightarrow> database) \<Rightarrow> ('st, 'z, unit) action" where
  "exec f = modify (\<lambda>w. w\<lparr>w_db := f (w_db w)\<rparr>)"

definition commit :: "('st, 'z, unit) action" where
  "commit = modify (\<lambda>w. w\<lparr>w_saved := w_db w\<rparr>)"

definition rollback :: "('st, 'z, unit) action" where
  "rollback = modify (\<lambda>w. w\<lparr>w_db := w_saved w\<rparr>)"

text \<open>Running an action of the object store in the world.\<close>

definition on_store :: "('st, exc, 'a) prog \<Rightarrow> ('st, 'z, 'a) action" where
  "on_store p w = (let (r, st) = p (w_store w) in (r, w\<lparr>w_store := st\<rparr>))"

lemma wp_on_store [wp_simps]:
  "wp (on_store p) Q E w = wp p (\<lambda>x st. Q x (w\<lparr>w_store := st\<rparr>)) (\<lambda>e st. E e (w\<lparr>w_store := st\<rparr>)) (w_store w)"
  by (auto simp: wp_def on_store_def split: prod.splits sum.splits)

lemma wp_query [wp_simps]: "wp (query q) Q E w = Q (q (w_db w)) w"
  by (simp add: query_def wp_simps)

lemma wp_exec [wp_simps]: "wp (exec f) Q E w = Q () (w\<lparr>w_db := f (w_db w)\<rparr>)"
  by (simp add: exec_def wp_simps)

lemma wp_utcnow [wp_simps]: "wp utcnow Q E w = Q (w_now w) w"
  by (simp add: utcnow_def wp_simps)

lemma wp_commit [wp_simps]: "wp commit Q E w = Q () (w\<lparr>w_saved := w_db w\<rparr>)"
  by (simp add: commit_def wp_simps)

lemma wp_rollback [wp_simps]: "wp rollback Q E w = Q () (w\<lparr>w_db := w_saved w\<rparr>)"
  by (simp add: rollback_def wp_simps)

text \<open>\<open>scalar_one_or_none\<close> raises when the query has more than one row.\<close>

definition scalar_one_or_none :: "'r list \<Rightarrow> exc + 'r option" where
  "scalar_one_or_none rs = (case rs of [] \<Rightarrow> Inr None | [r] \<Rightarrow> Inr (Some r)
     | _ \<Rightarrow> Inl (Py MultipleResultsFound))"

lemma scalar_one_or_none_simps [simp]:
  "scalar_one_or_none [] = Inr None" "scalar_one_or_none [r] = Inr (Some r)"
  by (simp_all add: scalar_one_or_none_def)

lemma scalar_Some: "scalar_one_or_none rs = Inr (Some r) \<longleftrightarrow> rs = [r]"
  by (auto simp: scalar_one_or_none_def split: list.splits)

lemma scalar_None: "scalar_one_or_none rs = Inr None \<longleftrightarrow> rs = []"
  by (auto simp: scalar_one_or_none_def split: list.splits)

text \<open>Python's \<open>a or b\<close> on optional strings, and truthiness.\<close>

definition truthy :: "string option \<Rightarrow> bool" where
  "truthy s = (case s of None \<Rightarrow> False | Some t \<Rightarrow> t \<noteq> [])"

definition or_default :: "string option \<Rightarrow> string \<Rightarrow> string" where
  "or_default s d = (case s of None \<Rightarrow> d | Some t \<Rightarrow> if t \<noteq> [] then t else d)"

section \<open>Inserting rows\<close>

definition room_fits :: "room \<Rightarrow> bool" where
  "room_fits r \<longleftrightarrow> length (r_room_code r) \<le> 12 \<and> length (r_access_token_hash r) \<le> 64 \<and>
     length (case r_access_token_signed r of None \<Rightarrow> [] | Some s \<Rightarrow> s) \<le> 255 \<and>
     length (r_owner_token_hash r) \<le> 64 \<and>
     length (case r_password_hash r of None \<Rightarrow> [] | Some s \<Rightarrow> s) \<le> 255 \<and>
     length (case r_name r of None \<Rightarrow> [] | Some s \<Rightarrow> s) \<le> 120"

definition room_unique :: "room \<Rightarrow> database \<Rightarrow> bool" where
  "room_unique r d \<longleftrightarrow> list_all (\<lambda>t. r_room_code t \<noteq> r_room_code r \<and>
     r_access_token_hash t \<noteq> r_access_token_hash r \<and> r_owner_token_hash t \<noteq> r_owner_token_hash r) (rooms d)"

definition insert_room :: "room \<Rightarrow> ('st, 'z, room) action" where
  "insert_room r w =
     (let row = r\<lparr>r_id := room_seq (w_seq w)\<rparr>;
          w1 = w\<lparr>w_seq := (w_seq w)\<lparr>room_seq := room_seq (w_seq w) + 1\<rparr>\<rparr>
      in if \<not> room_fits row then (Inl (Py DataError), w1)
         else if \<not> room_unique row (w_db w) then (Inl (Py IntegrityError), w1)
         else (Inr row, w1\<lparr>w_db := (w_db w)\<lparr>rooms := rooms (w_db w) @ [row]\<rparr>\<rparr>))"

definition session_fits :: "session_rec \<Rightarrow> bool" where
  "session_fits s \<longleftrightarrow> length (s_session_token_hash s) \<le> 64 \<and>
     length (case s_display_name s of None \<Rightarrow> [] | Some n \<Rightarrow> n) \<le> 60"

definition room_exists :: "int \<Rightarrow> database \<Rightarrow> bool" where
  "room_exists i d \<longleftrightarrow> list_ex (\<lambda>r. r_id r = i) (rooms d)"

definition session_exists :: "int \<Rightarrow> database \<Rightarrow> bool" where
  "session_exists i d \<longleftrightarrow> list_ex (\<lambda>s. s_id s = i) (sessions d)"

definition insert_session :: "session_rec \<Rightarrow> ('st, 'z, session_rec) action" where
  "insert_session s w =
     (let row = s\<lparr>s_id := session_seq (w_seq w)\<rparr>;
          w1 = w\<lparr>w_seq := (w_seq w)\<lparr>session_seq := session_seq (w_seq w) + 1\<rparr>\<rparr>
      in if \<not> session_fits row then (Inl (Py DataError), w1)
         else if \<not> room_exists (s_room_id row) (w_db w) \<or>
                 list_ex (\<lambda>t. s_session_token_hash t = s_session_token_hash row) (sessions (w_db w))
         then (Inl (Py IntegrityError), w1)
         else (Inr row, w1\<lparr>w_db := (w_db w)\<lparr>sessions := sessions (w_db w) @ [row]\<rparr>\<rparr>))"

definition file_fits :: "file_rec \<Rightarrow> bool" where
  "file_fits f \<longleftrightarrow> length (f_original_filename f) \<le> 255 \<and> length (f_storage_key f) \<le> 128 \<and>
     length (case f_content_type f of None \<Rightarrow> [] | Some s \<Rightarrow> s) \<le> 200"

definition insert_file :: "file_rec \<Rightarrow> ('st, 'z, file_rec) action" where
  "insert_file f w =
     (let row = f\<lparr>f_id := file_seq (w_seq w)\<rparr>;
          w1 = w\<lparr>w_seq := (w_seq w)\<lparr>file_seq := file_seq (w_seq w) + 1\<rparr>\<rparr>
      in if \<not> file_fits row then (Inl (Py DataError), w1)
         else if \<not> room_exists (f_room_id row) (w_db w) \<or>
                 (case f_uploaded_by row of None \<Rightarrow> False | Some s \<Rightarrow> \<not> session_exists s (w_db w)) \<or>
                 list_ex (\<lambda>g. f_storage_key g = f_storage_key row) (files (w_db w))
         then (Inl (Py IntegrityError), w1)
         else (Inr row, w1\<lparr>w_db := (w_db w)\<lparr>files := files (w_db w) @ [row]\<rparr>\<rparr>))"

definition insert_message :: "message \<Rightarrow> ('st, 'z, message) action" where
  "insert_message m w =
     (let row = m\<lparr>m_id := message_seq (w_seq w)\<rparr>;
          w1 = w\<lparr>w_seq := (w_seq w)\<lparr>message_seq := message_seq (w_seq w) + 1\<rparr>\<rparr>
      in if length (case m_display_name row of None \<Rightarrow> [] | Some n \<Rightarrow> n) > 60 then (Inl (Py DataError), w1)
         else if \<not> room_exists (m_room_id row) (w_db w) \<or>
                 (case m_sender_session_id row of None \<Rightarrow> False | Some s \<Rightarrow> \<not> session_exists s (w_db w))
         then (Inl (Py IntegrityError), w1)
         else (Inr row, w1\<lparr>w_db := (w_db w)\<lparr>messages := messages (w_db w) @ [row]\<rparr>\<rparr>))"

definition insert_audit :: "audit_event \<Rightarrow> ('st, 'z, audit_event) action" where
  "insert_audit a w =
     (let row = a\<lparr>a_id := audit_seq (w_seq w)\<rparr>;
          w1 = w\<lparr>w_seq := (w_seq w)\<lparr>audit_seq := audit_seq (w_seq w) + 1\<rparr>\<rparr>
      in if length (a_event_type row) > 64 then (Inl (Py DataError), w1)
         else if (case a_room_id row of None \<Rightarrow> False | Some r \<Rightarrow> \<not> room_exists r (w_db w))
         then (Inl (Py IntegrityError), w1)
         else (Inr row, w1\<lparr>w_db := (w_db w)\<lparr>audit_events := audit_events (w_db w) @ [row]\<rparr>\<rparr>))"

text \<open>\<open>DELETE FROM sessions\<close> with the foreign-key action of the two referencing columns.\<close>

definition delete_sessions :: "(session_rec \<Rightarrow> bool) \<Rightarrow> database \<Rightarrow> database" where
  "delete_sessions P d =
     (let gone = map s_id (sel P (sessions d));
          hit = (\<lambda>x. case x of None \<Rightarrow> False | Some i \<Rightarrow> i \<in> set gone)
      in d\<lparr>sessions := del P (sessions d),
           files := upd (\<lambda>f. hit (f_uploaded_by f)) (\<lambda>f. f\<lparr>f_uploaded_by := None\<rparr>) (files d),
           messages := upd (\<lambda>m. hit (m_sender_session_id m)) (\<lambda>m. m\<lparr>m_sender_session_id := None\<rparr>) (messages d)\<rparr>)"

lemma room_exists_iff [simp]: "room_exists i d \<longleftrightarrow> i \<in> r_id ` set (rooms d)"
  by (auto simp: room_exists_def list_ex_iff)

lemma session_exists_iff [simp]: "session_exists i d \<longleftrightarrow> i \<in> s_id ` set (sessions d)"
  by (auto simp: session_exists_def list_ex_iff)

lemma delete_sessions_simps [simp]:
  "rooms (delete_sessions P d) = rooms d"
  "sessions (delete_sessions P d) = del P (sessions d)"
  "audit_events (delete_sessions P d) = audit_events d"
  by (simp_all add: delete_sessions_def Let_def)

section \<open>Well-formed databases\<close>

text \<open>
  Keys are unique and below the next value of their sequence, and every file, message and session
  belongs to a room.
\<close>

definition keys_ok :: "('r \<Rightarrow> int) \<Rightarrow> int \<Rightarrow> 'r list \<Rightarrow> bool" where
  "keys_ok key next rows \<longleftrightarrow> distinct (map key rows) \<and> (\<forall>r \<in> set rows. key r < next)"

lemma keys_okD: "keys_ok key next rows \<Longrightarrow> distinct (map key rows)"
  by (simp add: keys_ok_def)

lemma keys_ok_Nil [simp]: "keys_ok key next []"
  by (simp add: keys_ok_def)

lemma keys_ok_snoc: "keys_ok key next rows \<Longrightarrow> key r = next \<Longrightarrow> keys_ok key (next + 1) (rows @ [r])"
  by (force simp: keys_ok_def)

lemma keys_ok_upd: "keys_ok key next rows \<Longrightarrow> (\<And>r. P r \<Longrightarrow> key (f r) = key r) \<Longrightarrow> keys_ok key next (upd P f rows)"
  by (auto simp: keys_ok_def map_upd_key set_upd)

lemma keys_ok_del: "keys_ok key next rows \<Longrightarrow> keys_ok key next (del P rows)"
  by (auto simp: keys_ok_def distinct_map_del)

lemma keys_ok_Suc: "keys_ok key next rows \<Longrightarrow> keys_ok key (next + 1) rows"
  by (force simp: keys_ok_def)

text \<open>What the files of a room add up to, and how many there are.\<close>

definition confirmed_bytes :: "int \<Rightarrow> file_rec \<Rightarrow> int" where
  "confirmed_bytes i f = (if f_room_id f = i \<and> f_status f = CONFIRMED then f_size_bytes f else 0)"

definition confirmed_one :: "int \<Rightarrow> file_rec \<Rightarrow> int" where
  "confirmed_one i f = (if f_room_id f = i \<and> f_status f = CONFIRMED then 1 else 0)"

definition used_bytes :: "int \<Rightarrow> database \<Rightarrow> int" where
  "used_bytes i d = sum_list (map (confirmed_bytes i) (files d))"

definition used_files :: "int \<Rightarrow> database \<Rightarrow> int" where
  "used_files i d = sum_list (map (confirmed_one i) (files d))"

lemma used_files_count:
  "used_files i d = int (length (sel (\<lambda>f. f_room_id f = i \<and> f_status f = CONFIRMED) (files d)))"
proof -
  have "sum_list (map (confirmed_one i) fs)
      = int (length (sel (\<lambda>f. f_room_id f = i \<and> f_status f = CONFIRMED) fs))" for fs
    by (induction fs) (auto simp: confirmed_one_def)
  then show ?thesis by (simp add: used_files_def)
qed

end
