(* ===== verification/Repositories.thy ===== *)
theory Repositories
  imports Models "HOL-Library.Multiset"
begin

text \<open>
  \<open>repositories/\<close>: one definition per query or statement. A \<open>SELECT\<close> without \<open>ORDER BY\<close> returns
  the rows in insertion order here. PostgreSQL leaves the order open, and with it which rows a
  \<open>LIMIT\<close> keeps: the properties speak of sets of rows and of the size of a batch, and in \<open>System\<close> a
  job may come with any payload. \<open>db.add\<close> of an audit event inserts the row at once; no query reads
  audit events between the \<open>add\<close> and the next flush.
  An \<open>UPDATE ... WHERE\<close> is one atomic statement: its guard is read from the database, not from the
  row the caller holds, and its \<open>rowcount\<close> tells whether the guard held.
\<close>

section \<open>Rooms\<close>

definition exec_rowcount :: "(database \<Rightarrow> database) \<Rightarrow> (database \<Rightarrow> nat) \<Rightarrow> ('st, 'z, nat) action" where
  "exec_rowcount f cnt w = (Inr (cnt (w_db w)), w\<lparr>w_db := f (w_db w)\<rparr>)"

lemma wp_exec_rowcount [wp_simps]:
  "wp (exec_rowcount f c) Q E w = Q (c (w_db w)) (w\<lparr>w_db := f (w_db w)\<rparr>)"
  by (simp add: wp_def exec_rowcount_def)

definition upd_rooms :: "(room \<Rightarrow> bool) \<Rightarrow> (room \<Rightarrow> room) \<Rightarrow> database \<Rightarrow> database" where
  "upd_rooms P f d = d\<lparr>rooms := upd P f (rooms d)\<rparr>"

definition upd_files :: "(file_rec \<Rightarrow> bool) \<Rightarrow> (file_rec \<Rightarrow> file_rec) \<Rightarrow> database \<Rightarrow> database" where
  "upd_files P f d = d\<lparr>files := upd P f (files d)\<rparr>"

definition del_files :: "(file_rec \<Rightarrow> bool) \<Rightarrow> database \<Rightarrow> database" where
  "del_files P d = d\<lparr>files := del P (files d)\<rparr>"

definition upd_sessions :: "(session_rec \<Rightarrow> bool) \<Rightarrow> (session_rec \<Rightarrow> session_rec) \<Rightarrow> database \<Rightarrow> database" where
  "upd_sessions P f d = d\<lparr>sessions := upd P f (sessions d)\<rparr>"

lemma upd_rooms_simps [simp]:
  "rooms (upd_rooms P f d) = upd P f (rooms d)" "sessions (upd_rooms P f d) = sessions d"
  "files (upd_rooms P f d) = files d" "messages (upd_rooms P f d) = messages d"
  "audit_events (upd_rooms P f d) = audit_events d"
  by (simp_all add: upd_rooms_def)

lemma upd_files_simps [simp]:
  "rooms (upd_files P g d) = rooms d" "sessions (upd_files P g d) = sessions d"
  "files (upd_files P g d) = upd P g (files d)" "messages (upd_files P g d) = messages d"
  "audit_events (upd_files P g d) = audit_events d"
  by (simp_all add: upd_files_def)

lemma del_files_simps [simp]:
  "rooms (del_files P d) = rooms d" "sessions (del_files P d) = sessions d"
  "files (del_files P d) = del P (files d)" "messages (del_files P d) = messages d"
  "audit_events (del_files P d) = audit_events d"
  by (simp_all add: del_files_def)

lemma upd_sessions_simps [simp]:
  "rooms (upd_sessions P h d) = rooms d" "sessions (upd_sessions P h d) = upd P h (sessions d)"
  "files (upd_sessions P h d) = files d" "messages (upd_sessions P h d) = messages d"
  "audit_events (upd_sessions P h d) = audit_events d"
  by (simp_all add: upd_sessions_def)

definition create_audit_event ::
  "int option \<Rightarrow> string \<Rightarrow> json_dict option \<Rightarrow> ('st, 'z, audit_event) action" where
  "create_audit_event room_id event_type metadata =
     bind utcnow (\<lambda>now.
     insert_audit \<lparr>a_id = 0, a_room_id = room_id, a_event_type = event_type,
                   a_metadata_json = metadata, a_created_at = now\<rparr>)"

text \<open>The four random draws of \<open>create_room\<close>.\<close>

record room_draws =
  d_access :: bytes
  d_owner :: bytes
  d_code :: "nat \<Rightarrow> nat"

definition repo_create_room ::
  "settings \<Rightarrow> crypto \<Rightarrow> room_draws \<Rightarrow> string option \<Rightarrow> string option \<Rightarrow> bool \<Rightarrow> bool \<Rightarrow> int \<Rightarrow> int
   \<Rightarrow> ('st, 'z, room \<times> string \<times> string \<times> string) action" where
  "repo_create_room cfg cr draws name password_hash guest_upload guest_download max_users lifetime_seconds =
     (let access_token = generate_token (d_access draws);
          owner_token = generate_token (d_owner draws);
          room_code = generate_room_code (room_code_length cfg) (d_code draws)
      in bind utcnow (\<lambda>now.
         bind (insert_room \<lparr>
            r_id = 0, r_room_code = room_code,
            r_access_token_hash = hash_token cr access_token,
            r_access_token_signed = Some (sign_access_token cr now access_token (csrf_secret cfg)
                                            (max_room_lifetime_seconds cfg + 3600)),
            r_owner_token_hash = hash_token cr owner_token,
            r_password_hash = password_hash, r_name = name, r_status = ACTIVE,
            r_guest_upload_enabled = guest_upload, r_guest_download_enabled = guest_download,
            r_max_users = max_users, r_user_count = 0, r_storage_used_bytes = 0, r_file_count = 0,
            r_expires_at = now + seconds lifetime_seconds,
            r_created_at = now, r_updated_at = now\<rparr>) (\<lambda>room.
         bind (create_audit_event (Some (r_id room)) ''ROOM_CREATED'' None) (\<lambda>_.
         ret (room, access_token, owner_token, room_code)))))"

definition find_room :: "(room \<Rightarrow> bool) \<Rightarrow> ('st, 'z, room option) action" where
  "find_room P = bind (query (\<lambda>d. sel P (rooms d))) (\<lambda>rs. of_sum (scalar_one_or_none rs))"

definition get_room_by_access_token :: "crypto \<Rightarrow> string \<Rightarrow> ('st, 'z, room option) action" where
  "get_room_by_access_token cr access_token = find_room (\<lambda>r. r_access_token_hash r = hash_token cr access_token)"

definition get_room_by_owner_token :: "crypto \<Rightarrow> string \<Rightarrow> ('st, 'z, room option) action" where
  "get_room_by_owner_token cr owner_token = find_room (\<lambda>r. r_owner_token_hash r = hash_token cr owner_token)"

definition get_room_by_code :: "string \<Rightarrow> ('st, 'z, room option) action" where
  "get_room_by_code room_code = find_room (\<lambda>r. r_room_code r = strip (upper room_code))"

definition recover_access_token :: "settings \<Rightarrow> crypto \<Rightarrow> int \<Rightarrow> room option \<Rightarrow> string option" where
  "recover_access_token cfg cr now room = (case room of None \<Rightarrow> None
     | Some r \<Rightarrow> if \<not> truthy (r_access_token_signed r) then None
                else unsign_access_token cr now (the (r_access_token_signed r)) (csrf_secret cfg)
                       (max_room_lifetime_seconds cfg + 3600))"

definition get_room_by_id :: "int \<Rightarrow> ('st, 'z, room option) action" where
  "get_room_by_id room_id = find_room (\<lambda>r. r_id r = room_id)"

definition update_room_fields :: "int \<Rightarrow> (room \<Rightarrow> room) \<Rightarrow> ('st, 'z, room option) action" where
  "update_room_fields room_id f = bind utcnow (\<lambda>now.
     seq (exec (upd_rooms (\<lambda>r. r_id r = room_id) (\<lambda>r. (f r)\<lparr>r_updated_at := now\<rparr>)))
         (get_room_by_id room_id))"

definition guarded_update :: "(room \<Rightarrow> bool) \<Rightarrow> (room \<Rightarrow> room) \<Rightarrow> ('st, 'z, bool) action" where
  "guarded_update P f = bind utcnow (\<lambda>now.
     bind (exec_rowcount (upd_rooms P (\<lambda>r. (f r)\<lparr>r_updated_at := now\<rparr>)) (\<lambda>d. rowcount P (rooms d))) (\<lambda>n.
     ret (n > 0)))"

definition increment_user_count_atomic :: "int \<Rightarrow> ('st, 'z, bool) action" where
  "increment_user_count_atomic room_id =
     guarded_update (\<lambda>r. r_id r = room_id \<and> r_user_count r < r_max_users r)
       (\<lambda>r. r\<lparr>r_user_count := r_user_count r + 1\<rparr>)"

definition decrement_user_count :: "int \<Rightarrow> ('st, 'z, unit) action" where
  "decrement_user_count room_id =
     bind (guarded_update (\<lambda>r. r_id r = room_id \<and> r_user_count r > 0)
       (\<lambda>r. r\<lparr>r_user_count := r_user_count r - 1\<rparr>)) (\<lambda>_. ret ())"

definition update_storage_and_file_count :: "int \<Rightarrow> int \<Rightarrow> int \<Rightarrow> ('st, 'z, unit) action" where
  "update_storage_and_file_count room_id size_delta file_delta =
     bind (guarded_update (\<lambda>r. r_id r = room_id)
       (\<lambda>r. r\<lparr>r_storage_used_bytes := r_storage_used_bytes r + size_delta,
             r_file_count := r_file_count r + file_delta\<rparr>)) (\<lambda>_. ret ())"

definition mark_room_expired :: "int \<Rightarrow> ('st, 'z, bool) action" where
  "mark_room_expired room_id =
     guarded_update (\<lambda>r. r_id r = room_id \<and> r_status r = ACTIVE) (\<lambda>r. r\<lparr>r_status := EXPIRED\<rparr>)"

definition mark_room_deleting :: "int \<Rightarrow> ('st, 'z, bool) action" where
  "mark_room_deleting room_id =
     guarded_update (\<lambda>r. r_id r = room_id \<and> r_status r = EXPIRED) (\<lambda>r. r\<lparr>r_status := DELETING\<rparr>)"

definition mark_room_deleted :: "int \<Rightarrow> ('st, 'z, bool) action" where
  "mark_room_deleted room_id =
     guarded_update (\<lambda>r. r_id r = room_id \<and> r_status r = DELETING) (\<lambda>r. r\<lparr>r_status := DELETED\<rparr>)"

definition list_rooms_pending_cleanup :: "('st, 'z, room list) action" where
  "list_rooms_pending_cleanup = bind utcnow (\<lambda>now.
     query (\<lambda>d. take 100 (sel (\<lambda>r. (r_status r = ACTIVE \<or> r_status r = EXPIRED) \<and> r_expires_at r \<le> now) (rooms d))))"

text \<open>\<open>_claim_quota\<close> of the file and upload services (the same statement in both).\<close>

definition claim_quota :: "settings \<Rightarrow> int \<Rightarrow> int \<Rightarrow> ('st, 'z, bool) action" where
  "claim_quota cfg room_id size_bytes =
     guarded_update (\<lambda>r. r_id r = room_id \<and> r_status r = ACTIVE \<and>
         r_file_count r < max_files_per_room cfg \<and>
         r_storage_used_bytes r + size_bytes \<le> max_room_storage_bytes cfg)
       (\<lambda>r. r\<lparr>r_storage_used_bytes := r_storage_used_bytes r + size_bytes,
             r_file_count := r_file_count r + 1\<rparr>)"

section \<open>Sessions\<close>

definition create_session ::
  "settings \<Rightarrow> int \<Rightarrow> string \<Rightarrow> string option \<Rightarrow> Role \<Rightarrow> ('st, 'z, session_rec) action" where
  "create_session cfg room_id session_token_hash display_name role =
     bind utcnow (\<lambda>now.
     insert_session \<lparr>s_id = 0, s_room_id = room_id, s_session_token_hash = session_token_hash,
       s_display_name = Some (or_default display_name ''Guest''), s_role = role,
       s_connected_at = now, s_last_seen_at = now,
       s_expires_at = now + seconds (session_ttl_seconds cfg), s_created_at = now, s_updated_at = now\<rparr>)"

definition get_by_token_hash :: "string \<Rightarrow> ('st, 'z, session_rec option) action" where
  "get_by_token_hash token_hash = bind utcnow (\<lambda>now.
     bind (query (\<lambda>d. sel (\<lambda>s. s_session_token_hash s = token_hash \<and> s_expires_at s > now) (sessions d)))
       (\<lambda>rs. of_sum (scalar_one_or_none rs)))"

definition get_active_sessions :: "int \<Rightarrow> ('st, 'z, session_rec list) action" where
  "get_active_sessions room_id = bind utcnow (\<lambda>now.
     query (\<lambda>d. sel (\<lambda>s. s_room_id s = room_id \<and> s_expires_at s > now) (sessions d)))"

definition delete_expired_sessions :: "('st, 'z, nat) action" where
  "delete_expired_sessions = bind utcnow (\<lambda>now.
     exec_rowcount (delete_sessions (\<lambda>s. s_expires_at s \<le> now)) (\<lambda>d. rowcount (\<lambda>s. s_expires_at s \<le> now) (sessions d)))"

definition delete_by_room :: "int \<Rightarrow> ('st, 'z, nat) action" where
  "delete_by_room room_id =
     exec_rowcount (delete_sessions (\<lambda>s. s_room_id s = room_id)) (\<lambda>d. rowcount (\<lambda>s. s_room_id s = room_id) (sessions d))"

definition touch_session :: "session_rec \<Rightarrow> ('st, 'z, unit) action" where
  "touch_session sess = bind utcnow (\<lambda>now.
     exec (upd_sessions (\<lambda>s. s_id s = s_id sess) (\<lambda>s. s\<lparr>s_last_seen_at := now, s_updated_at := now\<rparr>)))"

definition expire_session :: "int \<Rightarrow> ('st, 'z, unit) action" where
  "expire_session session_id = bind utcnow (\<lambda>now.
     exec (upd_sessions (\<lambda>s. s_id s = session_id)
       (\<lambda>s. s\<lparr>s_expires_at := now, s_last_seen_at := now, s_updated_at := now\<rparr>)))"

section \<open>Files\<close>

definition create_file_record ::
  "int \<Rightarrow> string \<Rightarrow> string \<Rightarrow> string option \<Rightarrow> int \<Rightarrow> int option \<Rightarrow> int option \<Rightarrow> ('st, 'z, file_rec) action" where
  "create_file_record room_id original_filename storage_key content_type size_bytes uploaded_by expires_at =
     bind utcnow (\<lambda>now.
     insert_file \<lparr>f_id = 0, f_room_id = room_id, f_original_filename = original_filename,
       f_storage_key = storage_key, f_content_type = content_type, f_size_bytes = size_bytes,
       f_total_size_bytes = None, f_status = PENDING, f_uploaded_by = uploaded_by,
       f_download_count = 0, f_expires_at = expires_at, f_created_at = now, f_updated_at = now\<rparr>)"

definition get_file_by_id :: "int \<Rightarrow> ('st, 'z, file_rec option) action" where
  "get_file_by_id file_id =
     bind (query (\<lambda>d. sel (\<lambda>f. f_id f = file_id) (files d))) (\<lambda>rs. of_sum (scalar_one_or_none rs))"

definition update_file :: "int \<Rightarrow> (file_rec \<Rightarrow> file_rec) \<Rightarrow> ('st, 'z, unit) action" where
  "update_file file_id f = bind utcnow (\<lambda>now.
     exec (upd_files (\<lambda>r. f_id r = file_id) (\<lambda>r. (f r)\<lparr>f_updated_at := now\<rparr>)))"

definition mark_confirmed :: "int \<Rightarrow> ('st, 'z, unit) action" where
  "mark_confirmed file_id = update_file file_id (\<lambda>r. r\<lparr>f_status := CONFIRMED\<rparr>)"

definition mark_deleted :: "int \<Rightarrow> ('st, 'z, unit) action" where
  "mark_deleted file_id = update_file file_id (\<lambda>r. r\<lparr>f_status := FILE_DELETED\<rparr>)"

definition increment_download :: "int \<Rightarrow> ('st, 'z, unit) action" where
  "increment_download file_id = update_file file_id (\<lambda>r. r\<lparr>f_download_count := f_download_count r + 1\<rparr>)"

definition list_confirmed_files :: "int \<Rightarrow> ('st, 'z, file_rec list) action" where
  "list_confirmed_files room_id =
     query (\<lambda>d. sel (\<lambda>f. f_room_id f = room_id \<and> f_status f = CONFIRMED) (files d))"

definition list_room_storage_keys :: "int \<Rightarrow> ('st, 'z, string list) action" where
  "list_room_storage_keys room_id = query (\<lambda>d. map f_storage_key (sel (\<lambda>f. f_room_id f = room_id) (files d)))"

definition delete_file_records :: "int \<Rightarrow> ('st, 'z, unit) action" where
  "delete_file_records room_id = exec (del_files (\<lambda>f. f_room_id f = room_id))"

definition list_deleted_records :: "('st, 'z, file_rec list) action" where
  "list_deleted_records = query (\<lambda>d. take 500 (sel (\<lambda>f. f_status f = FILE_DELETED) (files d)))"

definition list_stale_pending :: "int \<Rightarrow> ('st, 'z, file_rec list) action" where
  "list_stale_pending before =
     query (\<lambda>d. take 500 (sel (\<lambda>f. f_status f = PENDING \<and> f_created_at f < before) (files d)))"

definition list_all_storage_keys :: "('st, 'z, string list) action" where
  "list_all_storage_keys = query (\<lambda>d. map f_storage_key (files d))"

section \<open>Messages\<close>

definition create_message ::
  "int \<Rightarrow> int option \<Rightarrow> string option \<Rightarrow> string \<Rightarrow> ('st, 'z, message) action" where
  "create_message room_id sender_session_id display_name body =
     bind utcnow (\<lambda>now.
     insert_message \<lparr>m_id = 0, m_room_id = room_id, m_sender_session_id = sender_session_id,
       m_display_name = display_name, m_body = body, m_created_at = now\<rparr>)"

text \<open>\<open>ORDER BY created_at DESC LIMIT n\<close>, reversed. Rows with the same time keep their order.\<close>

definition latest_messages :: "int \<Rightarrow> nat \<Rightarrow> database \<Rightarrow> message list" where
  "latest_messages room_id n d =
     rev (take n (rev (sort_key m_created_at (sel (\<lambda>m. m_room_id m = room_id) (messages d)))))"

definition list_room_messages :: "int \<Rightarrow> nat \<Rightarrow> ('st, 'z, message list) action" where
  "list_room_messages room_id n = query (latest_messages room_id n)"

definition repo_delete_message :: "int \<Rightarrow> int \<Rightarrow> ('st, 'z, bool) action" where
  "repo_delete_message message_id room_id =
     bind (exec_rowcount (\<lambda>d. d\<lparr>messages := del (\<lambda>m. m_id m = message_id \<and> m_room_id m = room_id) (messages d)\<rparr>)
            (\<lambda>d. rowcount (\<lambda>m. m_id m = message_id \<and> m_room_id m = room_id) (messages d))) (\<lambda>n. ret (n > 0))"

definition delete_messages_by_room :: "int \<Rightarrow> ('st, 'z, unit) action" where
  "delete_messages_by_room room_id =
     exec (\<lambda>d. d\<lparr>messages := del (\<lambda>m. m_room_id m = room_id) (messages d)\<rparr>)"

end
