(* ===== verification/Storage.thy ===== *)
theory Storage
  imports Config "HOL-Library.AList" "HOL-Library.List_Lexorder" "HOL-Library.Char_ord"
begin

text \<open>
  \<open>storage/\<close>: the \<open>StorageBackend\<close> protocol as a record of operations, the contract its clients
  rely on as the locale \<open>object_store\<close>, and the filesystem backend \<open>LocalStorageBackend\<close>, whose
  \<open>put\<close> stages the bytes in a temporary file and renames it over the key.

  An \<open>AsyncIterator[bytes]\<close> is the list of the chunks it yields and the exception that ends it, if
  any. The filesystem below the storage root is the list of its files; the names \<open>mkstemp\<close> draws
  and the paths on which the operating system refuses a write or an unlink are part of its state.
\<close>

type_synonym stream = "bytes list \<times> exc option"

record 'st storage_backend =
  put :: "string \<Rightarrow> stream \<Rightarrow> ('st, exc, int) prog"
  get_stream :: "string \<Rightarrow> 'st \<Rightarrow> stream"
  head_object :: "string \<Rightarrow> 'st \<Rightarrow> int"
  delete_object :: "string \<Rightarrow> ('st, exc, unit) prog"
  object_exists :: "string \<Rightarrow> 'st \<Rightarrow> bool"
  list_keys :: "string \<Rightarrow> 'st \<Rightarrow> string list"

definition is_py :: "exc \<Rightarrow> bool" where
  "is_py e = (case e of Py x \<Rightarrow> True | Drop c d \<Rightarrow> False)"

lemma is_py_simps [simp]: "is_py (Py x)" "\<not> is_py (Drop c d)"
  by (simp_all add: is_py_def)

section \<open>The contract\<close>

locale object_store =
  fixes bk :: "'st storage_backend"
    and contents :: "'st \<Rightarrow> string \<Rightarrow> bytes option"
  assumes put_ok: "put bk k d s = (Inr n, s') \<Longrightarrow>
      snd d = None \<and> n = int (length (concat (fst d))) \<and> contents s' = (contents s)(k \<mapsto> concat (fst d))"
    and put_error: "put bk k d s = (Inl e, s') \<Longrightarrow> snd d = Some e \<or> is_py e"
    and put_fail: "put bk k d s = (Inl e, s') \<Longrightarrow> k' \<noteq> k \<Longrightarrow> contents s k' = Some b \<Longrightarrow> contents s' k' = Some b"
    and delete_ok: "delete_object bk k s = (Inr u, s') \<Longrightarrow> contents s' = (contents s)(k := None)"
    and delete_fail: "delete_object bk k s = (Inl e, s') \<Longrightarrow> is_py e \<and> contents s' = contents s"
    and get_some: "contents s k = Some b \<Longrightarrow>
      snd (get_stream bk k s) = None \<and> concat (fst (get_stream bk k s)) = b \<and> [] \<notin> set (fst (get_stream bk k s))"
    and exists_iff: "object_exists bk k s \<longleftrightarrow> contents s k \<noteq> None"
    and list_keys_iff: "set (list_keys bk p s) = {k. contents s k \<noteq> None \<and> prefix p k}"

context object_store
begin

lemma put_wp:
  "wp (put bk k d)
    (\<lambda>n s'. snd d = None \<and> n = int (length (concat (fst d))) \<and> contents s' = (contents s)(k \<mapsto> concat (fst d)))
    (\<lambda>e s'. (snd d = Some e \<or> is_py e) \<and>
       (\<forall>k' b. k' \<noteq> k \<longrightarrow> contents s k' = Some b \<longrightarrow> contents s' k' = Some b)) s"
  by (rule wpI) (use put_ok put_error put_fail in blast)+

lemma delete_wp:
  "wp (delete_object bk k) (\<lambda>_ s'. contents s' = (contents s)(k := None))
    (\<lambda>e s'. is_py e \<and> contents s' = contents s) s"
  by (rule wpI) (use delete_ok delete_fail in blast)+

end

section \<open>The filesystem\<close>

record fsys =
  objs :: "(string \<times> bytes) list"
  tmp_names :: "string list"
  write_fails :: "string \<Rightarrow> bool"
  unlink_fails :: "string \<Rightarrow> bool"

definition CHUNK_SIZE :: nat where
  "CHUNK_SIZE = 1024 * 256"

definition fs_contents :: "fsys \<Rightarrow> string \<Rightarrow> bytes option" where
  "fs_contents s = map_of (objs s)"

fun mkstemp_try :: "string list \<Rightarrow> (fsys, exc, string) prog" where
  "mkstemp_try [] s = (Inl (Py OSError), s\<lparr>tmp_names := []\<rparr>)"
| "mkstemp_try (n # ns) s =
     (let path = ''tmp'' @ n @ ''.part'' in
      if fs_contents s path \<noteq> None then mkstemp_try ns s
      else (Inr path, s\<lparr>objs := AList.update path [] (objs s), tmp_names := ns\<rparr>))"

definition mkstemp :: "(fsys, exc, string) prog" where
  "mkstemp s = mkstemp_try (tmp_names s) s"

definition fs_append :: "string \<Rightarrow> bytes \<Rightarrow> (fsys, exc, unit) prog" where
  "fs_append path chunk s = (case fs_contents s path of
     None \<Rightarrow> (Inl (Py OSError), s)
   | Some b \<Rightarrow> if write_fails s path then (Inl (Py OSError), s)
              else (Inr (), s\<lparr>objs := AList.update path (b @ chunk) (objs s)\<rparr>))"

definition fs_unlink :: "string \<Rightarrow> (fsys, exc, unit) prog" where
  "fs_unlink path s =
     (if fs_contents s path = None then (Inl (Py FileNotFoundError), s)
      else if unlink_fails s path then (Inl (Py OSError), s)
      else (Inr (), s\<lparr>objs := AList.delete path (objs s)\<rparr>))"

definition fs_replace :: "string \<Rightarrow> string \<Rightarrow> (fsys, exc, unit) prog" where
  "fs_replace src dest s = (case fs_contents s src of
     None \<Rightarrow> (Inl (Py FileNotFoundError), s)
   | Some b \<Rightarrow> if write_fails s dest then (Inl (Py OSError), s)
              else (Inr (), s\<lparr>objs := AList.update dest b (AList.delete src (objs s))\<rparr>))"

section \<open>LocalStorageBackend\<close>

text \<open>The loop of \<open>put\<close>: chunks are written as they arrive; the stream's exception ends it.\<close>

fun write_chunks :: "string \<Rightarrow> bytes list \<Rightarrow> exc option \<Rightarrow> int \<Rightarrow> (fsys, exc, int) prog" where
  "write_chunks path [] end_exc acc = (case end_exc of None \<Rightarrow> ret acc | Some e \<Rightarrow> raise e)"
| "write_chunks path (c # cs) end_exc acc =
     seq (fs_append path c) (write_chunks path cs end_exc (acc + int (length c)))"

definition local_put :: "string \<Rightarrow> stream \<Rightarrow> (fsys, exc, int) prog" where
  "local_put key data =
     bind mkstemp (\<lambda>tmp_path.
     try_except
       (bind (write_chunks tmp_path (fst data) (snd data) 0) (\<lambda>acc.
        seq (fs_replace tmp_path key) (ret acc)))
       (\<lambda>e. seq (try_except (fs_unlink tmp_path) (\<lambda>_. ret ())) (raise e)))"

fun chunks_of :: "nat \<Rightarrow> bytes \<Rightarrow> bytes list" where
  "chunks_of n xs = (if xs = [] \<or> n = 0 then [] else take n xs # chunks_of n (drop n xs))"

declare chunks_of.simps [simp del]

definition local_get_stream :: "string \<Rightarrow> fsys \<Rightarrow> stream" where
  "local_get_stream key s = (case fs_contents s key of
     None \<Rightarrow> ([], None) | Some b \<Rightarrow> (chunks_of CHUNK_SIZE b, None))"

definition local_head :: "string \<Rightarrow> fsys \<Rightarrow> int" where
  "local_head key s = (case fs_contents s key of None \<Rightarrow> -1 | Some b \<Rightarrow> int (length b))"

definition local_delete :: "string \<Rightarrow> (fsys, exc, unit) prog" where
  "local_delete key = try_except (fs_unlink key)
     (\<lambda>e. if e = Py FileNotFoundError then ret () else raise e)"

definition local_exists :: "string \<Rightarrow> fsys \<Rightarrow> bool" where
  "local_exists key s \<longleftrightarrow> fs_contents s key \<noteq> None"

definition local_list_keys :: "string \<Rightarrow> fsys \<Rightarrow> string list" where
  "local_list_keys pre s = filter (\<lambda>k. pre = [] \<or> prefix pre k) (sort (remdups (map fst (objs s))))"

definition local_backend :: "fsys storage_backend" where
  "local_backend = \<lparr>put = local_put, get_stream = local_get_stream, head_object = local_head,
     delete_object = local_delete, object_exists = local_exists, list_keys = local_list_keys\<rparr>"

lemma local_backend_simps [simp]:
  "put local_backend = local_put" "get_stream local_backend = local_get_stream"
  "head_object local_backend = local_head" "delete_object local_backend = local_delete"
  "object_exists local_backend = local_exists" "list_keys local_backend = local_list_keys"
  by (simp_all add: local_backend_def)

section \<open>The staging loop\<close>

lemma map_of_alist_update: "map_of (AList.update k v al) = (map_of al)(k \<mapsto> v)"
  by (rule ext) (simp add: update_conv)

lemma map_of_alist_delete: "map_of (AList.delete k al) = (map_of al)(k := None)"
  by (rule ext) (simp add: delete_conv)

lemma mkstemp_try_Inr:
  "mkstemp_try ns s = (Inr path, s') \<Longrightarrow>
     fs_contents s path = None \<and> fs_contents s' = (fs_contents s)(path \<mapsto> []) \<and>
     write_fails s' = write_fails s \<and> unlink_fails s' = unlink_fails s"
  by (induction ns) (auto simp: fs_contents_def map_of_alist_update Let_def split: if_splits)

lemma mkstemp_try_Inl:
  "mkstemp_try ns s = (Inl e, s') \<Longrightarrow> e = Py OSError \<and> fs_contents s' = fs_contents s"
  by (induction ns) (auto simp: fs_contents_def Let_def split: if_splits)

lemmas mkstemp_Inr = mkstemp_try_Inr [of "tmp_names s" s for s, folded mkstemp_def]
lemmas mkstemp_Inl = mkstemp_try_Inl [of "tmp_names s" s for s, folded mkstemp_def]

text \<open>Whatever the loop does, only the staging file changes; when it returns, that file holds all
  the chunks.\<close>

lemma write_chunks_wp:
  assumes "fs_contents s path = Some b"
  shows "wp (write_chunks path cs end_exc acc)
    (\<lambda>n t. end_exc = None \<and> n = acc + int (length (concat cs)) \<and>
       fs_contents t = (fs_contents s)(path \<mapsto> b @ concat cs))
    (\<lambda>e t. (end_exc = Some e \<or> is_py e) \<and> (\<exists>b'. fs_contents t = (fs_contents s)(path \<mapsto> b'))) s"
  using assms
proof (induction cs arbitrary: s b acc)
  case Nil
  then have same: "fs_contents s = (fs_contents s)(path \<mapsto> b)" by auto
  show ?case
  proof (cases end_exc)
    case None
    with same show ?thesis by (simp add: wp_ret)
  next
    case (Some e)
    have "\<exists>b'. fs_contents s = (fs_contents s)(path \<mapsto> b')" using same by (rule exI)
    then show ?thesis unfolding write_chunks.simps Some option.case wp_raise by blast
  qed
next
  case (Cons c cs)
  let ?s = "s\<lparr>objs := AList.update path (b @ c) (objs s)\<rparr>"
  have c: "fs_contents ?s = (fs_contents s)(path \<mapsto> b @ c)"
    by (simp add: fs_contents_def map_of_alist_update)
  then have "fs_contents ?s path = Some (b @ c)" by simp
  note IH = Cons.IH [OF this, of "acc + int (length c)"]
  have same: "fs_contents s = (fs_contents s)(path \<mapsto> b)" using Cons.prems by auto
  show ?case
  proof (cases "write_fails s path")
    case True
    then have refused: "wp (write_chunks path (c # cs) end_exc acc) Q E s = E (Py OSError) s" for Q E
      using Cons.prems by (simp add: wp_seq wp_def [of "fs_append path c"] fs_append_def)
    have "\<exists>b'. fs_contents s = (fs_contents s)(path \<mapsto> b')" using same by (rule exI)
    then show ?thesis unfolding refused using is_py_simps(1) by blast
  next
    case False
    then have step: "wp (write_chunks path (c # cs) end_exc acc) Q E s
        = wp (write_chunks path cs end_exc (acc + int (length c))) Q E ?s" for Q E
      using Cons.prems by (simp add: wp_seq wp_def [of "fs_append path c"] fs_append_def)
    have len: "acc + int (length c) + int (length (concat cs)) = acc + int (length (concat (c # cs)))"
      and app: "(b @ c) @ concat cs = b @ concat (c # cs)" by simp_all
    show ?thesis using IH unfolding step c fun_upd_upd len app .
  qed
qed

lemma local_put_wp:
  "wp (local_put key data)
    (\<lambda>n t. snd data = None \<and> n = int (length (concat (fst data))) \<and>
       fs_contents t = (fs_contents s)(key \<mapsto> concat (fst data)))
    (\<lambda>e t. (snd data = Some e \<or> is_py e) \<and>
       (\<exists>tmp. fs_contents t = fs_contents s \<or>
          fs_contents s tmp = None \<and> fs_contents t = (fs_contents s)(tmp := fs_contents t tmp))) s"
proof (cases "mkstemp s")
  case (Pair r s1)
  show ?thesis
  proof (cases r)
    case (Inl e)
    with Pair mkstemp_Inl [of s e s1] show ?thesis
      by (auto simp: local_put_def wp_bind wp_def [of mkstemp])
  next
    case (Inr tmp)
    with Pair have "mkstemp s = (Inr tmp, s1)" by simp
    from mkstemp_Inr [OF this] have fresh: "fs_contents s tmp = None"
      and s1: "fs_contents s1 = (fs_contents s)(tmp \<mapsto> [])" by auto
    then have "fs_contents s1 tmp = Some []" by simp
    note loop = write_chunks_wp [OF this, of "fst data" "snd data" 0]
    let ?Q = "\<lambda>n t. snd data = None \<and> n = int (length (concat (fst data))) \<and>
       fs_contents t = (fs_contents s)(key \<mapsto> concat (fst data))"
    let ?E = "\<lambda>e t. (snd data = Some e \<or> is_py e) \<and>
       (\<exists>tmp. fs_contents t = fs_contents s \<or>
          fs_contents s tmp = None \<and> fs_contents t = (fs_contents s)(tmp := fs_contents t tmp))"
    let ?h = "\<lambda>e. seq (try_except (fs_unlink tmp) (\<lambda>_. ret ())) (raise e)"
    have handler: "wp (?h e) ?Q ?E t"
      if "snd data = Some e \<or> is_py e" and "fs_contents t = (fs_contents s)(tmp \<mapsto> b')" for e t b'
      using that fresh
      by (auto simp: wp_simps wp_def [of "fs_unlink tmp"] fs_unlink_def fs_contents_def map_of_alist_delete
          intro!: exI [of _ tmp])
    have rename: "wp (seq (fs_replace tmp key) (ret n)) ?Q (\<lambda>e. wp (?h e) ?Q ?E) t"
      if "snd data = None" "n = int (length (concat (fst data)))"
        and t: "fs_contents t = (fs_contents s)(tmp \<mapsto> concat (fst data))" for n t
    proof (cases "write_fails t key")
      case True
      then show ?thesis
        using t handler [OF _ t, of "Py OSError"]
        by (simp add: wp_seq wp_def [of "fs_replace tmp key"] fs_replace_def)
    next
      case False
      have "(fs_contents t)(tmp := None) = fs_contents s" using t fresh by auto
      with False that show ?thesis
        by (auto simp: wp_seq wp_ret wp_def [of "fs_replace tmp key"] fs_replace_def fs_contents_def
            map_of_alist_update map_of_alist_delete)
    qed
    have body: "wp (write_chunks tmp (fst data) (snd data) 0)
        (\<lambda>n. wp (seq (fs_replace tmp key) (ret n)) ?Q (\<lambda>e. wp (?h e) ?Q ?E)) (\<lambda>e. wp (?h e) ?Q ?E) s1"
      using loop by (rule wp_mono) (use rename handler s1 in auto)
    have "wp (local_put key data) ?Q ?E s = wp (write_chunks tmp (fst data) (snd data) 0)
        (\<lambda>n. wp (seq (fs_replace tmp key) (ret n)) ?Q (\<lambda>e. wp (?h e) ?Q ?E)) (\<lambda>e. wp (?h e) ?Q ?E) s1"
      using Pair Inr by (simp add: local_put_def wp_bind wp_try wp_def [of mkstemp])
    with body show ?thesis by blast
  qed
qed

section \<open>The filesystem backend keeps the contract\<close>

lemma concat_chunks_of: "0 < n \<Longrightarrow> concat (chunks_of n xs) = xs"
  by (induction n xs rule: chunks_of.induct) (subst chunks_of.simps, simp)

lemma chunks_of_nonempty: "[] \<notin> set (chunks_of n xs)"
  by (induction n xs rule: chunks_of.induct) (subst chunks_of.simps, auto)

lemma CHUNK_SIZE_pos: "0 < CHUNK_SIZE"
  by (simp add: CHUNK_SIZE_def)

lemma local_delete_cases:
  "local_delete k s = (if fs_contents s k = None then (Inr (), s)
     else if unlink_fails s k then (Inl (Py OSError), s)
     else (Inr (), s\<lparr>objs := AList.delete k (objs s)\<rparr>))"
  by (simp add: local_delete_def try_except_def fs_unlink_def ret_def raise_def)

lemma fs_contents_None: "fs_contents s k = None \<longleftrightarrow> k \<notin> fst ` set (objs s)"
  by (simp add: fs_contents_def map_of_eq_None_iff)

lemma local_put_Inr:
  assumes "local_put k d s = (Inr n, s')"
  shows "snd d = None \<and> n = int (length (concat (fst d))) \<and> fs_contents s' = (fs_contents s)(k \<mapsto> concat (fst d))"
  by (rule wp_returns [OF assms local_put_wp])

text \<open>A failed \<open>put\<close> leaves every object as it was; at most the staging file stays behind.\<close>

lemma local_put_Inl:
  assumes "local_put k d s = (Inl e, s')"
  shows "(snd d = Some e \<or> is_py e) \<and> (\<exists>tmp. fs_contents s' = fs_contents s \<or>
     fs_contents s tmp = None \<and> fs_contents s' = (fs_contents s)(tmp := fs_contents s' tmp))"
  by (rule wp_raises [OF assms local_put_wp])

lemma local_put_keeps:
  assumes "local_put k d s = (Inl e, s')" and "fs_contents s k' = Some b"
  shows "fs_contents s' k' = Some b"
proof -
  from local_put_Inl [OF assms(1)] obtain tmp where
    "fs_contents s' = fs_contents s \<or>
     fs_contents s tmp = None \<and> fs_contents s' = (fs_contents s)(tmp := fs_contents s' tmp)" by blast
  then show ?thesis
  proof
    assume t: "fs_contents s tmp = None \<and> fs_contents s' = (fs_contents s)(tmp := fs_contents s' tmp)"
    with assms(2) have "k' \<noteq> tmp" by auto
    moreover from t have "fs_contents s' k' = ((fs_contents s)(tmp := fs_contents s' tmp)) k'" by simp
    ultimately show ?thesis using assms(2) by simp
  qed (simp add: assms(2))
qed

interpretation local_store: object_store local_backend fs_contents
proof unfold_locales
  fix k d s n s'
  assume "put local_backend k d s = (Inr n, s')"
  then show "snd d = None \<and> n = int (length (concat (fst d))) \<and>
      fs_contents s' = (fs_contents s)(k \<mapsto> concat (fst d))"
    using local_put_Inr by simp
next
  fix k d s e s'
  assume "put local_backend k d s = (Inl e, s')"
  then show "snd d = Some e \<or> is_py e" using local_put_Inl by simp
next
  fix k d s e s' k' b
  assume "put local_backend k d s = (Inl e, s')" and "fs_contents s k' = Some b"
  then show "fs_contents s' k' = Some b" using local_put_keeps by simp
next
  fix k s u s'
  assume "delete_object local_backend k s = (Inr u, s')"
  then show "fs_contents s' = (fs_contents s)(k := None)"
    by (auto simp: local_delete_cases fs_contents_def map_of_alist_delete split: if_splits)
next
  fix k s e s'
  assume "delete_object local_backend k s = (Inl e, s')"
  then show "is_py e \<and> fs_contents s' = fs_contents s"
    by (auto simp: local_delete_cases split: if_splits)
next
  fix s k b
  assume "fs_contents s k = Some b"
  then show "snd (get_stream local_backend k s) = None \<and> concat (fst (get_stream local_backend k s)) = b \<and>
      [] \<notin> set (fst (get_stream local_backend k s))"
    by (simp add: local_get_stream_def concat_chunks_of CHUNK_SIZE_pos chunks_of_nonempty)
next
  fix k s
  show "object_exists local_backend k s \<longleftrightarrow> fs_contents s k \<noteq> None"
    by (simp add: local_exists_def)
next
  fix p s
  have "k \<in> fst ` set (objs s) \<longleftrightarrow> fs_contents s k \<noteq> None" for k
    using fs_contents_None [of s k] by metis
  then show "set (list_keys local_backend p s) = {k. fs_contents s k \<noteq> None \<and> prefix p k}"
    by (auto simp: local_list_keys_def)
qed

end
