(* ===== verification/Invariants.thy ===== *)
theory Invariants
  imports Repositories Storage
begin

text \<open>
  The invariant of the database and what each statement of the repositories does to it.

  \<open>db_inv exact cfg seq d\<close>: keys and unique columns are unique, references point to rooms, and every room
  row is consistent with the tables (\<open>room_ok\<close>): the member count lies between 0 and the capacity;
  while the room is ACTIVE or EXPIRED its two counters are at least the bytes and the number of its
  CONFIRMED files and lie within the quota; once it is DELETED nothing that belongs to it is left.
  With \<open>exact\<close> the counters are equal to them; every operation keeps that but the abort of an upload
  that was already confirmed, which removes the row and leaves the counters.
\<close>

section \<open>The invariant\<close>

definition wiped :: "int \<Rightarrow> database \<Rightarrow> bool" where
  "wiped i d \<longleftrightarrow> i \<notin> f_room_id ` set (files d) \<and> i \<notin> m_room_id ` set (messages d) \<and>
     i \<notin> s_room_id ` set (sessions d)"

definition live :: "room \<Rightarrow> bool" where
  "live r \<longleftrightarrow> r_status r = ACTIVE \<or> r_status r = EXPIRED"

definition counters_ok :: "bool \<Rightarrow> database \<Rightarrow> room \<Rightarrow> bool" where
  "counters_ok exact d r \<longleftrightarrow> used_bytes (r_id r) d \<le> r_storage_used_bytes r \<and> used_files (r_id r) d \<le> r_file_count r \<and>
     (exact \<longrightarrow> r_storage_used_bytes r = used_bytes (r_id r) d \<and> r_file_count r = used_files (r_id r) d)"

definition room_ok :: "bool \<Rightarrow> settings \<Rightarrow> database \<Rightarrow> room \<Rightarrow> bool" where
  "room_ok exact cfg d r \<longleftrightarrow>
     0 \<le> r_user_count r \<and> r_user_count r \<le> r_max_users r \<and>
     (live r \<longrightarrow> counters_ok exact d r \<and> r_storage_used_bytes r \<le> max_room_storage_bytes cfg \<and>
        r_file_count r \<le> max_files_per_room cfg) \<and>
     (r_status r = DELETED \<longrightarrow> wiped (r_id r) d)"

definition uniques_ok :: "database \<Rightarrow> bool" where
  "uniques_ok d \<longleftrightarrow> distinct (map r_room_code (rooms d)) \<and> distinct (map r_access_token_hash (rooms d)) \<and>
     distinct (map r_owner_token_hash (rooms d)) \<and> distinct (map s_session_token_hash (sessions d)) \<and>
     distinct (map f_storage_key (files d))"

definition refs_ok :: "database \<Rightarrow> bool" where
  "refs_ok d \<longleftrightarrow> f_room_id ` set (files d) \<subseteq> r_id ` set (rooms d) \<and>
     s_room_id ` set (sessions d) \<subseteq> r_id ` set (rooms d) \<and>
     m_room_id ` set (messages d) \<subseteq> r_id ` set (rooms d) \<and>
     (\<forall>f \<in> set (files d). 0 \<le> f_size_bytes f)"

definition tables_ok :: "sequences \<Rightarrow> database \<Rightarrow> bool" where
  "tables_ok sq d \<longleftrightarrow> keys_ok r_id (room_seq sq) (rooms d) \<and> keys_ok s_id (session_seq sq) (sessions d) \<and>
     keys_ok f_id (file_seq sq) (files d) \<and> keys_ok m_id (message_seq sq) (messages d) \<and>
     uniques_ok d \<and> refs_ok d"

definition db_inv :: "bool \<Rightarrow> settings \<Rightarrow> sequences \<Rightarrow> database \<Rightarrow> bool" where
  "db_inv exact cfg sq d \<longleftrightarrow> tables_ok sq d \<and> (\<forall>r \<in> set (rooms d). room_ok exact cfg d r)"

definition good :: "bool \<Rightarrow> settings \<Rightarrow> ('st, 'z) world_scheme \<Rightarrow> bool" where
  "good exact cfg w \<longleftrightarrow> db_inv exact cfg (w_seq w) (w_db w)"

definition saved_good :: "bool \<Rightarrow> settings \<Rightarrow> ('st, 'z) world_scheme \<Rightarrow> bool" where
  "saved_good exact cfg w \<longleftrightarrow> db_inv exact cfg (w_seq w) (w_saved w)"

text \<open>Settings under which a fresh room is consistent.\<close>

definition cfg_ok :: "settings \<Rightarrow> bool" where
  "cfg_ok cfg \<longleftrightarrow> 0 \<le> max_users_per_room cfg \<and> 0 \<le> max_room_storage_bytes cfg \<and> 0 \<le> max_files_per_room cfg"

lemma cfg_ok_default: "cfg_ok default_settings"
  by (simp add: cfg_ok_def default_settings_def)

lemma db_inv_empty: "db_inv exact cfg sq empty_db"
  by (simp add: db_inv_def tables_ok_def uniques_ok_def refs_ok_def empty_db_def)

section \<open>Rows by key\<close>

lemma db_invD:
  assumes "db_inv exact cfg sq d"
  shows "distinct (map r_id (rooms d))" and "distinct (map s_id (sessions d))"
    and "distinct (map f_id (files d))" and "distinct (map m_id (messages d))"
    and "r \<in> set (rooms d) \<Longrightarrow> room_ok exact cfg d r"
    and "f \<in> set (files d) \<Longrightarrow> 0 \<le> f_size_bytes f"
  using assms by (auto simp: db_inv_def tables_ok_def keys_ok_def refs_ok_def)

lemma room_by_id:
  assumes "db_inv exact cfg sq d" and "r \<in> set (rooms d)"
  shows "t \<in> set (rooms d) \<and> r_id t = r_id r \<longleftrightarrow> t = r"
  using distinct_key_unique [OF db_invD(1) [OF assms(1)]] assms(2) by auto

text \<open>The lookups by a unique column return at most one row, so none of them raises.\<close>

lemma distinct_key_at_most_one:
  assumes "distinct (map key rows)"
  shows "sel (\<lambda>r. key r = k) rows = [] \<or> (\<exists>r \<in> set rows. key r = k \<and> sel (\<lambda>r. key r = k) rows = [r])"
proof (cases "k \<in> key ` set rows")
  case False
  then show ?thesis by (simp add: sel_key_empty)
next
  case True
  then obtain r where "r \<in> set rows" "k = key r" by auto
  with assms show ?thesis by (auto simp: sel_key)
qed

definition single_or_none :: "('r \<Rightarrow> bool) \<Rightarrow> 'r list \<Rightarrow> 'r option" where
  "single_or_none P rows = (case sel P rows of [] \<Rightarrow> None | r # _ \<Rightarrow> Some r)"

lemma scalar_distinct:
  assumes "distinct (map key rows)"
  shows "scalar_one_or_none (sel (\<lambda>r. key r = k) rows) = Inr (single_or_none (\<lambda>r. key r = k) rows)"
  using distinct_key_at_most_one [OF assms, of k] by (auto simp: single_or_none_def)

lemma sel_empty: "sel P rows = [] \<longleftrightarrow> (\<forall>r \<in> set rows. \<not> P r)"
  by (simp add: sel_def filter_empty_conv)

lemma single_Some:
  "single_or_none P rows = Some r \<Longrightarrow> r \<in> set rows \<and> P r"
proof -
  assume "single_or_none P rows = Some r"
  then obtain rs where "sel P rows = r # rs" by (auto simp: single_or_none_def split: list.splits)
  then have "r \<in> set (sel P rows)" by simp
  then show ?thesis by simp
qed

lemma single_None: "single_or_none P rows = None \<longleftrightarrow> (\<forall>r \<in> set rows. \<not> P r)"
  using sel_empty [of P rows] by (cases "sel P rows") (simp_all add: single_or_none_def)

lemma single_key:
  "distinct (map key rows) \<Longrightarrow> r \<in> set rows \<Longrightarrow> single_or_none (\<lambda>t. key t = key r) rows = Some r"
  by (simp add: single_or_none_def sel_key)

section \<open>Counters under changes of the file table\<close>

lemma used_upd_file:
  assumes "distinct (map f_id (files d))" and "f \<in> set (files d)"
  shows "used_bytes i (upd_files (\<lambda>t. f_id t = f_id f) g d)
      = used_bytes i d - confirmed_bytes i f + confirmed_bytes i (g f)"
    and "used_files i (upd_files (\<lambda>t. f_id t = f_id f) g d)
      = used_files i d - confirmed_one i f + confirmed_one i (g f)"
  using assms by (simp_all add: used_bytes_def used_files_def sum_upd_key)

lemma used_del_file:
  assumes "distinct (map f_id (files d))" and "f \<in> set (files d)"
  shows "used_bytes i (del_files (\<lambda>t. f_id t = f_id f) d) = used_bytes i d - confirmed_bytes i f"
    and "used_files i (del_files (\<lambda>t. f_id t = f_id f) d) = used_files i d - confirmed_one i f"
  using assms by (simp_all add: used_bytes_def used_files_def sum_del_key)

lemma used_files_cong: "files d = files d' \<Longrightarrow> used_bytes i d = used_bytes i d' \<and> used_files i d = used_files i d'"
  by (simp add: used_bytes_def used_files_def)

lemma used_nonneg:
  assumes "\<And>f. f \<in> set (files d) \<Longrightarrow> 0 \<le> f_size_bytes f"
  shows "0 \<le> used_bytes i d" and "0 \<le> used_files i d"
  unfolding used_bytes_def used_files_def
  by (rule sum_list_map_nonneg; simp add: confirmed_bytes_def confirmed_one_def assms)+

lemma used_ge:
  assumes "\<And>f. f \<in> set (files d) \<Longrightarrow> 0 \<le> f_size_bytes f" and "f \<in> set (files d)"
  shows "confirmed_bytes i f \<le> used_bytes i d" and "confirmed_one i f \<le> used_files i d"
  unfolding used_bytes_def used_files_def
  by (rule sum_list_map_ge; simp add: confirmed_bytes_def confirmed_one_def assms)+

section \<open>Statements that keep the invariant\<close>

lemma room_ok_transfer:
  assumes "room_ok exact cfg d r" and "used_bytes (r_id r) d' = used_bytes (r_id r) d"
    and "used_files (r_id r) d' = used_files (r_id r) d" and "r_status r = DELETED \<Longrightarrow> wiped (r_id r) d \<Longrightarrow> wiped (r_id r) d'"
  shows "room_ok exact cfg d' r"
  using assms by (auto simp: room_ok_def counters_ok_def)

lemma room_ok_frame:
  assumes "files d' = files d" and "set (messages d') \<subseteq> set (messages d)"
    and "set (sessions d') \<subseteq> set (sessions d)" and "room_ok exact cfg d r"
  shows "room_ok exact cfg d' r"
  using assms used_files_cong [of d' d]
  by (auto simp: room_ok_def counters_ok_def wiped_def)

lemma db_inv_upd_rooms:
  assumes inv: "db_inv exact cfg sq d"
    and key: "\<And>r. r_id (f r) = r_id r \<and> r_room_code (f r) = r_room_code r \<and>
       r_access_token_hash (f r) = r_access_token_hash r \<and> r_owner_token_hash (f r) = r_owner_token_hash r"
    and ok: "\<And>r. r \<in> set (rooms d) \<Longrightarrow> P r \<Longrightarrow> room_ok exact cfg d r \<Longrightarrow> room_ok exact cfg d (f r)"
  shows "db_inv exact cfg sq (upd_rooms P f d)"
proof -
  have "map r_id (upd P f (rooms d)) = map r_id (rooms d)" by (simp add: map_upd_key key)
  then have ids: "r_id ` set (upd P f (rooms d)) = r_id ` set (rooms d)" by (metis list.set_map)
  have "room_ok exact cfg (upd_rooms P f d) r" if "r \<in> set (upd P f (rooms d))" for r
  proof -
    have "room_ok exact cfg d r" using that inv ok by (auto simp: set_upd db_inv_def)
    then show ?thesis by (rule room_ok_frame [rotated -1]) simp_all
  qed
  with inv ids show ?thesis
    by (simp add: db_inv_def tables_ok_def uniques_ok_def refs_ok_def keys_ok_upd map_upd_key key)
qed

lemma db_inv_seq_room: "db_inv exact cfg sq d \<Longrightarrow> db_inv exact cfg (sq\<lparr>room_seq := room_seq sq + 1\<rparr>) d"
  and db_inv_seq_session: "db_inv exact cfg sq d \<Longrightarrow> db_inv exact cfg (sq\<lparr>session_seq := session_seq sq + 1\<rparr>) d"
  and db_inv_seq_file: "db_inv exact cfg sq d \<Longrightarrow> db_inv exact cfg (sq\<lparr>file_seq := file_seq sq + 1\<rparr>) d"
  and db_inv_seq_message: "db_inv exact cfg sq d \<Longrightarrow> db_inv exact cfg (sq\<lparr>message_seq := message_seq sq + 1\<rparr>) d"
  and db_inv_seq_audit: "db_inv exact cfg sq d \<Longrightarrow> db_inv exact cfg (sq\<lparr>audit_seq := audit_seq sq + 1\<rparr>) d"
  by (simp_all add: db_inv_def tables_ok_def keys_ok_Suc)

lemmas db_inv_seq = db_inv_seq_room db_inv_seq_session db_inv_seq_file db_inv_seq_message db_inv_seq_audit

lemma db_inv_audit: "db_inv exact cfg sq (d\<lparr>audit_events := as\<rparr>) \<longleftrightarrow> db_inv exact cfg sq d"
  by (auto simp: db_inv_def tables_ok_def uniques_ok_def refs_ok_def room_ok_def counters_ok_def wiped_def
      used_bytes_def used_files_def)

section \<open>Guarded updates of rooms\<close>

lemma wp_guarded_update [wp_simps]:
  "wp (guarded_update P f) Q E w = Q (\<exists>r \<in> set (rooms (w_db w)). P r)
     (w\<lparr>w_db := upd_rooms P (\<lambda>r. (f r)\<lparr>r_updated_at := w_now w\<rparr>) (w_db w)\<rparr>)"
  by (simp add: guarded_update_def wp_simps)

definition same_keys :: "(room \<Rightarrow> room) \<Rightarrow> bool" where
  "same_keys f \<longleftrightarrow> (\<forall>r. r_id (f r) = r_id r \<and> r_room_code (f r) = r_room_code r \<and>
     r_access_token_hash (f r) = r_access_token_hash r \<and> r_owner_token_hash (f r) = r_owner_token_hash r)"

lemma room_ok_updated_at [simp]: "room_ok exact cfg d (r\<lparr>r_updated_at := t\<rparr>) = room_ok exact cfg d r"
  by (simp add: room_ok_def live_def counters_ok_def)

lemma db_inv_guarded:
  assumes "db_inv exact cfg sq d" and "same_keys f"
    and "\<And>r. r \<in> set (rooms d) \<Longrightarrow> P r \<Longrightarrow> room_ok exact cfg d r \<Longrightarrow> room_ok exact cfg d (f r)"
  shows "db_inv exact cfg sq (upd_rooms P (\<lambda>r. (f r)\<lparr>r_updated_at := t\<rparr>) d)"
  using assms by (intro db_inv_upd_rooms) (simp_all add: same_keys_def)

lemma good_db [simp]: "good exact cfg (w\<lparr>w_db := d\<rparr>) = db_inv exact cfg (w_seq w) d"
  by (simp add: good_def)

lemma good_store [simp]: "good exact cfg (w\<lparr>w_store := st\<rparr>) = good exact cfg w"
  by (simp add: good_def)

lemma keeps_good_guarded:
  assumes "same_keys f" and "\<And>r d. P r \<Longrightarrow> room_ok exact cfg d r \<Longrightarrow> room_ok exact cfg d (f r)"
  shows "keeps (good exact cfg) (guarded_update P f)"
  using assms by (auto simp: keeps_iff_wp wp_simps good_def intro: db_inv_guarded)

lemma keeps_good_increment [intro]: "keeps (good exact cfg) (increment_user_count_atomic i)"
  unfolding increment_user_count_atomic_def
  by (rule keeps_good_guarded) (auto simp: same_keys_def room_ok_def live_def counters_ok_def)

lemma keeps_good_decrement [intro]: "keeps (good exact cfg) (decrement_user_count i)"
  unfolding decrement_user_count_def
  by (intro keeps_bind keeps_good_guarded keeps_ret)
    (auto simp: same_keys_def room_ok_def live_def counters_ok_def)

lemma keeps_good_mark_expired [intro]: "keeps (good exact cfg) (mark_room_expired i)"
  unfolding mark_room_expired_def
  by (rule keeps_good_guarded) (auto simp: same_keys_def room_ok_def live_def counters_ok_def)

lemma keeps_good_mark_deleting [intro]: "keeps (good exact cfg) (mark_room_deleting i)"
  unfolding mark_room_deleting_def
  by (rule keeps_good_guarded) (auto simp: same_keys_def room_ok_def live_def counters_ok_def)

section \<open>Changes of the file table\<close>

lemma db_inv_files:
  assumes inv: "db_inv exact cfg sq d" and "keys_ok f_id (file_seq sq) fs" and "distinct (map f_storage_key fs)"
    and sub: "f_room_id ` set fs \<subseteq> f_room_id ` set (files d)" and "\<And>f. f \<in> set fs \<Longrightarrow> 0 \<le> f_size_bytes f"
    and used: "\<And>r. r \<in> set (rooms d) \<Longrightarrow> live r \<Longrightarrow> used_bytes (r_id r) (d\<lparr>files := fs\<rparr>) = used_bytes (r_id r) d \<and>
       used_files (r_id r) (d\<lparr>files := fs\<rparr>) = used_files (r_id r) d"
  shows "db_inv exact cfg sq (d\<lparr>files := fs\<rparr>)"
proof -
  have "room_ok exact cfg (d\<lparr>files := fs\<rparr>) r" if "r \<in> set (rooms d)" for r
  proof -
    have "room_ok exact cfg d r" using inv that by (simp add: db_inv_def)
    then show ?thesis using used [OF that] sub by (auto simp: room_ok_def counters_ok_def wiped_def)
  qed
  moreover have "f_room_id ` set fs \<subseteq> r_id ` set (rooms d)"
    using sub inv by (auto simp: db_inv_def tables_ok_def refs_ok_def)
  ultimately show ?thesis
    using assms by (simp add: db_inv_def tables_ok_def uniques_ok_def refs_ok_def)
qed

definition file_frame :: "(file_rec \<Rightarrow> file_rec) \<Rightarrow> bool" where
  "file_frame g \<longleftrightarrow> (\<forall>f. f_id (g f) = f_id f \<and> f_room_id (g f) = f_room_id f \<and> f_storage_key (g f) = f_storage_key f)"

lemma file_frame_updated_at: "file_frame g \<Longrightarrow> file_frame (\<lambda>r. (g r)\<lparr>f_updated_at := t\<rparr>)"
  by (simp add: file_frame_def)

lemma confirmed_updated_at [simp]:
  "confirmed_bytes i (f\<lparr>f_updated_at := t\<rparr>) = confirmed_bytes i f"
  "confirmed_one i (f\<lparr>f_updated_at := t\<rparr>) = confirmed_one i f"
  by (simp_all add: confirmed_bytes_def confirmed_one_def)

lemma room_ids_upd: "file_frame g \<Longrightarrow> f_room_id ` set (upd P g fs) = f_room_id ` set fs"
  using map_upd_key [of P f_room_id g fs] by (metis file_frame_def list.set_map)

lemma db_inv_upd_files:
  assumes inv: "db_inv exact cfg sq d" and g: "file_frame g"
    and "\<And>f. f \<in> set (files d) \<Longrightarrow> P f \<Longrightarrow> 0 \<le> f_size_bytes (g f) \<and>
       (\<forall>i. confirmed_bytes i (g f) = confirmed_bytes i f \<and> confirmed_one i (g f) = confirmed_one i f)"
  shows "db_inv exact cfg sq (upd_files P g d)"
  unfolding upd_files_def
proof (rule db_inv_files [OF inv])
  have "keys_ok f_id (file_seq sq) (files d)" and "distinct (map f_storage_key (files d))"
    using inv by (simp_all add: db_inv_def tables_ok_def uniques_ok_def)
  with g show "keys_ok f_id (file_seq sq) (upd P g (files d))" and "distinct (map f_storage_key (upd P g (files d)))"
    by (simp_all add: keys_ok_upd map_upd_key file_frame_def)
  show "f_room_id ` set (upd P g (files d)) \<subseteq> f_room_id ` set (files d)" by (simp add: room_ids_upd g)
  show "0 \<le> f_size_bytes f" if "f \<in> set (upd P g (files d))" for f
    using that assms(3) db_invD(6) [OF inv] by (auto simp: set_upd)
  show "used_bytes (r_id r) (d\<lparr>files := upd P g (files d)\<rparr>) = used_bytes (r_id r) d \<and>
      used_files (r_id r) (d\<lparr>files := upd P g (files d)\<rparr>) = used_files (r_id r) d" for r
    using assms(3) by (simp add: used_bytes_def used_files_def sum_upd_same)
qed

lemma db_inv_del_files:
  assumes inv: "db_inv exact cfg sq d"
    and no: "\<And>f r. f \<in> set (files d) \<Longrightarrow> P f \<Longrightarrow> f_status f = CONFIRMED \<Longrightarrow> r \<in> set (rooms d) \<Longrightarrow> r_id r = f_room_id f \<Longrightarrow> \<not> live r"
  shows "db_inv exact cfg sq (del_files P d)"
  unfolding del_files_def
proof (rule db_inv_files [OF inv])
  show "keys_ok f_id (file_seq sq) (del P (files d))" and "distinct (map f_storage_key (del P (files d)))"
    using inv by (simp_all add: db_inv_def tables_ok_def uniques_ok_def keys_ok_del distinct_map_del)
  show "f_room_id ` set (del P (files d)) \<subseteq> f_room_id ` set (files d)" by auto
  show "0 \<le> f_size_bytes f" if "f \<in> set (del P (files d))" for f
    using that db_invD(6) [OF inv] by simp
  fix r assume r: "r \<in> set (rooms d)" "live r"
  have "confirmed_bytes (r_id r) f = 0 \<and> confirmed_one (r_id r) f = 0" if "f \<in> set (files d)" "P f" for f
    using no [OF that _ r(1)] r(2) by (auto simp: confirmed_bytes_def confirmed_one_def)
  then show "used_bytes (r_id r) (d\<lparr>files := del P (files d)\<rparr>) = used_bytes (r_id r) d \<and>
      used_files (r_id r) (d\<lparr>files := del P (files d)\<rparr>) = used_files (r_id r) d"
    by (simp add: used_bytes_def used_files_def sum_del_zero)
qed

text \<open>One file changes and the counters of its room move by the same amount: confirming an upload,
  deleting a file.\<close>

lemma db_inv_recount:
  assumes inv: "db_inv exact cfg sq d" and f: "f \<in> set (files d)" and r: "r \<in> set (rooms d)" "r_id r = f_room_id f"
    and g: "file_frame g" "0 \<le> f_size_bytes (g f)"
    and h: "same_keys h" "r_status (h r) = r_status r" "r_user_count (h r) = r_user_count r" "r_max_users (h r) = r_max_users r"
    and P: "\<And>t. t \<in> set (rooms d) \<Longrightarrow> P t \<longleftrightarrow> t = r"
    and bytes: "r_storage_used_bytes (h r) = r_storage_used_bytes r - confirmed_bytes (r_id r) f + confirmed_bytes (r_id r) (g f)"
    and cnt: "r_file_count (h r) = r_file_count r - confirmed_one (r_id r) f + confirmed_one (r_id r) (g f)"
    and lim: "live r \<Longrightarrow> r_storage_used_bytes (h r) \<le> max_room_storage_bytes cfg \<and> r_file_count (h r) \<le> max_files_per_room cfg"
  shows "db_inv exact cfg sq (upd_files (\<lambda>t. f_id t = f_id f) g (upd_rooms P h d))"
proof -
  let ?d = "upd_files (\<lambda>t. f_id t = f_id f) g (upd_rooms P h d)"
  note dist = db_invD(3) [OF inv]
  have fr: "f_room_id ` set (files ?d) = f_room_id ` set (files d)" by (simp add: room_ids_upd g(1))
  have used: "used_bytes i ?d = used_bytes i d - confirmed_bytes i f + confirmed_bytes i (g f)"
    "used_files i ?d = used_files i d - confirmed_one i f + confirmed_one i (g f)" for i
    using used_upd_file [where d = "upd_rooms P h d" and f = f and g = g and i = i]
      used_files_cong [where d = "upd_rooms P h d" and d' = d and i = i] dist f by simp_all
  have other: "confirmed_bytes i f = 0 \<and> confirmed_bytes i (g f) = 0 \<and> confirmed_one i f = 0 \<and> confirmed_one i (g f) = 0"
    if "i \<noteq> r_id r" for i
    using that r(2) g(1) by (simp add: confirmed_bytes_def confirmed_one_def file_frame_def)
  have rok: "room_ok exact cfg d r" using inv r(1) by (simp add: db_inv_def)
  have "room_ok exact cfg ?d t" if "t \<in> set (rooms ?d)" for t
  proof -
    from that obtain t0 where t0: "t0 \<in> set (rooms d)" "t = (if P t0 then h t0 else t0)"
      by (auto simp: set_upd)
    show ?thesis
    proof (cases "t0 = r")
      case True
      then have t: "t = h r" using t0 P by simp
      have "r_id (h r) = r_id r" using h(1) by (simp add: same_keys_def)
      moreover have "r_status r \<noteq> DELETED" using rok f r(2) by (auto simp: room_ok_def wiped_def)
      ultimately show ?thesis
        using rok h lim by (simp add: t room_ok_def counters_ok_def live_def used bytes cnt)
    next
      case False
      then have t: "t = t0" using t0 P by simp
      have "r_id t0 \<noteq> r_id r" using False t0(1) r(1) room_by_id [OF inv r(1)] by blast
      moreover have "room_ok exact cfg d t0" using inv t0(1) by (simp add: db_inv_def)
      ultimately show ?thesis
        using other [of "r_id t0"] fr by (auto simp: t room_ok_def counters_ok_def used wiped_def)
    qed
  qed
  moreover have "tables_ok (sq) ?d"
  proof -
    have ids: "r_id ` set (upd P h (rooms d)) = r_id ` set (rooms d)"
      using map_upd_key [of P r_id h "rooms d"] h(1) by (metis list.set_map same_keys_def)
    have "0 \<le> f_size_bytes t" if "t \<in> set (files ?d)" for t
    proof -
      have "x = f" if "x \<in> set (files d)" "f_id x = f_id f" for x
        using distinct_key_unique [OF dist that(1) f that(2)] .
      with \<open>t \<in> set (files ?d)\<close> g(2) db_invD(6) [OF inv] show ?thesis by (auto simp: set_upd)
    qed
    with inv ids fr g(1) h(1) show ?thesis
      by (simp add: db_inv_def tables_ok_def uniques_ok_def refs_ok_def keys_ok_upd map_upd_key
          file_frame_def same_keys_def)
  qed
  ultimately show ?thesis by (simp add: db_inv_def)
qed

section \<open>Inserting and deleting rows\<close>

lemma db_inv_insert_session:
  assumes inv: "db_inv exact cfg sq d" and row: "s_id s = session_seq sq"
    and room: "r \<in> set (rooms d)" "r_id r = s_room_id s" "r_status r \<noteq> DELETED"
    and fresh: "\<And>t. t \<in> set (sessions d) \<Longrightarrow> s_session_token_hash t \<noteq> s_session_token_hash s"
  shows "db_inv exact cfg (sq\<lparr>session_seq := session_seq sq + 1\<rparr>) (d\<lparr>sessions := sessions d @ [s]\<rparr>)"
proof -
  have "room_ok exact cfg (d\<lparr>sessions := sessions d @ [s]\<rparr>) t" if "t \<in> set (rooms d)" for t
  proof -
    have "room_ok exact cfg d t" using inv that by (simp add: db_inv_def)
    moreover have "r_status t = DELETED \<Longrightarrow> r_id t \<noteq> s_room_id s"
      using room that room_by_id [OF inv room(1), of t] by metis
    ultimately show ?thesis
      by - (rule room_ok_transfer [of exact cfg d], auto simp: wiped_def used_bytes_def used_files_def)
  qed
  moreover have "s_session_token_hash s \<notin> s_session_token_hash ` set (sessions d)" using fresh by (metis imageE)
  moreover have "s_room_id s \<in> r_id ` set (rooms d)" using room by (metis imageI)
  ultimately show ?thesis
    using inv row by (simp add: db_inv_def tables_ok_def uniques_ok_def refs_ok_def keys_ok_snoc)
qed

lemma db_inv_insert_message:
  assumes inv: "db_inv exact cfg sq d" and row: "m_id m = message_seq sq"
    and room: "r \<in> set (rooms d)" "r_id r = m_room_id m" "r_status r \<noteq> DELETED"
  shows "db_inv exact cfg (sq\<lparr>message_seq := message_seq sq + 1\<rparr>) (d\<lparr>messages := messages d @ [m]\<rparr>)"
proof -
  have "room_ok exact cfg (d\<lparr>messages := messages d @ [m]\<rparr>) t" if "t \<in> set (rooms d)" for t
  proof -
    have "room_ok exact cfg d t" using inv that by (simp add: db_inv_def)
    moreover have "r_status t = DELETED \<Longrightarrow> r_id t \<noteq> m_room_id m"
      using room that room_by_id [OF inv room(1), of t] by metis
    ultimately show ?thesis
      by - (rule room_ok_transfer [of exact cfg d], auto simp: wiped_def used_bytes_def used_files_def)
  qed
  moreover have "m_room_id m \<in> r_id ` set (rooms d)" using room by (metis imageI)
  ultimately show ?thesis
    using inv row by (simp add: db_inv_def tables_ok_def uniques_ok_def refs_ok_def keys_ok_snoc)
qed

lemma db_inv_insert_file:
  assumes inv: "db_inv exact cfg sq d" and row: "f_id f = file_seq sq" "f_status f = PENDING" "0 \<le> f_size_bytes f"
    and room: "r \<in> set (rooms d)" "r_id r = f_room_id f" "r_status r \<noteq> DELETED"
    and fresh: "\<And>g. g \<in> set (files d) \<Longrightarrow> f_storage_key g \<noteq> f_storage_key f"
  shows "db_inv exact cfg (sq\<lparr>file_seq := file_seq sq + 1\<rparr>) (d\<lparr>files := files d @ [f]\<rparr>)"
proof -
  have "room_ok exact cfg (d\<lparr>files := files d @ [f]\<rparr>) t" if "t \<in> set (rooms d)" for t
  proof -
    have "room_ok exact cfg d t" using inv that by (simp add: db_inv_def)
    moreover have "r_status t = DELETED \<Longrightarrow> r_id t \<noteq> f_room_id f"
      using room that room_by_id [OF inv room(1), of t] by metis
    ultimately show ?thesis
      by - (rule room_ok_transfer [of exact cfg d], auto simp: wiped_def used_bytes_def used_files_def confirmed_bytes_def confirmed_one_def row(2))
  qed
  moreover have "f_storage_key f \<notin> f_storage_key ` set (files d)" using fresh by (metis imageE)
  moreover have "f_room_id f \<in> r_id ` set (rooms d)" using room by (metis imageI)
  ultimately show ?thesis
    using inv row by (auto simp: db_inv_def tables_ok_def uniques_ok_def refs_ok_def keys_ok_snoc)
qed

lemma db_inv_insert_room:
  assumes inv: "db_inv exact cfg sq d" and row: "r_id r = room_seq sq" "r_status r = ACTIVE"
      "r_user_count r = 0" "0 \<le> r_max_users r" "r_storage_used_bytes r = 0" "r_file_count r = 0"
    and cfg: "cfg_ok cfg"
    and fresh: "room_unique r d"
  shows "db_inv exact cfg (sq\<lparr>room_seq := room_seq sq + 1\<rparr>) (d\<lparr>rooms := rooms d @ [r]\<rparr>)"
proof -
  have "f_room_id f \<noteq> r_id r" if "f \<in> set (files d)" for f
    using inv that row(1) by (force simp: db_inv_def tables_ok_def refs_ok_def keys_ok_def)
  then have "\<And>f. f \<in> set (files d) \<Longrightarrow> confirmed_bytes (r_id r) f = 0 \<and> confirmed_one (r_id r) f = 0"
    by (simp add: confirmed_bytes_def confirmed_one_def)
  then have "used_bytes (r_id r) d = 0 \<and> used_files (r_id r) d = 0"
    by (simp add: used_bytes_def used_files_def cong: map_cong)
  then have new: "room_ok exact cfg (d\<lparr>rooms := rooms d @ [r]\<rparr>) r"
    using row cfg by (simp add: room_ok_def counters_ok_def used_bytes_def used_files_def cfg_ok_def)
  have "room_ok exact cfg (d\<lparr>rooms := rooms d @ [r]\<rparr>) t" if "t \<in> set (rooms d)" for t
    using inv that by - (rule room_ok_transfer [of exact cfg d], simp_all add: db_inv_def wiped_def used_bytes_def used_files_def)
  with new inv row fresh show ?thesis
    by (auto simp: db_inv_def tables_ok_def uniques_ok_def refs_ok_def room_unique_def list_all_iff intro: keys_ok_snoc)
qed

lemma db_inv_delete_sessions:
  assumes inv: "db_inv exact cfg sq d"
  shows "db_inv exact cfg sq (delete_sessions P d)"
proof -
  let ?e = "d\<lparr>sessions := del P (sessions d)\<rparr>"
  have e: "db_inv exact cfg sq ?e"
  proof -
    have "room_ok exact cfg ?e r" if "r \<in> set (rooms d)" for r
      using inv that by - (rule room_ok_frame [of ?e d], auto simp: db_inv_def)
    with inv show ?thesis
      by (auto simp: db_inv_def tables_ok_def uniques_ok_def refs_ok_def keys_ok_del distinct_map_del)
  qed
  obtain H where H: "delete_sessions P d = (upd_files (\<lambda>f. H (f_uploaded_by f)) (\<lambda>f. f\<lparr>f_uploaded_by := None\<rparr>) ?e)
      \<lparr>messages := upd (\<lambda>m. H (m_sender_session_id m)) (\<lambda>m. m\<lparr>m_sender_session_id := None\<rparr>) (messages d)\<rparr>"
    by (simp add: delete_sessions_def Let_def upd_files_def)
  let ?u = "upd_files (\<lambda>f. H (f_uploaded_by f)) (\<lambda>f. f\<lparr>f_uploaded_by := None\<rparr>) ?e"
  let ?ms = "upd (\<lambda>m. H (m_sender_session_id m)) (\<lambda>m. m\<lparr>m_sender_session_id := None\<rparr>) (messages d)"
  have u: "db_inv exact cfg sq ?u"
  proof (rule db_inv_upd_files [OF e])
    show "file_frame (\<lambda>f. f\<lparr>f_uploaded_by := None\<rparr>)" by (simp add: file_frame_def)
    show "0 \<le> f_size_bytes (f\<lparr>f_uploaded_by := None\<rparr>) \<and>
        (\<forall>i. confirmed_bytes i (f\<lparr>f_uploaded_by := None\<rparr>) = confirmed_bytes i f \<and>
             confirmed_one i (f\<lparr>f_uploaded_by := None\<rparr>) = confirmed_one i f)" if "f \<in> set (files ?e)" for f
      using that db_invD(6) [OF inv] by (simp add: confirmed_bytes_def confirmed_one_def)
  qed
  have "map m_id ?ms = map m_id (messages d)" and "map m_room_id ?ms = map m_room_id (messages d)"
    by (simp_all add: map_upd_key)
  then have ms: "m_room_id ` set ?ms = m_room_id ` set (messages d)" and "m_id ` set ?ms = m_id ` set (messages d)"
    by (metis list.set_map)+
  moreover have "keys_ok m_id (message_seq sq) ?ms"
    using inv by (simp add: db_inv_def tables_ok_def keys_ok_upd)
  moreover have "room_ok exact cfg (?u\<lparr>messages := ?ms\<rparr>) r" if "r \<in> set (rooms d)" for r
    using u that ms
    by - (rule room_ok_transfer [of exact cfg ?u], simp_all add: db_inv_def wiped_def used_bytes_def used_files_def)
  ultimately show ?thesis
    using u unfolding H by (simp add: db_inv_def tables_ok_def uniques_ok_def refs_ok_def)
qed

lemma db_inv_del_messages:
  assumes inv: "db_inv exact cfg sq d"
  shows "db_inv exact cfg sq (d\<lparr>messages := del P (messages d)\<rparr>)"
proof -
  have "room_ok exact cfg (d\<lparr>messages := del P (messages d)\<rparr>) r" if "r \<in> set (rooms d)" for r
    using inv that by - (rule room_ok_frame [of _ d], simp_all add: db_inv_def Collect_mono)
  moreover have "m_room_id ` set (del P (messages d)) \<subseteq> r_id ` set (rooms d)"
    using inv by (auto simp: db_inv_def tables_ok_def refs_ok_def)
  ultimately show ?thesis
    using inv by (simp add: db_inv_def tables_ok_def uniques_ok_def refs_ok_def keys_ok_del)
qed

lemma db_inv_upd_sessions:
  assumes inv: "db_inv exact cfg sq d"
    and h: "\<And>s. s_id (h s) = s_id s \<and> s_room_id (h s) = s_room_id s \<and> s_session_token_hash (h s) = s_session_token_hash s"
  shows "db_inv exact cfg sq (upd_sessions P h d)"
proof -
  have "map s_room_id (upd P h (sessions d)) = map s_room_id (sessions d)" by (simp add: map_upd_key h)
  then have ids: "s_room_id ` set (upd P h (sessions d)) = s_room_id ` set (sessions d)"
    by (metis list.set_map)
  have "room_ok exact cfg (upd_sessions P h d) r" if "r \<in> set (rooms d)" for r
    using inv that ids
    by - (rule room_ok_transfer [of exact cfg d], simp_all add: db_inv_def wiped_def used_bytes_def used_files_def)
  with inv ids h show ?thesis
    by (simp add: db_inv_def tables_ok_def uniques_ok_def refs_ok_def keys_ok_upd map_upd_key)
qed

section \<open>Inserts as programs\<close>

definition open_room :: "int \<Rightarrow> database \<Rightarrow> bool" where
  "open_room i d \<longleftrightarrow> (\<exists>r \<in> set (rooms d). r_id r = i \<and> r_status r \<noteq> DELETED)"

lemma open_roomI: "r \<in> set (rooms d) \<Longrightarrow> r_id r = i \<Longrightarrow> r_status r \<noteq> DELETED \<Longrightarrow> open_room i d"
  by (auto simp: open_room_def)

lemma open_room_upd:
  assumes "open_room i d" and "\<And>r. r_id (f r) = r_id r" and "\<And>r. r_status r \<noteq> DELETED \<Longrightarrow> r_status (f r) \<noteq> DELETED"
  shows "open_room i (upd_rooms P f d)"
proof -
  from assms(1) obtain r where r: "r \<in> set (rooms d)" "r_id r = i" "r_status r \<noteq> DELETED"
    by (auto simp: open_room_def)
  have "(if P r then f r else r) \<in> set (rooms (upd_rooms P f d))" using r(1) by (simp add: set_upd)
  with r assms(2,3) show ?thesis by (intro open_roomI [of "if P r then f r else r"]) auto
qed

lemma open_room_cong [simp]:
  "open_room i (upd_files Q g d) = open_room i d" "open_room i (del_files Q d) = open_room i d"
  "open_room i (d\<lparr>audit_events := as\<rparr>) = open_room i d" "open_room i (d\<lparr>files := fs\<rparr>) = open_room i d"
  "open_room i (d\<lparr>sessions := ss\<rparr>) = open_room i d" "open_room i (d\<lparr>messages := ms\<rparr>) = open_room i d"
  by (simp_all add: open_room_def)

lemma insert_session_wp:
  assumes "good exact cfg w" and "open_room (s_room_id s) (w_db w)"
  shows "wp (insert_session s)
    (\<lambda>x w'. good exact cfg w' \<and> x = s\<lparr>s_id := session_seq (w_seq w)\<rparr> \<and>
       w_db w' = (w_db w)\<lparr>sessions := sessions (w_db w) @ [x]\<rparr> \<and> w_store w' = w_store w \<and> w_now w' = w_now w)
    (\<lambda>e w'. is_py e \<and> good exact cfg w' \<and> w_db w' = w_db w) w"
proof -
  let ?s = "s\<lparr>s_id := session_seq (w_seq w)\<rparr>"
  have "db_inv exact cfg (w_seq w \<lparr>session_seq := session_seq (w_seq w) + 1\<rparr>) ((w_db w)\<lparr>sessions := sessions (w_db w) @ [?s]\<rparr>)"
    if "\<forall>t \<in> set (sessions (w_db w)). s_session_token_hash t \<noteq> s_session_token_hash s"
    using assms that unfolding open_room_def good_def by (auto intro!: db_inv_insert_session)
  then show ?thesis
    using assms(1) db_inv_seq_session
    by (auto simp: wp_def insert_session_def Let_def good_def list_ex_iff)
qed

lemma insert_message_wp:
  assumes "good exact cfg w" and "open_room (m_room_id m) (w_db w)"
  shows "wp (insert_message m)
    (\<lambda>x w'. good exact cfg w' \<and> x = m\<lparr>m_id := message_seq (w_seq w)\<rparr> \<and>
       w_db w' = (w_db w)\<lparr>messages := messages (w_db w) @ [x]\<rparr> \<and> w_store w' = w_store w \<and> w_now w' = w_now w)
    (\<lambda>e w'. is_py e \<and> good exact cfg w' \<and> w_db w' = w_db w) w"
proof -
  let ?m = "m\<lparr>m_id := message_seq (w_seq w)\<rparr>"
  have "db_inv exact cfg (w_seq w \<lparr>message_seq := message_seq (w_seq w) + 1\<rparr>) ((w_db w)\<lparr>messages := messages (w_db w) @ [?m]\<rparr>)"
    using assms unfolding open_room_def good_def by (auto intro!: db_inv_insert_message)
  then show ?thesis
    using assms(1) db_inv_seq_message
    by (auto simp: wp_def insert_message_def Let_def good_def)
qed

lemma insert_file_wp:
  assumes "good exact cfg w" and "open_room (f_room_id f) (w_db w)" and "f_status f = PENDING" and "0 \<le> f_size_bytes f"
  shows "wp (insert_file f)
    (\<lambda>x w'. good exact cfg w' \<and> x = f\<lparr>f_id := file_seq (w_seq w)\<rparr> \<and>
       w_db w' = (w_db w)\<lparr>files := files (w_db w) @ [x]\<rparr> \<and> w_store w' = w_store w \<and> w_now w' = w_now w)
    (\<lambda>e w'. is_py e \<and> good exact cfg w' \<and> w_db w' = w_db w \<and> w_store w' = w_store w) w"
proof -
  let ?f = "f\<lparr>f_id := file_seq (w_seq w)\<rparr>"
  have "db_inv exact cfg (w_seq w \<lparr>file_seq := file_seq (w_seq w) + 1\<rparr>) ((w_db w)\<lparr>files := files (w_db w) @ [?f]\<rparr>)"
    if "\<forall>t \<in> set (files (w_db w)). f_storage_key t \<noteq> f_storage_key f"
    using assms that unfolding open_room_def good_def by (auto intro!: db_inv_insert_file)
  then show ?thesis
    using assms(1) db_inv_seq_file
    by (auto simp: wp_def insert_file_def Let_def good_def list_ex_iff)
qed

lemma insert_room_wp:
  assumes "good exact cfg w" and "cfg_ok cfg" and "r_status r = ACTIVE" and "r_user_count r = 0"
    and "0 \<le> r_max_users r" and "r_storage_used_bytes r = 0" and "r_file_count r = 0"
  shows "wp (insert_room r)
    (\<lambda>x w'. good exact cfg w' \<and> x = r\<lparr>r_id := room_seq (w_seq w)\<rparr> \<and>
       w_db w' = (w_db w)\<lparr>rooms := rooms (w_db w) @ [x]\<rparr> \<and> w_store w' = w_store w \<and> w_now w' = w_now w)
    (\<lambda>e w'. is_py e \<and> good exact cfg w' \<and> w_db w' = w_db w) w"
proof -
  let ?r = "r\<lparr>r_id := room_seq (w_seq w)\<rparr>"
  have "db_inv exact cfg (w_seq w \<lparr>room_seq := room_seq (w_seq w) + 1\<rparr>) ((w_db w)\<lparr>rooms := rooms (w_db w) @ [?r]\<rparr>)"
    if "room_unique ?r (w_db w)"
    using assms that unfolding good_def by (auto intro!: db_inv_insert_room)
  then show ?thesis
    using assms(1) db_inv_seq_room
    by (auto simp: wp_def insert_room_def Let_def good_def)
qed

lemma audit_wp:
  "wp (create_audit_event room_id event_type metadata)
    (\<lambda>x w'. (good exact cfg w \<longrightarrow> good exact cfg w') \<and> w_db w' = (w_db w)\<lparr>audit_events := audit_events (w_db w) @ [x]\<rparr> \<and>
       w_store w' = w_store w \<and> w_now w' = w_now w)
    (\<lambda>e w'. is_py e \<and> (good exact cfg w \<longrightarrow> good exact cfg w') \<and> w_db w' = w_db w \<and> w_store w' = w_store w) w"
  unfolding create_audit_event_def wp_bind wp_utcnow
  by (auto simp: wp_def insert_audit_def Let_def good_def db_inv_audit intro: db_inv_seq_audit)

lemma keeps_good_audit [intro]: "keeps (good exact cfg) (create_audit_event i t m)"
  unfolding keeps_iff_wp by (auto intro: wp_mono [OF audit_wp])

lemma keeps_good_query [intro]: "keeps (good exact cfg) (query q)"
  by (auto simp: query_def)

lemma keeps_good_utcnow [intro]: "keeps (good exact cfg) utcnow"
  by (auto simp: utcnow_def)

lemma keeps_good_store [intro]: "keeps (good exact cfg) (on_store p)"
  by (auto simp: keeps_def on_store_def split: prod.splits)

lemma keeps_good_exec: "(\<And>sq d. db_inv exact cfg sq d \<Longrightarrow> db_inv exact cfg sq (f d)) \<Longrightarrow> keeps (good exact cfg) (exec f)"
  by (auto simp: keeps_iff_wp wp_exec good_def)

section \<open>The committed database\<close>

text \<open>Nothing but a commit writes the committed database, and the sequences only grow.\<close>

lemma keeps_saved_exec [intro]: "keeps (saved_good exact cfg) (exec f)"
  and keeps_saved_rowcount [intro]: "keeps (saved_good exact cfg) (exec_rowcount f c)"
  and keeps_saved_query [intro]: "keeps (saved_good exact cfg) (query q)"
  and keeps_saved_utcnow [intro]: "keeps (saved_good exact cfg) utcnow"
  and keeps_saved_rollback [intro]: "keeps (saved_good exact cfg) rollback"
  by (auto simp: keeps_iff_wp wp_simps saved_good_def)

lemma keeps_saved_store [intro]: "keeps (saved_good exact cfg) (on_store p)"
  by (auto simp: keeps_def on_store_def saved_good_def split: prod.splits)

lemma keeps_saved_inserts [intro]:
  "keeps (saved_good exact cfg) (insert_room r)" "keeps (saved_good exact cfg) (insert_session s)"
  "keeps (saved_good exact cfg) (insert_file f)" "keeps (saved_good exact cfg) (insert_message m)"
  "keeps (saved_good exact cfg) (insert_audit a)"
  by (auto simp: keeps_def saved_good_def insert_room_def insert_session_def insert_file_def
      insert_message_def insert_audit_def Let_def intro: db_inv_seq)

end
