(* ===== verification/Room_Service.thy ===== *)
theory Room_Service
  imports Invariants
begin

text \<open>
  \<open>services/room_service.py\<close> and \<open>services/message_service.py\<close>. A service works on the row its
  caller loaded (\<open>room\<close>, \<open>actor\<close>) and on the database; the two may have drifted apart when other
  requests ran in between, so nothing here assumes that they agree.
\<close>

section \<open>Request bodies\<close>

record room_create =
  rc_name :: "string option"
  rc_password :: "string option"
  rc_guest_upload_enabled :: bool
  rc_guest_download_enabled :: bool
  rc_lifetime_seconds :: "int option"

record room_patch =
  rp_name :: "string option"
  rp_guest_upload_enabled :: "bool option"
  rp_guest_download_enabled :: "bool option"
  rp_password :: "string option"

section \<open>Validation\<close>

definition validate_lifetime :: "settings \<Rightarrow> int option \<Rightarrow> exc + int" where
  "validate_lifetime cfg lifetime_seconds = (case lifetime_seconds of
     None \<Rightarrow> Inr (default_room_lifetime_seconds cfg)
   | Some n \<Rightarrow>
       if n \<notin> set (room_lifetime_options_seconds cfg)
       then Inl (init_error DropRoomError (''lifetime_seconds must be one of '' @ str_int_list (room_lifetime_options_seconds cfg)))
       else if n > max_room_lifetime_seconds cfg
       then Inl (init_error DropRoomError ''lifetime exceeds the server-enforced maximum'')
       else Inr n)"

definition validate_max_users :: "settings \<Rightarrow> int option \<Rightarrow> exc + int" where
  "validate_max_users cfg max_users = (case max_users of
     None \<Rightarrow> Inr (max_users_per_room cfg)
   | Some n \<Rightarrow>
       if n < 1 \<or> n > max_users_per_room cfg
       then Inl (init_error DropRoomError (''max_users must be between 1 and '' @ str_int (max_users_per_room cfg)))
       else Inr n)"

definition assert_joinable :: "int \<Rightarrow> room \<Rightarrow> exc + unit" where
  "assert_joinable now room =
     (if r_status room = EXPIRED \<or> r_status room = DELETED then Inl (init_error RoomExpired [])
      else if r_status room \<noteq> ACTIVE then Inl (init_error DropRoomError ''Room is not active'')
      else if has_expired now (Aware (r_expires_at room)) then Inl (init_error RoomExpired [])
      else Inr ())"

definition resolve_role :: "crypto \<Rightarrow> room \<Rightarrow> string option \<Rightarrow> string option \<Rightarrow> exc + Role" where
  "resolve_role cr room password owner_token =
     (if truthy owner_token then
        (if r_owner_token_hash room \<noteq> hash_token cr (the owner_token)
         then Inl (init_error InvalidOwnerToken []) else Inr OWNER)
      else if truthy (r_password_hash room) then
        (if \<not> truthy password then Inl (init_error WrongPassword [])
         else case verify_password cr (the password) (the (r_password_hash room)) of
             Inl e \<Rightarrow> Inl e
           | Inr ok \<Rightarrow> if ok then Inr GUEST else Inl (init_error WrongPassword []))
      else Inr GUEST)"

section \<open>Rooms\<close>

definition create_room ::
  "settings \<Rightarrow> crypto \<Rightarrow> room_draws \<Rightarrow> bytes \<Rightarrow> room_create
   \<Rightarrow> ('st, 'z, room \<times> string \<times> string \<times> string) action" where
  "create_room cfg cr draws salt data =
     bind (of_sum (validate_lifetime cfg (rc_lifetime_seconds data))) (\<lambda>lifetime.
     bind (of_sum (validate_max_users cfg None)) (\<lambda>max_users.
     repo_create_room cfg cr draws (rc_name data)
       (if truthy (rc_password data) then Some (hash_password cr salt (the (rc_password data))) else None)
       (rc_guest_upload_enabled data) (rc_guest_download_enabled data) max_users lifetime))"

text \<open>\<open>rnd\<close>: the random bytes of the session token.\<close>

definition join_room ::
  "settings \<Rightarrow> crypto \<Rightarrow> bytes \<Rightarrow> room \<Rightarrow> string option \<Rightarrow> string option \<Rightarrow> string option
   \<Rightarrow> ('st, 'z, session_rec \<times> string) action" where
  "join_room cfg cr rnd room display_name password owner_token =
     bind utcnow (\<lambda>now.
     seq (of_sum (assert_joinable now room))
     (bind (of_sum (resolve_role cr room password owner_token)) (\<lambda>role.
     bind (increment_user_count_atomic (r_id room)) (\<lambda>ok.
     seq (guard ok (init_error RoomFull []))
     (let token = generate_token rnd in
      bind (create_session cfg (r_id room) (hash_token cr token) display_name role) (\<lambda>sess.
      ret (sess, token)))))))"

definition get_room_by_access_or_owner_token ::
  "crypto \<Rightarrow> string \<Rightarrow> string option \<Rightarrow> ('st, 'z, room option) action" where
  "get_room_by_access_or_owner_token cr access_token owner_token = get_room_by_access_token cr access_token"

definition none_if_empty :: "string \<Rightarrow> string option" where
  "none_if_empty s = (if s \<noteq> [] then Some s else None)"

definition patch_is_empty :: "room_patch \<Rightarrow> bool" where
  "patch_is_empty data \<longleftrightarrow> rp_name data = None \<and> rp_guest_upload_enabled data = None \<and>
     rp_guest_download_enabled data = None \<and> rp_password data = None"

definition apply_patch :: "crypto \<Rightarrow> bytes \<Rightarrow> room_patch \<Rightarrow> room \<Rightarrow> room" where
  "apply_patch cr salt data r =
     (let r = (case rp_name data of None \<Rightarrow> r | Some n \<Rightarrow> r\<lparr>r_name := none_if_empty (strip n)\<rparr>);
          r = (case rp_guest_upload_enabled data of None \<Rightarrow> r | Some b \<Rightarrow> r\<lparr>r_guest_upload_enabled := b\<rparr>);
          r = (case rp_guest_download_enabled data of None \<Rightarrow> r | Some b \<Rightarrow> r\<lparr>r_guest_download_enabled := b\<rparr>)
      in case rp_password data of None \<Rightarrow> r
         | Some p \<Rightarrow> r\<lparr>r_password_hash := (if p = [] then None else Some (hash_password cr salt p))\<rparr>)"

definition patch_room :: "crypto \<Rightarrow> bytes \<Rightarrow> room \<Rightarrow> room_patch \<Rightarrow> ('st, 'z, room) action" where
  "patch_room cr salt room data =
     bind utcnow (\<lambda>now.
     seq (of_sum (assert_joinable now room))
     (if patch_is_empty data then ret room
      else bind (update_room_fields (r_id room) (apply_patch cr salt data)) (\<lambda>updated.
           ret (case updated of Some r \<Rightarrow> r | None \<Rightarrow> room))))"

record room_view =
  v_room_code :: string
  v_name :: "string option"
  v_status :: RoomStatus
  v_guest_upload_enabled :: bool
  v_guest_download_enabled :: bool
  v_user_count :: int
  v_max_users :: int
  v_storage_used_bytes :: int
  v_file_count :: int
  v_created_at :: int
  v_expires_at :: int

definition serialize_room :: "room \<Rightarrow> room_view" where
  "serialize_room r = \<lparr>v_room_code = r_room_code r, v_name = r_name r, v_status = r_status r,
     v_guest_upload_enabled = r_guest_upload_enabled r,
     v_guest_download_enabled = r_guest_download_enabled r,
     v_user_count = r_user_count r, v_max_users = r_max_users r,
     v_storage_used_bytes = r_storage_used_bytes r, v_file_count = r_file_count r,
     v_created_at = r_created_at r, v_expires_at = r_expires_at r\<rparr>"

definition remaining_seconds :: "int \<Rightarrow> room \<Rightarrow> int" where
  "remaining_seconds now room = max 0 ((instant (ensure_aware (Aware (r_expires_at room))) - now) div second)"

section \<open>Messages\<close>

definition validate_body :: "settings \<Rightarrow> string \<Rightarrow> exc + string" where
  "validate_body cfg body =
     (let body = strip body in
      if body = [] then Inl (init_error DropRoomError ''Message must not be empty'')
      else if int (length body) > max_message_length cfg
      then Inl (init_error DropRoomError (''Message exceeds the maximum length of ''
             @ str_int (max_message_length cfg) @ '' characters''))
      else Inr body)"

definition send_message :: "settings \<Rightarrow> room \<Rightarrow> session_rec \<Rightarrow> string \<Rightarrow> ('st, 'z, message) action" where
  "send_message cfg room actor body =
     bind (of_sum (validate_body cfg body)) (\<lambda>clean.
     create_message (r_id room) (Some (s_id actor)) (s_display_name actor) clean)"

definition list_messages :: "settings \<Rightarrow> int \<Rightarrow> int option \<Rightarrow> ('st, 'z, message list) action" where
  "list_messages cfg room_id limit =
     list_room_messages room_id (nat (case limit of Some l \<Rightarrow> if l \<noteq> 0 then l else chat_scrollback cfg
                                        | None \<Rightarrow> chat_scrollback cfg))"

definition delete_message :: "room \<Rightarrow> session_rec \<Rightarrow> int \<Rightarrow> ('st, 'z, bool) action" where
  "delete_message room actor message_id =
     seq (guard (s_role actor = OWNER) (init_error PermissionDenied ''Only the room owner can delete chat messages''))
     (repo_delete_message message_id (r_id room))"

section \<open>Facts\<close>

lemma validate_lifetime_Inr:
  "validate_lifetime cfg l = Inr n \<Longrightarrow>
     n = default_room_lifetime_seconds cfg \<and> l = None \<or>
     l = Some n \<and> n \<in> set (room_lifetime_options_seconds cfg) \<and> n \<le> max_room_lifetime_seconds cfg"
  by (auto simp: validate_lifetime_def split: option.splits if_splits)

lemma assert_joinable_Inr:
  "assert_joinable now room = Inr u \<longleftrightarrow> r_status room = ACTIVE \<and> now < r_expires_at room"
  by (auto simp: assert_joinable_def)

lemma resolve_role_owner:
  "resolve_role cr room password owner_token = Inr OWNER \<longleftrightarrow>
     truthy owner_token \<and> r_owner_token_hash room = hash_token cr (the owner_token)"
  by (auto simp: resolve_role_def split: sum.splits)

lemma resolve_role_guest:
  "resolve_role cr room password owner_token = Inr GUEST \<longleftrightarrow>
     \<not> truthy owner_token \<and> (truthy (r_password_hash room) \<longrightarrow>
       truthy password \<and> verify_password cr (the password) (the (r_password_hash room)) = Inr True)"
  by (auto simp: resolve_role_def split: sum.splits)

lemma validate_body_Inr:
  "validate_body cfg body = Inr b \<longleftrightarrow> b = strip body \<and> b \<noteq> [] \<and> int (length b) \<le> max_message_length cfg"
  by (auto simp: validate_body_def Let_def)

section \<open>The services keep the invariant\<close>

lemma find_room_wp [wp_simps]:
  "wp (find_room P) Q E w = (case scalar_one_or_none (sel P (rooms (w_db w))) of
     Inl e \<Rightarrow> E e w | Inr x \<Rightarrow> Q x w)"
  by (simp add: find_room_def wp_simps)

lemma create_room_wp:
  assumes "good exact cfg w" and "cfg_ok cfg"
  shows "wp (create_room cfg cr draws salt data)
    (\<lambda>(room, access_token, owner_token, code) w'. good exact cfg w' \<and> room \<in> set (rooms (w_db w')) \<and>
       w_now w' = w_now w \<and> rooms (w_db w') = rooms (w_db w) @ [room] \<and>
       r_status room = ACTIVE \<and> r_user_count room = 0 \<and> r_max_users room = max_users_per_room cfg \<and>
       r_access_token_hash room = hash_token cr access_token \<and>
       r_owner_token_hash room = hash_token cr owner_token \<and>
       r_access_token_signed room = Some (sign_access_token cr (w_now w) access_token (csrf_secret cfg) (max_room_lifetime_seconds cfg + 3600)) \<and>
       (\<exists>n. validate_lifetime cfg (rc_lifetime_seconds data) = Inr n \<and> r_expires_at room = w_now w + seconds n))
    (\<lambda>e. good exact cfg) w"
proof -
  have max: "validate_max_users cfg None = Inr (max_users_per_room cfg)" by (simp add: validate_max_users_def)
  show ?thesis
  proof (cases "validate_lifetime cfg (rc_lifetime_seconds data)")
    case (Inl e)
    with assms show ?thesis by (simp add: create_room_def wp_simps)
  next
    case (Inr n)
    have cfg: "0 \<le> max_users_per_room cfg" using assms(2) by (simp add: cfg_ok_def)
    show ?thesis
      unfolding create_room_def repo_create_room_def Let_def wp_bind wp_of_sum Inr max sum.case wp_utcnow
      by (rule wp_mono [OF insert_room_wp [OF assms]])
        (use cfg in \<open>auto simp: wp_ret wp_bind intro!: wp_mono [OF audit_wp [where cfg = cfg and exact = exact]]\<close>)
  qed
qed

lemma role_of_sum_cases: "(case r of Inl e \<Rightarrow> E e | Inr x \<Rightarrow> Q x) \<longleftrightarrow> (\<forall>e. r = Inl e \<longrightarrow> E e) \<and> (\<forall>x. r = Inr x \<longrightarrow> Q x)"
  by (cases r) auto

lemma join_room_wp:
  assumes g: "good exact cfg w" and room: "room \<in> set (rooms (w_db w))"
  shows "wp (join_room cfg cr rnd room display_name password owner_token)
    (\<lambda>(sess, token) w'. good exact cfg w' \<and> w_now w' = w_now w \<and>
       resolve_role cr room password owner_token = Inr (s_role sess) \<and> s_room_id sess = r_id room \<and>
       s_session_token_hash sess = hash_token cr token \<and>
       s_expires_at sess = w_now w + seconds (session_ttl_seconds cfg) \<and>
       sessions (w_db w') = sessions (w_db w) @ [sess] \<and>
       r_status room = ACTIVE \<and> w_now w < r_expires_at room \<and> r_user_count room < r_max_users room \<and>
       rooms (w_db w') = upd (\<lambda>r. r_id r = r_id room \<and> r_user_count r < r_max_users r)
         (\<lambda>r. r\<lparr>r_user_count := r_user_count r + 1, r_updated_at := w_now w\<rparr>) (rooms (w_db w)) \<and>
       (\<exists>r \<in> set (rooms (w_db w')). r_id r = r_id room \<and> r_user_count r = r_user_count room + 1))
    (\<lambda>e w'. good exact cfg w' \<and> sessions (w_db w') = sessions (w_db w)) w"
proof -
  let ?P = "\<lambda>r. r_id r = r_id room \<and> r_user_count r < r_max_users r"
  let ?f = "\<lambda>r. r\<lparr>r_user_count := r_user_count r + 1, r_updated_at := w_now w\<rparr>"
  let ?w = "w\<lparr>w_db := upd_rooms ?P ?f (w_db w)\<rparr>"
  have inv: "db_inv exact cfg (w_seq w) (w_db w)" using g by (simp add: good_def)
  have gw: "good exact cfg ?w"
    using keepsD [OF keeps_good_increment [of exact cfg "r_id room"] g]
    by (simp add: increment_user_count_atomic_def guarded_update_def bind_def utcnow_def gets_def
        exec_rowcount_def ret_def)
  have full: "(\<exists>r \<in> set (rooms (w_db w)). ?P r) \<longleftrightarrow> r_user_count room < r_max_users room"
    using room_by_id [OF inv room] room by metis
  show ?thesis
  proof (cases "assert_joinable (w_now w) room")
    case (Inl e)
    with g show ?thesis by (simp add: join_room_def wp_simps)
  next
    case join: (Inr u)
    then have act: "r_status room = ACTIVE" "w_now w < r_expires_at room" by (simp_all add: assert_joinable_Inr)
    show ?thesis
    proof (cases "resolve_role cr room password owner_token")
      case (Inl e)
      with g join show ?thesis by (simp add: join_room_def wp_simps)
    next
      case role: (Inr role)
      show ?thesis
      proof (cases "r_user_count room < r_max_users room")
        case False
        with g gw join role full show ?thesis
          by (auto simp: join_room_def wp_simps increment_user_count_atomic_def)
      next
        case True
        have op: "open_room (r_id room) (upd_rooms ?P ?f (w_db w))"
          by (rule open_room_upd) (auto intro: open_roomI [OF room] simp: act)
        have mem: "?f room \<in> set (upd ?P ?f (rooms (w_db w)))" using room True by (force simp: set_upd)
        show ?thesis
          using join role full True
          apply (simp add: join_room_def wp_simps increment_user_count_atomic_def create_session_def Let_def)
          apply (rule wp_mono [OF insert_session_wp [OF gw]])
          using op mem act by (auto simp: wp_ret intro!: bexI [OF _ mem])
      qed
    qed
  qed
qed

lemma apply_patch_keys: "same_keys (apply_patch cr salt data)"
  by (simp add: same_keys_def apply_patch_def Let_def split: option.split)

lemma apply_patch_room_ok: "room_ok exact cfg d (apply_patch cr salt data r) = room_ok exact cfg d r"
  by (simp add: room_ok_def live_def counters_ok_def apply_patch_def Let_def split: option.split)

lemma patch_room_good:
  assumes "good exact cfg w"
  shows "wp (patch_room cr salt room data) (\<lambda>_. good exact cfg) (\<lambda>_. good exact cfg) w"
proof -
  have "good exact cfg (w\<lparr>w_db := upd_rooms (\<lambda>r. r_id r = r_id room)
      (\<lambda>r. (apply_patch cr salt data r)\<lparr>r_updated_at := w_now w\<rparr>) (w_db w)\<rparr>)"
    using assms apply_patch_keys unfolding good_db
    by (intro db_inv_guarded) (simp_all add: good_def apply_patch_room_ok)
  with assms show ?thesis
    by (auto simp: patch_room_def update_room_fields_def get_room_by_id_def wp_simps split: sum.split)
qed

lemma send_message_wp:
  assumes "good exact cfg w" and "open_room (r_id room) (w_db w)"
  shows "wp (send_message cfg room actor body)
    (\<lambda>m w'. good exact cfg w' \<and> messages (w_db w') = messages (w_db w) @ [m] \<and> m_body m = strip body \<and> m_body m \<noteq> [] \<and>
       int (length (m_body m)) \<le> max_message_length cfg \<and> m_room_id m = r_id room \<and>
       m_sender_session_id m = Some (s_id actor) \<and> m_created_at m = w_now w)
    (\<lambda>_ w'. good exact cfg w' \<and> w_db w' = w_db w) w"
proof (cases "validate_body cfg body")
  case (Inl e)
  with assms show ?thesis by (simp add: send_message_def wp_simps)
next
  case (Inr clean)
  then have b: "validate_body cfg body = Inr (strip body)" "strip body \<noteq> []"
      "int (length (strip body)) \<le> max_message_length cfg"
    using Inr validate_body_Inr [THEN iffD1, OF Inr] by metis+
  with assms show ?thesis
    unfolding send_message_def create_message_def wp_bind wp_of_sum b(1) sum.case wp_utcnow
    by (auto intro!: wp_mono [OF insert_message_wp [OF assms(1)]])
qed

lemma keeps_good_delete_message [intro]: "keeps (good exact cfg) (delete_message room actor mid)"
  unfolding delete_message_def repo_delete_message_def
  by (auto simp: keeps_iff_wp wp_simps good_def intro: db_inv_del_messages)

lemma keeps_saved_room_ops [intro]:
  "keeps (saved_good exact cfg) (guarded_update P f)" "keeps (saved_good exact cfg) (find_room Q)"
  "keeps (saved_good exact cfg) (create_audit_event i t m)"
  unfolding guarded_update_def find_room_def create_audit_event_def by blast+

lemma keeps_saved_services [intro]:
  "keeps (saved_good exact cfg) (create_room cfg' cr draws salt data)"
  "keeps (saved_good exact cfg) (join_room cfg' cr rnd room dn pw ot)"
  "keeps (saved_good exact cfg) (patch_room cr salt room pdata)"
  "keeps (saved_good exact cfg) (send_message cfg' room actor body)"
  "keeps (saved_good exact cfg) (delete_message room actor mid)"
  unfolding create_room_def repo_create_room_def join_room_def increment_user_count_atomic_def create_session_def
    patch_room_def update_room_fields_def get_room_by_id_def send_message_def create_message_def
    delete_message_def repo_delete_message_def Let_def
  by blast+

end
