(* ===== verification/Magic.thy ===== *)
theory Magic
  imports Models
begin

text \<open>
  \<open>file/magic.py\<close>: magic-byte detection. \<open>bytes.decode("utf-8")\<close> is the strict decoder of RFC 3629
  (no overlong forms, no surrogates, nothing above U+10FFFF); only whether it succeeds matters here.
\<close>

section \<open>The signature table\<close>

definition MAGIC :: "(bytes \<times> string \<times> string) list" where
  "MAGIC = [
    ([0x89] @ encode_ascii ''PNG'' @ [0x0d, 0x0a, 0x1a, 0x0a], ''image/png'', ''png''),
    ([0xff, 0xd8, 0xff], ''image/jpeg'', ''jpg''),
    (encode_ascii ''GIF87a'', ''image/gif'', ''gif''),
    (encode_ascii ''GIF89a'', ''image/gif'', ''gif''),
    (encode_ascii ''%PDF-'', ''application/pdf'', ''pdf''),
    ([0x1f, 0x8b], ''application/gzip'', ''gz''),
    (encode_ascii ''PK'' @ [3, 4], ''application/zip'', ''zip''),
    (encode_ascii ''PK'' @ [5, 6], ''application/zip'', ''zip''),
    (encode_ascii ''PK'' @ [7, 8], ''application/zip'', ''zip''),
    (encode_ascii ''Rar!'' @ [0x1a, 7], ''application/vnd.rar'', ''rar''),
    ([0x42, 0x5a, 0x68], ''application/x-bzip2'', ''bz2''),
    (encode_ascii ''7z'' @ [0xbc, 0xaf, 0x27, 0x1c], ''application/x-7z-compressed'', ''7z''),
    ([0, 0, 0, 0x18] @ encode_ascii ''ftyp'', ''video/mp4'', ''mp4''),
    ([0, 0, 0] @ encode_ascii '' ftyp'', ''video/mp4'', ''mp4''),
    ([0x1a, 0x45, 0xdf, 0xa3], ''video/webm'', ''webm''),
    (encode_ascii ''ID3'', ''audio/mpeg'', ''mp3''),
    ([0xff, 0xfb], ''audio/mpeg'', ''mp3''),
    ([0xff, 0xf3], ''audio/mpeg'', ''mp3''),
    ([0x7b, 0x5c] @ encode_ascii ''rtf'', ''application/rtf'', ''rtf''),
    ([0x25, 0x21], ''application/postscript'', ''ps''),
    ([0xd0, 0xcf, 0x11, 0xe0, 0xa1, 0xb1, 0x1a, 0xe1], ''application/x-msi'', ''msi'')]"

definition ZIP_LOCAL :: bytes where
  "ZIP_LOCAL = encode_ascii ''PK'' @ [3, 4]"

definition OOXML :: "string \<times> string" where
  "OOXML = (''application/vnd.openxmlformats-officedocument.spreadsheetml.sheet'', ''xlsx'')"

fun contains :: "bytes \<Rightarrow> bytes \<Rightarrow> bool" where
  "contains s [] = (s = [])"
| "contains s (x # xs) = (prefix s (x # xs) \<or> contains s xs)"

fun first_match :: "(bytes \<times> string \<times> string) list \<Rightarrow> bytes \<Rightarrow> (string \<times> string) option" where
  "first_match [] p = None"
| "first_match ((sig, mime, ext) # entries) p =
     (if prefix sig p then Some (mime, ext) else first_match entries p)"

definition sniff :: "bytes \<Rightarrow> (string \<times> string) option" where
  "sniff p =
     (if prefix ZIP_LOCAL p then
        (if list_ex (\<lambda>s. contains (encode_ascii s) (take 4096 p))
              [''[Content_Types].xml'', ''word/'', ''xl/'', ''ppt/'']
         then Some OOXML else Some (''application/zip'', ''zip''))
      else first_match MAGIC p)"

section \<open>UTF-8\<close>

definition cont_byte :: "nat \<Rightarrow> bool" where
  "cont_byte b \<longleftrightarrow> 128 \<le> b \<and> b < 192"

fun utf8_ok :: "nat list \<Rightarrow> bool" where
  "utf8_ok [] = True"
| "utf8_ok (a # bs) =
     (if a < 128 then utf8_ok bs
      else if 194 \<le> a \<and> a < 224 then
        (case bs of b # rest \<Rightarrow> cont_byte b \<and> utf8_ok rest | [] \<Rightarrow> False)
      else if 224 \<le> a \<and> a < 240 then
        (case bs of b # c # rest \<Rightarrow> cont_byte b \<and> cont_byte c \<and>
             (a = 224 \<longrightarrow> 160 \<le> b) \<and> (a = 237 \<longrightarrow> b < 160) \<and> utf8_ok rest
         | _ \<Rightarrow> False)
      else if 240 \<le> a \<and> a < 245 then
        (case bs of b # c # d # rest \<Rightarrow> cont_byte b \<and> cont_byte c \<and> cont_byte d \<and>
             (a = 240 \<longrightarrow> 144 \<le> b) \<and> (a = 244 \<longrightarrow> b < 144) \<and> utf8_ok rest
         | _ \<Rightarrow> False)
      else False)"

definition utf8_decodes :: "bytes \<Rightarrow> bool" where
  "utf8_decodes bs \<longleftrightarrow> utf8_ok (map unat bs)"

definition is_plain_text :: "bytes \<Rightarrow> bool" where
  "is_plain_text p \<longleftrightarrow> p \<noteq> [] \<and> utf8_decodes p \<and> 0 \<notin> set p"

definition normalize_content_type :: "bytes \<Rightarrow> string option \<Rightarrow> string \<times> string option" where
  "normalize_content_type p client_mime =
     (case sniff p of
        Some (mime, ext) \<Rightarrow> (mime, Some ext)
      | None \<Rightarrow> if is_plain_text p then (or_default client_mime ''text/plain'', None)
               else (''application/octet-stream'', None))"

section \<open>Every signature is found\<close>

lemma prefix_or_prefix: "prefix a (b @ c) \<Longrightarrow> prefix a b \<or> prefix b a"
  by (metis prefixI prefix_same_cases)

lemma first_match_None: "first_match entries p = None \<longleftrightarrow> (\<forall>(sig, m) \<in> set entries. \<not> prefix sig p)"
  by (induction entries p rule: first_match.induct) auto

text \<open>No signature is a proper prefix of another, nor equal to another, so the order of the table
  does not matter.\<close>

definition clash :: "bytes \<Rightarrow> bytes \<Rightarrow> bool" where
  "clash a b \<longleftrightarrow> prefix a b \<or> prefix b a"

fun no_clash :: "bytes list \<Rightarrow> bool" where
  "no_clash [] = True"
| "no_clash (a # as) = (list_all (\<lambda>b. \<not> clash a b) as \<and> no_clash as)"

lemma MAGIC_no_clash: "no_clash (map fst MAGIC)"
  by code_simp

lemma first_match_entry:
  assumes "no_clash (map fst es)" and "(sig, mime, ext) \<in> set es"
  shows "first_match es (sig @ rest) = Some (mime, ext)"
  using assms
proof (induction es)
  case (Cons e es)
  obtain sg m x where e: "e = (sg, m, x)" by (cases e)
  show ?case
  proof (cases "e = (sig, mime, ext)")
    case True
    then show ?thesis by simp
  next
    case False
    with Cons.prems have mem: "(sig, mime, ext) \<in> set es" by auto
    with Cons.prems(1) have "\<not> clash sg sig" by (force simp: e list_all_iff)
    then have "\<not> prefix sg (sig @ rest)" using prefix_or_prefix unfolding clash_def by blast
    with Cons mem show ?thesis by (simp add: e)
  qed
qed simp

lemma sniff_entry:
  assumes "(sig, mime, ext) \<in> set MAGIC" and "sig \<noteq> ZIP_LOCAL"
  shows "sniff (sig @ rest) = Some (mime, ext)"
proof -
  have "list_all (\<lambda>(s, m, x). s = ZIP_LOCAL \<or> \<not> clash ZIP_LOCAL s) MAGIC" by code_simp
  with assms have "\<not> clash ZIP_LOCAL sig" by (auto simp: list_all_iff)
  then have "\<not> prefix ZIP_LOCAL (sig @ rest)" using prefix_or_prefix unfolding clash_def by blast
  then show ?thesis by (simp add: sniff_def first_match_entry [OF MAGIC_no_clash assms(1)])
qed

lemma sniff_zip: "prefix ZIP_LOCAL p \<Longrightarrow> sniff p = Some OOXML \<or> sniff p = Some (''application/zip'', ''zip'')"
  by (simp add: sniff_def)

lemma sniff_None: "sniff p = None \<longleftrightarrow> (\<forall>(sig, m) \<in> set MAGIC. \<not> prefix sig p)"
proof -
  have "(ZIP_LOCAL, ''application/zip'', ''zip'') \<in> set MAGIC"
    by (simp add: MAGIC_def ZIP_LOCAL_def)
  then show ?thesis
    by (auto simp: sniff_def first_match_None split: if_splits)
qed

section \<open>The client's type is used for text only\<close>

lemma normalize_ignores_client:
  "sniff p \<noteq> None \<or> \<not> is_plain_text p \<Longrightarrow> normalize_content_type p c = normalize_content_type p d"
  by (auto simp: normalize_content_type_def)

lemma utf8_ok_ascii: "list_all (\<lambda>b. b < 128) bs \<Longrightarrow> utf8_ok bs"
  by (induction bs) auto

lemma unat_byte: "n < 256 \<Longrightarrow> unat (of_nat n :: 8 word) = n"
  by (simp add: unsigned_of_nat take_bit_nat_eq_self)

lemma utf8_encode_Cons:
  "map unat (utf8_encode (c # s)) =
     (if code c < 128 then [code c] else [192 + code c div 64, 128 + code c mod 64]) @ map unat (utf8_encode s)"
proof -
  have c: "code c < 256" by (simp add: code_def)
  then have "code c div 64 < 4" by (simp add: less_mult_imp_div_less)
  moreover have "code c mod 64 < 64" by simp
  ultimately have "unat (of_nat (192 + code c div 64) :: 8 word) = 192 + code c div 64"
    and "unat (of_nat (128 + code c mod 64) :: 8 word) = 128 + code c mod 64"
    by (intro unat_byte; linarith)+
  with unat_byte [OF c] show ?thesis
    by (simp add: utf8_encode_def Let_def del: of_nat_add)
qed

lemma utf8_ok_encode: "utf8_ok (map unat (utf8_encode s))"
proof (induction s)
  case Nil
  show ?case by (simp add: utf8_encode_def)
next
  case (Cons c s)
  show ?case
  proof (cases "code c < 128")
    case True
    with Cons show ?thesis by (simp add: utf8_encode_Cons)
  next
    case False
    have c: "code c < 256" by (simp add: code_def)
    have "2 \<le> code c div 64" using False div_le_mono [of 128 "code c" 64] by simp
    moreover have "code c div 64 < 4" using c by (simp add: less_mult_imp_div_less)
    moreover have "cont_byte (128 + code c mod 64)" by (simp add: cont_byte_def)
    ultimately show ?thesis using Cons False by (simp add: utf8_encode_Cons)
  qed
qed

end
