(* ===== verification/File_Service.thy ===== *)
theory File_Service
  imports Room_Service Storage Magic
begin

text \<open>
  \<open>services/file_service.py\<close>: direct uploads, downloads and deletion. The object store is any
  backend record \<open>bk\<close>; the key a \<open>uuid4()\<close> draws is the argument \<open>storage_key\<close>.
\<close>

section \<open>Authorization\<close>

definition authorize_upload :: "room \<Rightarrow> session_rec \<Rightarrow> exc + unit" where
  "authorize_upload room actor =
     (if r_status room \<noteq> ACTIVE then Inl (init_error RoomExpired [])
      else if s_role actor \<noteq> OWNER \<and> \<not> r_guest_upload_enabled room
      then Inl (init_error PermissionDenied ''Guest uploads are disabled in this room'')
      else Inr ())"

definition authorize_download :: "room \<Rightarrow> session_rec \<Rightarrow> exc + unit" where
  "authorize_download room actor =
     (if r_status room \<noteq> ACTIVE then Inl (init_error RoomExpired [])
      else if s_role actor \<noteq> OWNER \<and> \<not> r_guest_download_enabled room
      then Inl (init_error PermissionDenied ''Guest downloads are disabled in this room'')
      else Inr ())"

section \<open>The upload stream\<close>

definition check_size :: "settings \<Rightarrow> int \<Rightarrow> exc + unit" where
  "check_size cfg total_bytes =
     (if total_bytes > max_file_size_bytes cfg
      then Inl (init_error FileTooLarge (''File exceeds the maximum size of ''
             @ str_int (max_file_size_bytes cfg) @ '' bytes''))
      else Inr ())"

text \<open>\<open>anext(chunks, b"")\<close>: the first chunk and what is left of the iterator.\<close>

definition anext_default :: "stream \<Rightarrow> exc + (bytes \<times> stream)" where
  "anext_default chunks = (case chunks of
     ([], None) \<Rightarrow> Inr ([], chunks)
   | ([], Some e) \<Rightarrow> Inl e
   | (c # cs, e) \<Rightarrow> Inr (c, (cs, e)))"

text \<open>The loop of \<open>_source\<close>: what it yields, the exception that ends it, the bytes counted.\<close>

fun counted :: "settings \<Rightarrow> int \<Rightarrow> bytes list \<Rightarrow> exc option \<Rightarrow> bytes list \<times> exc option \<times> int" where
  "counted cfg n [] end_exc = ([], end_exc, n)"
| "counted cfg n (c # cs) end_exc =
     (let n' = n + int (length c) in
      case check_size cfg n' of
        Inl e \<Rightarrow> ([], Some e, n')
      | Inr _ \<Rightarrow> (let (out, e, m) = counted cfg n' cs end_exc in (c # out, e, m)))"

definition source :: "settings \<Rightarrow> bytes \<Rightarrow> stream \<Rightarrow> stream \<times> int" where
  "source cfg first_chunk rest =
     (let (out, e, n) = counted cfg (int (length first_chunk)) (fst rest) (snd rest)
      in ((if first_chunk \<noteq> [] then first_chunk # out else out, e), n))"

section \<open>Files\<close>

definition safe_filename :: "string option \<Rightarrow> string" where
  "safe_filename filename = (let s = take 255 (or_default filename ''unnamed'')
     in if s \<noteq> [] then s else ''unnamed'')"

text \<open>Flushing a changed row: the \<open>UPDATE\<close> must meet the row, else \<open>StaleDataError\<close>.\<close>

definition orm_update_file :: "int \<Rightarrow> (file_rec \<Rightarrow> file_rec) \<Rightarrow> ('st, 'z, unit) action" where
  "orm_update_file file_id f = bind utcnow (\<lambda>now.
     bind (exec_rowcount (upd_files (\<lambda>r. f_id r = file_id) (\<lambda>r. (f r)\<lparr>f_updated_at := now\<rparr>))
            (\<lambda>d. rowcount (\<lambda>r. f_id r = file_id) (files d))) (\<lambda>n.
     guard (n > 0) (Py StaleDataError)))"

definition cleanup_failed_upload :: "'st storage_backend \<Rightarrow> int \<Rightarrow> string \<Rightarrow> ('st, 'z, unit) action" where
  "cleanup_failed_upload bk file_id storage_key =
     seq (on_store (delete_object bk storage_key)) (exec (del_files (\<lambda>r. f_id r = file_id)))"

text \<open>The \<open>try\<close> block: stage the bytes; any failure removes the object and the row, and a failure
  that is not a \<open>DropRoomError\<close> becomes one.\<close>

definition stage_upload ::
  "settings \<Rightarrow> 'st storage_backend \<Rightarrow> int \<Rightarrow> string \<Rightarrow> stream \<Rightarrow> ('st, 'z, bytes \<times> int) action" where
  "stage_upload cfg bk file_id storage_key chunks =
     try_except
       (bind (of_sum (anext_default chunks)) (\<lambda>(first_chunk, rest).
        seq (of_sum (check_size cfg (int (length first_chunk))))
        (let (data, n) = source cfg first_chunk rest in
         bind (on_store (put bk storage_key data)) (\<lambda>_. ret (first_chunk, n)))))
       (\<lambda>e. seq (cleanup_failed_upload bk file_id storage_key)
            (case e of Drop c d \<Rightarrow> raise (Drop c d)
             | Py x \<Rightarrow> raise (init_error DropRoomError ''Upload failed while writing to storage'')))"

text \<open>What follows the \<open>try\<close> block: the final size check, the quota, the row.\<close>

definition finish_upload ::
  "settings \<Rightarrow> 'st storage_backend \<Rightarrow> room \<Rightarrow> file_rec \<Rightarrow> string \<Rightarrow> string \<Rightarrow> string option \<Rightarrow> bytes \<Rightarrow> int
   \<Rightarrow> ('st, 'z, file_rec) action" where
  "finish_upload cfg bk room rec safe_name storage_key content_type first_chunk n =
      seq (of_sum (check_size cfg n))
      (bind (claim_quota cfg (r_id room) n) (\<lambda>claimed.
       if \<not> claimed then
         seq (cleanup_failed_upload bk (f_id rec) storage_key)
             (raise (init_error RoomStorageQuotaExceeded ''Room storage quota exceeded''))
       else
         (let mime = fst (normalize_content_type first_chunk content_type);
              confirm = (\<lambda>r. r\<lparr>f_content_type := Some mime, f_size_bytes := n, f_status := CONFIRMED\<rparr>) in
          seq (orm_update_file (f_id rec) confirm)
          (bind (create_audit_event (Some (r_id room)) ''FILE_UPLOADED''
                  (Some [(''file_id'', JInt (f_id rec)), (''name'', JStr safe_name), (''size'', JInt n)])) (\<lambda>_.
           ret (confirm rec))))))"

definition upload_file ::
  "settings \<Rightarrow> 'st storage_backend \<Rightarrow> string \<Rightarrow> room \<Rightarrow> session_rec \<Rightarrow> string option \<Rightarrow> string option
   \<Rightarrow> stream \<Rightarrow> ('st, 'z, file_rec) action" where
  "upload_file cfg bk storage_key room actor filename content_type chunks =
     seq (of_sum (authorize_upload room actor))
     (let safe_name = safe_filename filename in
      bind (create_file_record (r_id room) safe_name storage_key content_type 0 (Some (s_id actor))
              (Some (r_expires_at room + seconds 300))) (\<lambda>rec.
      bind (stage_upload cfg bk (f_id rec) storage_key chunks) (\<lambda>(first_chunk, n).
      finish_upload cfg bk room rec safe_name storage_key content_type first_chunk n)))"

definition get_file :: "room \<Rightarrow> int \<Rightarrow> ('st, 'z, file_rec) action" where
  "get_file room file_id =
     bind (get_file_by_id file_id) (\<lambda>found. case found of
       None \<Rightarrow> raise (init_error FileNotFound [])
     | Some rec \<Rightarrow> if f_room_id rec \<noteq> r_id room \<or> f_status rec \<noteq> CONFIRMED
                  then raise (init_error FileNotFound []) else ret rec)"

definition download_file ::
  "'st storage_backend \<Rightarrow> room \<Rightarrow> session_rec \<Rightarrow> int \<Rightarrow> ('st, 'z, file_rec \<times> stream \<times> int) action" where
  "download_file bk room actor file_id =
     seq (of_sum (authorize_download room actor))
     (bind (get_file room file_id) (\<lambda>rec.
      seq (increment_download (f_id rec))
      (bind (gets (\<lambda>w. get_stream bk (f_storage_key rec) (w_store w))) (\<lambda>stream.
       ret (rec\<lparr>f_download_count := f_download_count rec + 1\<rparr>, stream, f_size_bytes rec)))))"

definition delete_file ::
  "'st storage_backend \<Rightarrow> room \<Rightarrow> session_rec \<Rightarrow> int \<Rightarrow> ('st, 'z, file_rec) action" where
  "delete_file bk room actor file_id =
     seq (guard (s_role actor = OWNER) (init_error PermissionDenied ''Only the room owner can delete files''))
     (bind (get_file room file_id) (\<lambda>rec.
      seq (mark_deleted (f_id rec))
      (seq (update_storage_and_file_count (r_id room) (- f_size_bytes rec) (- 1))
      (bind (create_audit_event (Some (r_id room)) ''FILE_DELETED'' (Some [(''file_id'', JInt (f_id rec))])) (\<lambda>_.
       seq (on_store (delete_object bk (f_storage_key rec)))
       (ret (rec\<lparr>f_status := FILE_DELETED\<rparr>)))))))"

section \<open>Facts about the stream\<close>

text \<open>A stream that ends without an exception was passed on whole, its bytes were counted, and the
  count never passed the limit.\<close>

lemma counted_ok:
  "counted cfg n cs end_exc = (out, None, m) \<Longrightarrow>
     end_exc = None \<and> out = cs \<and> m = n + int (length (concat cs)) \<and> (m \<le> max_file_size_bytes cfg \<or> cs = [])"
proof (induction cs arbitrary: n out m)
  case (Cons c cs)
  then obtain out' where "check_size cfg (n + int (length c)) = Inr ()" and "out = c # out'"
    and rec: "counted cfg (n + int (length c)) cs end_exc = (out', None, m)"
    by (auto simp: Let_def split: sum.splits prod.splits)
  moreover from this(1) have "n + int (length c) \<le> max_file_size_bytes cfg"
    by (simp add: check_size_def split: if_splits)
  ultimately show ?case using Cons.IH [OF rec] by auto
qed simp

text \<open>Each prefix the store receives stays within the limit, whatever the client sends.\<close>

lemma counted_bounded:
  "n \<le> max_file_size_bytes cfg \<Longrightarrow> counted cfg n cs end_exc = (out, e, m) \<Longrightarrow>
     n + int (length (concat out)) \<le> max_file_size_bytes cfg"
proof (induction cs arbitrary: n out m)
  case (Cons c cs)
  show ?case
  proof (cases "check_size cfg (n + int (length c))")
    case (Inl x)
    with Cons.prems show ?thesis by (simp add: Let_def)
  next
    case (Inr u)
    then have le: "n + int (length c) \<le> max_file_size_bytes cfg"
      by (simp add: check_size_def split: if_splits)
    from Inr Cons.prems(2) obtain out' where "out = c # out'"
      and "counted cfg (n + int (length c)) cs end_exc = (out', e, m)"
      by (auto simp: Let_def split: prod.splits)
    with Cons.IH [OF le] show ?thesis by simp
  qed
qed simp

lemma source_ok:
  assumes "source cfg first_chunk rest = (data, n)" and "snd data = None"
  shows "concat (fst data) = first_chunk @ concat (fst rest) \<and> snd rest = None \<and>
    n = int (length (concat (fst data)))"
  using assms by (auto simp: source_def Let_def split: prod.splits if_splits dest!: counted_ok)

lemma anext_default_Inr:
  "anext_default chunks = Inr (c, rest) \<Longrightarrow> c @ concat (fst rest) = concat (fst chunks) \<and> snd rest = snd chunks"
  by (auto simp: anext_default_def split: prod.splits list.splits option.splits)


section \<open>Uploads keep the invariant\<close>

lemma stage_upload_frame:
  "wp (stage_upload cfg bk fid key chunks) (\<lambda>_ w'. \<exists>st. w' = w\<lparr>w_store := st\<rparr>) (\<lambda>_ _. True) w"
  by (auto simp: stage_upload_def wp_simps split: prod.split sum.split exc.split intro!: wp_any)

lemma wp_orm_update_file [wp_simps]:
  "wp (orm_update_file i f) Q E w =
    (let w' = w\<lparr>w_db := upd_files (\<lambda>r. f_id r = i) (\<lambda>r. (f r)\<lparr>f_updated_at := w_now w\<rparr>) (w_db w)\<rparr>
     in if \<exists>r \<in> set (files (w_db w)). f_id r = i then Q () w' else E (Py StaleDataError) w')"
  by (simp add: orm_update_file_def wp_simps Let_def)

lemma wp_claim_quota [wp_simps]:
  "wp (claim_quota cfg i n) Q E w =
    (let P = (\<lambda>r. r_id r = i \<and> r_status r = ACTIVE \<and> r_file_count r < max_files_per_room cfg \<and>
                r_storage_used_bytes r + n \<le> max_room_storage_bytes cfg);
         h = (\<lambda>r. r\<lparr>r_storage_used_bytes := r_storage_used_bytes r + n, r_file_count := r_file_count r + 1,
                     r_updated_at := w_now w\<rparr>)
     in Q (\<exists>r \<in> set (rooms (w_db w)). P r) (w\<lparr>w_db := upd_rooms P h (w_db w)\<rparr>))"
  by (simp add: claim_quota_def wp_simps Let_def)

text \<open>Claiming quota for a PENDING file and confirming it: the invariant holds again after both.\<close>

lemma db_inv_claim_confirm:
  assumes inv: "db_inv exact cfg sq d" and f: "f \<in> set (files d)" "f_status f = PENDING" "0 \<le> n"
    and P: "P = (\<lambda>r. r_id r = f_room_id f \<and> r_status r = ACTIVE \<and> r_file_count r < max_files_per_room cfg \<and>
                r_storage_used_bytes r + n \<le> max_room_storage_bytes cfg)"
    and ex: "\<exists>r \<in> set (rooms d). P r"
  shows "db_inv exact cfg sq (upd_files (\<lambda>t. f_id t = f_id f)
      (\<lambda>t. t\<lparr>f_content_type := ct, f_size_bytes := n, f_status := CONFIRMED, f_updated_at := now\<rparr>)
      (upd_rooms P (\<lambda>r. r\<lparr>r_storage_used_bytes := r_storage_used_bytes r + n, r_file_count := r_file_count r + 1,
         r_updated_at := now\<rparr>) d))"
proof -
  obtain r where r: "r \<in> set (rooms d)" "P r" using ex by blast
  have only: "P t \<longleftrightarrow> t = r" if "t \<in> set (rooms d)" for t
    using room_by_id [OF inv r(1), of t] that r by (auto simp: P)
  show ?thesis
    by (rule db_inv_recount [OF inv f(1) r(1)])
      (use r(2) f only in \<open>auto simp: P file_frame_def same_keys_def confirmed_bytes_def confirmed_one_def\<close>)
qed

lemma finish_upload_wp:
  assumes g: "good exact cfg w" and f: "rec \<in> set (files (w_db w))" "f_status rec = PENDING" "f_room_id rec = r_id room" and n: "0 \<le> n"
  shows "wp (finish_upload cfg bk room rec safe_name key content_type c n)
    (\<lambda>x w'. good exact cfg w' \<and> w_store w' = w_store w \<and> w_now w' = w_now w \<and> n \<le> max_file_size_bytes cfg \<and>
       (\<exists>mime. x = rec\<lparr>f_content_type := Some mime, f_size_bytes := n, f_status := CONFIRMED\<rparr> \<and>
          files (w_db w') = upd (\<lambda>r. f_id r = f_id rec) (\<lambda>r. r\<lparr>f_content_type := Some mime, f_size_bytes := n,
            f_status := CONFIRMED, f_updated_at := w_now w\<rparr>) (files (w_db w))) \<and>
       sessions (w_db w') = sessions (w_db w) \<and> map r_user_count (rooms (w_db w')) = map r_user_count (rooms (w_db w)))
    (\<lambda>_ _. True) w"
proof -
  have inv: "db_inv exact cfg (w_seq w) (w_db w)" using g by (simp add: good_def)
  let ?P = "\<lambda>r. r_id r = f_room_id rec \<and> r_status r = ACTIVE \<and> r_file_count r < max_files_per_room cfg \<and>
    r_storage_used_bytes r + n \<le> max_room_storage_bytes cfg"
  note conf = db_inv_claim_confirm [OF inv f(1,2) n refl, where now = "w_now w"]
  show ?thesis
  proof (cases "n \<le> max_file_size_bytes cfg \<and> (\<exists>r \<in> set (rooms (w_db w)). ?P r)")
    case False
    then show ?thesis
      using f(3) by (auto simp: finish_upload_def wp_simps check_size_def Let_def)
  next
    case True
    then have size: "check_size cfg n = Inr ()" and ex: "\<exists>r \<in> set (rooms (w_db w)). ?P r"
      by (simp_all add: check_size_def)
    have row: "\<exists>r \<in> set (files (w_db w)). f_id r = f_id rec" using f(1) by blast
    show ?thesis
      unfolding finish_upload_def wp_seq wp_bind wp_of_sum size sum.case wp_claim_quota Let_def wp_if wp_orm_update_file
      using True ex row f(3) conf [OF ex]
      by (auto simp: wp_ret map_upd_key intro!: wp_mono [OF audit_wp [where cfg = cfg and exact = exact]])
  qed
qed


lemma create_file_record_wp:
  assumes "good exact cfg w" and "open_room i (w_db w)" and "0 \<le> n"
  shows "wp (create_file_record i name key ct n sess ex)
    (\<lambda>x w'. good exact cfg w' \<and> w_db w' = (w_db w)\<lparr>files := files (w_db w) @ [x]\<rparr> \<and> w_store w' = w_store w \<and> w_now w' = w_now w \<and>
       f_room_id x = i \<and> f_original_filename x = name \<and> f_storage_key x = key \<and> f_content_type x = ct \<and>
       f_size_bytes x = n \<and> f_total_size_bytes x = None \<and> f_status x = PENDING \<and> f_uploaded_by x = sess)
    (\<lambda>e w'. is_py e \<and> good exact cfg w' \<and> w_db w' = w_db w \<and> w_store w' = w_store w) w"
  unfolding create_file_record_def wp_bind wp_utcnow
  by (rule wp_mono [OF insert_file_wp [OF assms(1)]]) (use assms in auto)

lemma upload_file_wp:
  fixes w :: "('st, 'z) world_scheme"
  assumes g: "good exact cfg w" and room: "room \<in> set (rooms (w_db w))"
    and stage: "\<And>fid (w1 :: ('st, 'z) world_scheme). w_store w1 = w_store w \<Longrightarrow>
      wp (stage_upload cfg bk fid key chunks) (\<lambda>(c :: bytes, n) w'. 0 \<le> n \<and> S n (w_store w') \<and> (\<exists>st. w' = w1\<lparr>w_store := st\<rparr>)) (\<lambda>_ _. True) w1"
  shows "wp (upload_file cfg bk key room actor filename content_type chunks)
    (\<lambda>rec w'. good exact cfg w' \<and> S (f_size_bytes rec) (w_store w') \<and> w_now w' = w_now w \<and>
       f_storage_key rec = key \<and> f_status rec = CONFIRMED \<and> f_room_id rec = r_id room \<and>
       f_size_bytes rec \<le> max_file_size_bytes cfg \<and> authorize_upload room actor = Inr () \<and>
       files (w_db w') = files (w_db w) @ [rec\<lparr>f_updated_at := w_now w\<rparr>] \<and>
       sessions (w_db w') = sessions (w_db w) \<and> map r_user_count (rooms (w_db w')) = map r_user_count (rooms (w_db w)))
    (\<lambda>_ _. True) w"
proof (cases "authorize_upload room actor")
  case (Inl e)
  then show ?thesis by (simp add: upload_file_def wp_simps)
next
  case (Inr u)
  then have op: "open_room (r_id room) (w_db w)"
    using room by (auto simp: authorize_upload_def open_room_def split: if_splits)
  have append: "upd (\<lambda>r. f_id r = f_id x) g (files (w_db w) @ [x]) = files (w_db w) @ [g x]"
    if "good exact cfg t" "w_db t = (w_db w)\<lparr>files := files (w_db w) @ [x]\<rparr>" for x g and t :: "('st, 'z) world_scheme"
  proof -
    have "distinct (map f_id (files (w_db w) @ [x]))" using that db_invD(3) [of exact cfg "w_seq t" "w_db t"] by (simp add: good_def)
    then have "\<And>r. r \<in> set (files (w_db w)) \<Longrightarrow> f_id r \<noteq> f_id x" by (auto simp: image_iff)
    then show ?thesis by (simp add: upd_append upd_none)
  qed
  let ?Q = "\<lambda>rec w'. good exact cfg w' \<and> S (f_size_bytes rec) (w_store w') \<and> w_now w' = w_now w \<and>
       f_storage_key rec = key \<and> f_status rec = CONFIRMED \<and> f_room_id rec = r_id room \<and>
       f_size_bytes rec \<le> max_file_size_bytes cfg \<and> authorize_upload room actor = Inr () \<and>
       files (w_db w') = files (w_db w) @ [rec\<lparr>f_updated_at := w_now w\<rparr>] \<and>
       sessions (w_db w') = sessions (w_db w) \<and> map r_user_count (rooms (w_db w')) = map r_user_count (rooms (w_db w))"
  have rest: "wp (bind (stage_upload cfg bk (f_id x) key chunks) (\<lambda>(c, n).
      finish_upload cfg bk room x safe_name key content_type c n)) ?Q (\<lambda>_ _. True) t"
    if t: "good exact cfg t" "w_db t = (w_db w)\<lparr>files := files (w_db w) @ [x]\<rparr>" "w_store t = w_store w" "w_now t = w_now w"
      and x: "f_storage_key x = key" "f_status x = PENDING" "f_room_id x = r_id room"
    for x safe_name and t :: "('st, 'z) world_scheme"
  proof -
    have "wp (finish_upload cfg bk room x safe_name key content_type c n) ?Q (\<lambda>_ _. True) (t\<lparr>w_store := st\<rparr>)"
      if "0 \<le> n" "S n st" for c n st
      by (rule wp_mono [OF finish_upload_wp]) (use that t x append [OF t(1,2)] Inr in auto)
    then show ?thesis
      unfolding wp_bind by - (rule wp_mono [OF stage [OF t(3)]], auto)
  qed
  show ?thesis
    unfolding upload_file_def Let_def wp_seq wp_of_sum Inr sum.case wp_bind [of "create_file_record _ _ _ _ _ _ _"]
    by (rule wp_mono [OF create_file_record_wp [OF g op]]) (use rest Inr in auto)
qed


section \<open>Downloads and deletion keep the invariant\<close>

lemma wp_update_file [wp_simps]:
  "wp (update_file i f) Q E w = Q () (w\<lparr>w_db := upd_files (\<lambda>r. f_id r = i) (\<lambda>r. (f r)\<lparr>f_updated_at := w_now w\<rparr>) (w_db w)\<rparr>)"
  by (simp add: update_file_def wp_simps)

lemma get_file_by_id_wp [wp_simps]:
  "wp (get_file_by_id i) Q E w = (case scalar_one_or_none (sel (\<lambda>f. f_id f = i) (files (w_db w))) of
     Inl e \<Rightarrow> E e w | Inr x \<Rightarrow> Q x w)"
  by (simp add: get_file_by_id_def wp_simps)

lemma get_file_wp:
  assumes "good exact cfg w"
  shows "wp (get_file room i)
    (\<lambda>rec w'. w' = w \<and> rec \<in> set (files (w_db w)) \<and> f_id rec = i \<and> f_room_id rec = r_id room \<and> f_status rec = CONFIRMED)
    (\<lambda>e w'. w' = w \<and> e = init_error FileNotFound [] \<and>
       \<not> (\<exists>rec \<in> set (files (w_db w)). f_id rec = i \<and> f_room_id rec = r_id room \<and> f_status rec = CONFIRMED)) w"
proof -
  have d: "distinct (map f_id (files (w_db w)))" using assms db_invD(3) by (auto simp: good_def)
  show ?thesis
  proof (cases "single_or_none (\<lambda>f. f_id f = i) (files (w_db w))")
    case None
    have "\<not> (\<exists>rec \<in> set (files (w_db w)). f_id rec = i)" using None by (simp add: single_None)
    then show ?thesis unfolding get_file_def wp_bind get_file_by_id_wp scalar_distinct [OF d] None by (auto simp: wp_simps)
  next
    case (Some rec)
    then have rec: "rec \<in> set (files (w_db w))" "f_id rec = i" by (auto dest: single_Some)
    then have "\<not> (\<exists>x \<in> set (files (w_db w)). f_id x = i \<and> f_room_id x = r_id room \<and> f_status x = CONFIRMED)"
      if "f_room_id rec \<noteq> r_id room \<or> f_status rec \<noteq> CONFIRMED"
      using that distinct_key_unique [OF d _ rec(1)] by metis
    with rec show ?thesis
      unfolding get_file_def wp_bind get_file_by_id_wp scalar_distinct [OF d] Some by (simp add: wp_simps)
  qed
qed

lemma db_inv_increment_download:
  assumes "db_inv exact cfg sq d"
  shows "db_inv exact cfg sq (upd_files (\<lambda>r. f_id r = i) (\<lambda>r. r\<lparr>f_download_count := f_download_count r + 1, f_updated_at := t\<rparr>) d)"
  by (rule db_inv_upd_files [OF assms])
    (use db_invD(6) [OF assms] in \<open>auto simp: file_frame_def confirmed_bytes_def confirmed_one_def\<close>)

lemma download_file_wp:
  assumes g: "good exact cfg w"
  shows "wp (download_file bk room actor i)
    (\<lambda>(rec, stream, size) w'. good exact cfg w' \<and> authorize_download room actor = Inr () \<and> w_store w' = w_store w \<and>
       w_now w' = w_now w \<and> rooms (w_db w') = rooms (w_db w) \<and> sessions (w_db w') = sessions (w_db w) \<and>
       stream = get_stream bk (f_storage_key rec) (w_store w) \<and> size = f_size_bytes rec \<and>
       (\<exists>old \<in> set (files (w_db w)). f_id old = i \<and> f_room_id old = r_id room \<and> f_status old = CONFIRMED \<and>
          rec = old\<lparr>f_download_count := f_download_count old + 1\<rparr>))
    (\<lambda>_ w'. w' = w) w"
proof (cases "authorize_download room actor")
  case (Inl e)
  then show ?thesis by (simp add: download_file_def wp_simps)
next
  case (Inr u)
  have inv: "db_inv exact cfg (w_seq w) (w_db w)" using g by (simp add: good_def)
  show ?thesis
    unfolding download_file_def wp_seq wp_of_sum Inr sum.case wp_bind [of "get_file _ _"]
    by (rule wp_mono [OF get_file_wp [OF g]])
      (auto simp: wp_simps increment_download_def db_inv_increment_download [OF inv])
qed

lemma db_inv_delete_file:
  assumes inv: "db_inv exact cfg sq d" and f: "f \<in> set (files d)" "f_status f = CONFIRMED"
    and room: "r \<in> set (rooms d)" "r_id r = f_room_id f"
  shows "db_inv exact cfg sq (upd_files (\<lambda>t. f_id t = f_id f) (\<lambda>t. t\<lparr>f_status := FILE_DELETED, f_updated_at := now\<rparr>)
    (upd_rooms (\<lambda>t. r_id t = f_room_id f) (\<lambda>t. t\<lparr>r_storage_used_bytes := r_storage_used_bytes t + - f_size_bytes f,
       r_file_count := r_file_count t + - 1, r_updated_at := now\<rparr>) d))"
proof -
  have "room_ok exact cfg d r" and "0 \<le> f_size_bytes f" using db_invD(5,6) [OF inv] room(1) f(1) by blast+
  then have lim: "live r \<Longrightarrow> r_storage_used_bytes r - f_size_bytes f \<le> max_room_storage_bytes cfg \<and>
      r_file_count r - 1 \<le> max_files_per_room cfg"
    by (auto simp: room_ok_def)
  have only: "r_id t = f_room_id f \<longleftrightarrow> t = r" if "t \<in> set (rooms d)" for t
    using room_by_id [OF inv room(1), of t] that room(2) by metis
  show ?thesis
    by (rule db_inv_recount [OF inv f(1) room])
      (use lim f only room(2) \<open>0 \<le> f_size_bytes f\<close> in
        \<open>auto simp: file_frame_def same_keys_def confirmed_bytes_def confirmed_one_def\<close>)
qed

lemma upd_files_rooms: "upd_rooms P h (upd_files R g d) = upd_files R g (upd_rooms P h d)"
  by (simp add: upd_rooms_def upd_files_def)

lemma delete_file_wp:
  fixes w :: "('st, 'z) world_scheme"
  assumes g: "good exact cfg w" and room: "room \<in> set (rooms (w_db w))"
    and del: "\<And>k. wp (delete_object bk k) (\<lambda>_. S k) (\<lambda>_ _. True) (w_store w)"
  shows "wp (delete_file bk room actor i)
    (\<lambda>rec w'. good exact cfg w' \<and> s_role actor = OWNER \<and> S (f_storage_key rec) (w_store w') \<and> w_now w' = w_now w \<and>
       f_status rec = FILE_DELETED \<and> f_id rec = i \<and>
       (\<exists>old \<in> set (files (w_db w)). f_id old = i \<and> f_room_id old = r_id room \<and> f_status old = CONFIRMED \<and>
          rec = old\<lparr>f_status := FILE_DELETED\<rparr>) \<and>
       files (w_db w') = upd (\<lambda>t. f_id t = i) (\<lambda>t. t\<lparr>f_status := FILE_DELETED, f_updated_at := w_now w\<rparr>) (files (w_db w)) \<and>
       sessions (w_db w') = sessions (w_db w) \<and> map r_user_count (rooms (w_db w')) = map r_user_count (rooms (w_db w)))
    (\<lambda>_ _. True) w"
proof (cases "s_role actor = OWNER")
  case False
  then show ?thesis by (simp add: delete_file_def wp_simps)
next
  case True
  have inv: "db_inv exact cfg (w_seq w) (w_db w)" using g by (simp add: good_def)
  have rest: "wp (seq (mark_deleted (f_id rec))
      (seq (update_storage_and_file_count (r_id room) (- f_size_bytes rec) (- 1))
      (bind (create_audit_event (Some (r_id room)) ''FILE_DELETED'' (Some [(''file_id'', JInt (f_id rec))])) (\<lambda>_.
       seq (on_store (delete_object bk (f_storage_key rec)))
       (ret (rec\<lparr>f_status := FILE_DELETED\<rparr>))))))
    (\<lambda>x w'. good exact cfg w' \<and> x = rec\<lparr>f_status := FILE_DELETED\<rparr> \<and> S (f_storage_key rec) (w_store w') \<and> w_now w' = w_now w \<and>
       files (w_db w') = upd (\<lambda>t. f_id t = f_id rec) (\<lambda>t. t\<lparr>f_status := FILE_DELETED, f_updated_at := w_now w\<rparr>) (files (w_db w)) \<and>
       sessions (w_db w') = sessions (w_db w) \<and> map r_user_count (rooms (w_db w')) = map r_user_count (rooms (w_db w)))
    (\<lambda>_ _. True) w"
    if rec: "rec \<in> set (files (w_db w))" "f_room_id rec = r_id room" "f_status rec = CONFIRMED" for rec
    using db_inv_delete_file [OF inv rec(1,3) room rec(2) [symmetric], of "w_now w"] rec(2)
    by (auto simp: wp_simps mark_deleted_def update_storage_and_file_count_def upd_files_rooms map_upd_key
        intro!: wp_mono [OF audit_wp [where cfg = cfg and exact = exact]] intro: wp_mono [OF del])
  show ?thesis
    unfolding delete_file_def wp_seq [of "guard _ _"] wp_guard wp_bind [of "get_file _ _"] if_P [OF True]
    by (rule wp_mono [OF get_file_wp [OF g]], elim conjE, hypsubst, rule wp_mono [OF rest]) (use True in auto)
qed


section \<open>What the object store holds\<close>

lemma counted_le:
  "counted cfg n cs end_exc = (out, e, m) \<Longrightarrow> n \<le> m"
proof (induction cs arbitrary: n out m)
  case (Cons c cs)
  then show ?case by (fastforce simp: Let_def split: sum.splits prod.splits)
qed simp

definition stored :: "('st \<Rightarrow> string \<Rightarrow> bytes option) \<Rightarrow> string \<Rightarrow> stream \<Rightarrow> int \<Rightarrow> 'st \<Rightarrow> bool" where
  "stored contents key chunks n st \<longleftrightarrow> snd chunks = None \<and> n = int (length (concat (fst chunks))) \<and>
     contents st key = Some (concat (fst chunks))"

lemma create_file_record_store:
  "wp (create_file_record i name key ct n sess ex) (\<lambda>x w'. w_store w' = w_store w) (\<lambda>e w'. is_py e \<and> w_store w' = w_store w) w"
  unfolding create_file_record_def wp_bind wp_utcnow by (simp add: insert_file_def Let_def wp_def)

context object_store
begin

text \<open>Staging that returns stored exactly the client's bytes; staging that raises a \<open>DropRoomError\<close>
  left no object under the key, unless the store refused the deletion.\<close>

lemma stage_upload_wp:
  "wp (stage_upload cfg bk fid key chunks)
    (\<lambda>(c, n) w'. 0 \<le> n \<and> n \<le> max_file_size_bytes cfg \<and> stored contents key chunks n (w_store w') \<and>
       (\<forall>k. k \<noteq> key \<longrightarrow> contents (w_store w') k = contents (w_store w) k) \<and> (\<exists>st. w' = w\<lparr>w_store := st\<rparr>))
    (\<lambda>e w'. (\<not> is_py e \<longrightarrow> contents (w_store w') key = None) \<and>
       (\<forall>k b. k \<noteq> key \<longrightarrow> contents (w_store w) k = Some b \<longrightarrow> contents (w_store w') k = Some b)) w"
proof -
  let ?Q = "\<lambda>(c, n) w'. 0 \<le> n \<and> n \<le> max_file_size_bytes cfg \<and> stored contents key chunks n (w_store w') \<and>
       (\<forall>k. k \<noteq> key \<longrightarrow> contents (w_store w') k = contents (w_store w) k) \<and> (\<exists>st. w' = w\<lparr>w_store := st\<rparr>)"
  let ?E = "\<lambda>e w'. (\<not> is_py e \<longrightarrow> contents (w_store w') key = None) \<and>
       (\<forall>k b. k \<noteq> key \<longrightarrow> contents (w_store w) k = Some b \<longrightarrow> contents (w_store w') k = Some b)"
  let ?h = "\<lambda>e. seq (cleanup_failed_upload bk fid key) (case e of Drop c d \<Rightarrow> raise (Drop c d)
             | Py x \<Rightarrow> raise (init_error DropRoomError ''Upload failed while writing to storage''))"
  have handler: "wp (?h e) ?Q ?E w'"
    if "\<forall>k b. k \<noteq> key \<longrightarrow> contents (w_store w) k = Some b \<longrightarrow> contents (w_store w') k = Some b" for e w'
    unfolding cleanup_failed_upload_def wp_seq wp_on_store
    by (rule wp_mono [OF delete_wp]) (use that in \<open>auto simp: wp_simps split: exc.split\<close>)
  show ?thesis
  proof (cases "anext_default chunks")
    case (Inl e)
    with handler [of w e] show ?thesis by (simp add: stage_upload_def wp_try wp_bind wp_of_sum)
  next
    case (Inr cr)
    obtain c rest where cr: "cr = (c, rest)" by (cases cr)
    note chunk = anext_default_Inr [OF Inr [unfolded cr]]
    obtain data n where src: "source cfg c rest = (data, n)" by (cases "source cfg c rest")
    have n: "0 \<le> n" using src by (auto simp: source_def Let_def split: prod.splits dest!: counted_le)
    have le: "n \<le> max_file_size_bytes cfg" if "check_size cfg (int (length c)) = Inr ()" "snd data = None"
      using src that by (auto simp: source_def Let_def check_size_def split: prod.splits if_splits dest!: counted_ok)
    have "check_size cfg (int (length c)) = Inr () \<Longrightarrow> wp (put bk key data) (\<lambda>m st. ?Q (c, n) (w\<lparr>w_store := st\<rparr>))
        (\<lambda>e st. wp (?h e) ?Q ?E (w\<lparr>w_store := st\<rparr>)) (w_store w)"
    proof (rule wp_mono [OF put_wp])
      fix m st
      assume "check_size cfg (int (length c)) = Inr ()" and "snd data = None \<and> m = int (length (concat (fst data))) \<and>
        contents st = (contents (w_store w))(key \<mapsto> concat (fst data))"
      then show "?Q (c, n) (w\<lparr>w_store := st\<rparr>)"
        using source_ok [OF src] chunk n le by (auto simp: stored_def)
    next
      fix e st
      assume "(snd data = Some e \<or> is_py e) \<and>
        (\<forall>k' b. k' \<noteq> key \<longrightarrow> contents (w_store w) k' = Some b \<longrightarrow> contents st k' = Some b)"
      then show "wp (?h e) ?Q ?E (w\<lparr>w_store := st\<rparr>)" by (intro handler) simp
    qed
    then show ?thesis
      using handler [of w] Inr cr src
      by (cases "check_size cfg (int (length c))")
        (simp_all add: stage_upload_def wp_try wp_bind wp_seq wp_of_sum wp_on_store wp_ret wp_case_prod)
  qed
qed

text \<open>A direct upload that returns has a CONFIRMED row whose size is the number of the client's bytes,
  and the store holds exactly those bytes under its key.\<close>

lemma upload_file_stored:
  assumes g: "good exact cfg w" and room: "room \<in> set (rooms (w_db w))"
  shows "wp (upload_file cfg bk key room actor filename content_type chunks)
    (\<lambda>rec w'. good exact cfg w' \<and> rec\<lparr>f_updated_at := w_now w\<rparr> \<in> set (files (w_db w')) \<and> f_status rec = CONFIRMED \<and>
       f_storage_key rec = key \<and> f_room_id rec = r_id room \<and> f_size_bytes rec \<le> max_file_size_bytes cfg \<and>
       stored contents key chunks (f_size_bytes rec) (w_store w'))
    (\<lambda>_ _. True) w"
  by (rule wp_mono [OF upload_file_wp [OF g room, where S = "stored contents key chunks"]])
    (auto intro!: wp_mono [OF stage_upload_wp])

lemma finish_upload_fails:
  assumes "n \<le> max_file_size_bytes cfg"
  shows "wp (finish_upload cfg bk room rec safe_name key content_type c n) (\<lambda>_ _. True)
    (\<lambda>e w'. (\<not> is_py e \<longrightarrow> contents (w_store w') key = None) \<and>
       (\<forall>k b. k \<noteq> key \<longrightarrow> contents (w_store w) k = Some b \<longrightarrow> contents (w_store w') k = Some b)) w"
  using assms
  by (auto simp: finish_upload_def wp_simps check_size_def Let_def cleanup_failed_upload_def
      intro!: wp_mono [OF delete_wp] wp_mono [OF audit_wp])

text \<open>An upload refused with a \<open>DropRoomError\<close> (permission, size, quota, a failing stream) leaves no
  object under its key, and no refused upload touches another object.\<close>

lemma upload_file_fails:
  assumes "contents (w_store w) key = None"
  shows "wp (upload_file cfg bk key room actor filename content_type chunks) (\<lambda>_ _. True)
    (\<lambda>e w'. (\<not> is_py e \<longrightarrow> contents (w_store w') key = None) \<and>
       (\<forall>k b. k \<noteq> key \<longrightarrow> contents (w_store w) k = Some b \<longrightarrow> contents (w_store w') k = Some b)) w"
proof (cases "authorize_upload room actor")
  case (Inl e)
  with assms show ?thesis by (simp add: upload_file_def wp_simps)
next
  case (Inr u)
  show ?thesis
    unfolding upload_file_def Let_def wp_seq wp_of_sum Inr sum.case wp_bind
    by (rule wp_mono [OF create_file_record_store], rule wp_mono [OF stage_upload_wp])
      (use assms in \<open>auto intro!: wp_mono [OF finish_upload_fails]\<close>)
qed

end


context object_store
begin

text \<open>A download streams exactly the bytes stored under the key of the row.\<close>

lemma download_file_bytes:
  assumes "good exact cfg w"
  shows "wp (download_file bk room actor i)
    (\<lambda>(rec, stream, size) w'. good exact cfg w' \<and> w_store w' = w_store w \<and> (\<forall>b. contents (w_store w) (f_storage_key rec) = Some b \<longrightarrow>
       snd stream = None \<and> concat (fst stream) = b \<and> [] \<notin> set (fst stream)))
    (\<lambda>_ w'. w' = w) w"
  by (rule wp_mono [OF download_file_wp [OF assms]]) (auto dest: get_some)

text \<open>Once a deletion has returned, the object is gone.\<close>

lemma delete_file_gone:
  assumes "good exact cfg w" and "room \<in> set (rooms (w_db w))"
  shows "wp (delete_file bk room actor i)
    (\<lambda>rec w'. good exact cfg w' \<and> contents (w_store w') (f_storage_key rec) = None \<and>
       (\<forall>f \<in> set (files (w_db w')). f_id f = i \<longrightarrow> f_status f = FILE_DELETED))
    (\<lambda>_ _. True) w"
proof -
  have del: "wp (delete_object bk k) (\<lambda>_ st. contents st k = None) (\<lambda>_ _. True) s" for k s
    by (rule wp_mono [OF delete_wp]) simp_all
  have gone: "f_status f = FILE_DELETED"
    if "f \<in> set (upd (\<lambda>t. f_id t = i) (\<lambda>t. t\<lparr>f_status := FILE_DELETED, f_updated_at := n\<rparr>) fs)" "f_id f = i" for f n fs
  proof -
    from that(1) obtain t where "f = (if f_id t = i then t\<lparr>f_status := FILE_DELETED, f_updated_at := n\<rparr> else t)"
      unfolding set_upd by blast
    with that(2) show ?thesis by (cases "f_id t = i") simp_all
  qed
  show ?thesis
  proof (rule wp_mono [OF delete_file_wp [OF assms, where S = "\<lambda>k st. contents st k = None", OF del]], elim conjE, intro conjI ballI impI)
    fix rec w' f
    assume "files (w_db w') = upd (\<lambda>t. f_id t = i) (\<lambda>t. t\<lparr>f_status := FILE_DELETED, f_updated_at := w_now w\<rparr>) (files (w_db w))"
      and "f \<in> set (files (w_db w'))" and "f_id f = i"
    then show "f_status f = FILE_DELETED" using gone by metis
  qed assumption+
qed

end

section \<open>Nothing but a commit reaches the committed database\<close>

lemma keeps_saved_file_ops [intro]:
  "keeps (saved_good exact cfg) (claim_quota cfg' i n)" "keeps (saved_good exact cfg) (orm_update_file i f)"
  "keeps (saved_good exact cfg) (create_file_record i name key ct n sess ex)" "keeps (saved_good exact cfg) (get_file_by_id i)"
  "keeps (saved_good exact cfg) (update_file i f)" "keeps (saved_good exact cfg) (cleanup_failed_upload bk i key)"
  unfolding claim_quota_def orm_update_file_def create_file_record_def get_file_by_id_def update_file_def
    cleanup_failed_upload_def
  by blast+

lemma keeps_case_exc [intro]:
  "(\<And>c d. keeps I (f c d)) \<Longrightarrow> (\<And>x. keeps I (g x)) \<Longrightarrow> keeps I (case e of Drop c d \<Rightarrow> f c d | Py x \<Rightarrow> g x)"
  by (cases e) simp_all

lemma keeps_saved_get_file [intro]: "keeps (saved_good exact cfg) (get_file room i)"
  unfolding get_file_def by blast

lemma keeps_saved_stage [intro]: "keeps (saved_good exact cfg) (stage_upload cfg' bk i key chunks)"
  unfolding stage_upload_def by (intro keeps_try keeps_bind keeps_case_prod keeps_seq) (auto split: prod.split)

lemma keeps_saved_finish [intro]: "keeps (saved_good exact cfg) (finish_upload cfg' bk room rec sn key ct c n)"
  unfolding finish_upload_def Let_def by blast

lemma keeps_saved_file_services [intro]:
  "keeps (saved_good exact cfg) (upload_file cfg' bk key room actor fn ct chunks)"
  "keeps (saved_good exact cfg) (download_file bk room actor i)"
  "keeps (saved_good exact cfg) (delete_file bk room actor i)"
  unfolding upload_file_def download_file_def delete_file_def increment_download_def mark_deleted_def
    update_storage_and_file_count_def Let_def
  by blast+

end
