(* ===== verification/Upload_Service.thy ===== *)
theory Upload_Service
  imports File_Service
begin

text \<open>
  \<open>services/upload_service.py\<close>: resumable uploads. The parts of an upload are objects of their own
  (\<open>part_key\<close>); completing an upload lists them, concatenates them under the final key, claims quota
  and confirms the row.
\<close>

section \<open>Part keys\<close>

definition part_key :: "string \<Rightarrow> int \<Rightarrow> string" where
  "part_key storage_key index = storage_key @ CHR ''.'' # fmt06d index"

text \<open>One entry of the comprehension for \<open>received\<close>: the suffix after the last dot, when it is made
  of digits, as a number.\<close>

definition part_index :: "string \<Rightarrow> exc + int option" where
  "part_index key = (case rsplit1 (CHR ''.'') key of
     None \<Rightarrow> Inl (Py IndexError)
   | Some (stem, suf) \<Rightarrow>
       if isdigit suf then (case py_int suf of None \<Rightarrow> Inl (Py ValueError) | Some i \<Rightarrow> Inr (Some i))
       else Inr None)"

text \<open>The dictionary built from the listed keys; a later key for the same number wins.\<close>

fun received_parts :: "string list \<Rightarrow> (int \<rightharpoonup> string) \<Rightarrow> exc + (int \<rightharpoonup> string)" where
  "received_parts [] m = Inr m"
| "received_parts (k # ks) m = (case part_index k of
     Inl e \<Rightarrow> Inl e
   | Inr None \<Rightarrow> received_parts ks m
   | Inr (Some i) \<Rightarrow> received_parts ks (m(i \<mapsto> k)))"

definition missing_parts :: "(int \<rightharpoonup> string) \<Rightarrow> int \<Rightarrow> int list" where
  "missing_parts received n = filter (\<lambda>i. received i = None) [0..n - 1]"

text \<open>Iterating several streams in turn.\<close>

fun concat_streams :: "stream list \<Rightarrow> stream" where
  "concat_streams [] = ([], None)"
| "concat_streams (s # ss) = (case snd s of
     Some e \<Rightarrow> (fst s, Some e)
   | None \<Rightarrow> (fst s @ fst (concat_streams ss), snd (concat_streams ss)))"

section \<open>Operations\<close>

text \<open>The module has copies of its own of the guard and of the statement that claims quota; they are the
  file service's and the repository's.\<close>

definition authorize_chunked_upload :: "room \<Rightarrow> session_rec \<Rightarrow> exc + unit" where
  "authorize_chunked_upload room actor =
     (if r_status room \<noteq> ACTIVE then Inl (init_error RoomExpired [])
      else if s_role actor \<noteq> OWNER \<and> \<not> r_guest_upload_enabled room
      then Inl (init_error PermissionDenied ''Guest uploads are disabled in this room'')
      else Inr ())"

definition chunked_claim_quota :: "settings \<Rightarrow> int \<Rightarrow> int \<Rightarrow> ('st, 'z, bool) action" where
  "chunked_claim_quota cfg room_id size_bytes =
     guarded_update (\<lambda>r. r_id r = room_id \<and> r_status r = ACTIVE \<and>
         r_file_count r < max_files_per_room cfg \<and>
         r_storage_used_bytes r + size_bytes \<le> max_room_storage_bytes cfg)
       (\<lambda>r. r\<lparr>r_storage_used_bytes := r_storage_used_bytes r + size_bytes,
             r_file_count := r_file_count r + 1\<rparr>)"

lemma same_guard [simp]: "authorize_chunked_upload = authorize_upload"
  by (simp add: fun_eq_iff authorize_chunked_upload_def authorize_upload_def)

lemma same_claim [simp]: "chunked_claim_quota = claim_quota"
  by (simp add: fun_eq_iff chunked_claim_quota_def claim_quota_def)

definition create_upload_session ::
  "settings \<Rightarrow> string \<Rightarrow> room \<Rightarrow> session_rec \<Rightarrow> string option \<Rightarrow> string option \<Rightarrow> int \<Rightarrow> int
   \<Rightarrow> ('st, 'z, file_rec) action" where
  "create_upload_session cfg storage_key room actor filename content_type total_size_bytes total_chunks =
     seq (of_sum (authorize_chunked_upload room actor))
     (seq (guard (0 < total_size_bytes \<and> total_size_bytes \<le> max_file_size_bytes cfg)
            (init_error FileTooLarge (''File exceeds the maximum size of ''
               @ str_int (max_file_size_bytes cfg) @ '' bytes'')))
     (seq (guard (0 < total_chunks \<and> total_chunks \<le> 100000) (init_error DropRoomError ''total_chunks out of bounds''))
     (bind (create_file_record (r_id room) (safe_filename filename) storage_key content_type 0
              (Some (s_id actor)) (Some (r_expires_at room + seconds 300))) (\<lambda>rec.
      seq (orm_update_file (f_id rec) (\<lambda>r. r\<lparr>f_total_size_bytes := Some total_size_bytes\<rparr>))
      (ret (rec\<lparr>f_total_size_bytes := Some total_size_bytes\<rparr>))))))"

definition store_chunk ::
  "settings \<Rightarrow> 'st storage_backend \<Rightarrow> file_rec \<Rightarrow> int \<Rightarrow> bytes \<Rightarrow> ('st, 'z, int) action" where
  "store_chunk cfg bk rec index chunk =
     seq (guard (f_status rec = PENDING) (init_error FileNotFound ''Upload session is not active''))
     (seq (guard (chunk \<noteq> []) (init_error DropRoomError ''Empty chunk''))
     (seq (guard (int (length chunk) \<le> upload_chunk_size_bytes cfg)
            (init_error FileTooLarge (''Chunk exceeds the maximum chunk size of ''
               @ str_int (upload_chunk_size_bytes cfg) @ '' bytes'')))
     (bind (on_store (put bk (part_key (f_storage_key rec) index) ([chunk], None))) (\<lambda>_.
      let size = f_size_bytes rec + int (length chunk) in
      seq (orm_update_file (f_id rec) (\<lambda>r. r\<lparr>f_size_bytes := size\<rparr>))
      (ret size)))))"

record upload_status =
  us_upload_id :: int
  us_filename :: string
  us_total_size_bytes :: int
  us_received_bytes :: int
  us_status :: FileStatus

definition session_status :: "file_rec \<Rightarrow> upload_status" where
  "session_status rec = \<lparr>us_upload_id = f_id rec, us_filename = f_original_filename rec,
     us_total_size_bytes = (case f_total_size_bytes rec of None \<Rightarrow> 0 | Some n \<Rightarrow> n),
     us_received_bytes = f_size_bytes rec, us_status = f_status rec\<rparr>"

definition delete_all :: "'st storage_backend \<Rightarrow> string list \<Rightarrow> ('st, 'z, unit) action" where
  "delete_all bk keys = for_each keys (\<lambda>k. on_store (delete_object bk k))"

text \<open>The \<open>try\<close> block: the merged object and its first chunk. A failure removes the object and is
  raised again.\<close>

definition merge_parts ::
  "'st storage_backend \<Rightarrow> string \<Rightarrow> string list \<Rightarrow> ('st, 'z, int \<times> bytes) action" where
  "merge_parts bk storage_key keys =
     try_except
       (bind (gets (\<lambda>w. concat_streams (map (\<lambda>k. get_stream bk k (w_store w)) keys))) (\<lambda>merged.
        bind (on_store (put bk storage_key merged)) (\<lambda>n.
        bind (gets (\<lambda>w. get_stream bk storage_key (w_store w))) (\<lambda>final.
        bind (of_sum (anext_default final)) (\<lambda>(first_chunk, rest).
        ret (n, first_chunk))))))
       (\<lambda>e. seq (on_store (delete_object bk storage_key)) (raise e))"

text \<open>What follows the \<open>try\<close> block: the size checks, the quota, the row, the parts.\<close>

definition finish_complete ::
  "settings \<Rightarrow> 'st storage_backend \<Rightarrow> room \<Rightarrow> file_rec \<Rightarrow> string list \<Rightarrow> int \<Rightarrow> bytes \<Rightarrow> ('st, 'z, file_rec) action" where
  "finish_complete cfg bk room rec parts n first_chunk =
     (let total_expected = (case f_total_size_bytes rec of None \<Rightarrow> 0 | Some n \<Rightarrow> n) in
       if n \<noteq> total_expected then
         seq (on_store (delete_object bk (f_storage_key rec)))
             (raise (init_error DropRoomError (''Size mismatch: expected '' @ str_int total_expected
                @ '' bytes, got '' @ str_int n)))
       else if n > max_file_size_bytes cfg then
         seq (on_store (delete_object bk (f_storage_key rec))) (raise (init_error FileTooLarge []))
       else
       bind (chunked_claim_quota cfg (r_id room) n) (\<lambda>claimed.
       if \<not> claimed then
         seq (on_store (delete_object bk (f_storage_key rec)))
         (seq (delete_all bk parts)
              (raise (init_error RoomStorageQuotaExceeded ''Room storage quota exceeded'')))
       else
         (let mime = fst (normalize_content_type first_chunk (f_content_type rec));
              confirm = (\<lambda>r. r\<lparr>f_content_type := Some mime, f_size_bytes := n, f_status := CONFIRMED\<rparr>) in
          seq (orm_update_file (f_id rec) confirm)
          (bind (create_audit_event (Some (r_id room)) ''FILE_UPLOADED''
                  (Some [(''file_id'', JInt (f_id rec)), (''name'', JStr (f_original_filename rec)),
                         (''size'', JInt n)])) (\<lambda>_.
           seq (delete_all bk parts) (ret (confirm rec)))))))"

definition complete_upload_session ::
  "settings \<Rightarrow> 'st storage_backend \<Rightarrow> room \<Rightarrow> session_rec \<Rightarrow> file_rec \<Rightarrow> int \<Rightarrow> ('st, 'z, file_rec) action" where
  "complete_upload_session cfg bk room actor rec expected_total_chunks =
     seq (guard (f_room_id rec = r_id room) (init_error FileNotFound []))
     (seq (of_sum (authorize_chunked_upload room actor))
     (seq (guard (f_status rec = PENDING) (init_error FileNotFound ''Upload session is not active''))
     (bind (gets (\<lambda>w. list_keys bk (f_storage_key rec @ ''.'') (w_store w))) (\<lambda>keys.
      bind (of_sum (received_parts keys Map.empty)) (\<lambda>received.
      let missing = missing_parts received expected_total_chunks;
          parts = map (\<lambda>i. the (received i)) [0..expected_total_chunks - 1] in
      seq (guard (missing = []) (init_error DropRoomError
             (''Upload incomplete: missing chunk(s) '' @ str_int_list (take 10 missing))))
      (bind (merge_parts bk (f_storage_key rec) parts) (\<lambda>(n, first_chunk).
       finish_complete cfg bk room rec parts n first_chunk)))))))"

definition cleanup_upload_parts :: "'st storage_backend \<Rightarrow> file_rec \<Rightarrow> ('st, 'z, string list) action" where
  "cleanup_upload_parts bk rec =
     bind (gets (\<lambda>w. list_keys bk (f_storage_key rec @ ''.'') (w_store w))) (\<lambda>keys.
     seq (delete_all bk keys) (ret keys))"

definition abort_upload_session ::
  "'st storage_backend \<Rightarrow> room \<Rightarrow> file_rec \<Rightarrow> ('st, 'z, unit) action" where
  "abort_upload_session bk room rec =
     seq (guard (f_room_id rec = r_id room) (init_error FileNotFound []))
     (bind (cleanup_upload_parts bk rec) (\<lambda>_.
      seq (exec (del_files (\<lambda>r. f_id r = f_id rec)))
      (bind (create_audit_event (Some (r_id room)) ''UPLOAD_ABORTED'' (Some [(''file_id'', JInt (f_id rec))])) (\<lambda>_.
       ret ()))))"

section \<open>Part keys and their numbers\<close>

lemma part_index_part_key:
  assumes "0 \<le> i"
  shows "part_index (part_key k i) = Inr (Some i)"
  using fmt06d_no_dot [OF assms] isdigit_fmt06d [OF assms] py_int_fmt06d [OF assms]
  by (simp add: part_index_def part_key_def rsplit1_snoc)

lemma part_key_inj:
  assumes "part_key k i = part_key l j" and "0 \<le> i" and "0 \<le> j"
  shows "k = l \<and> i = j"
proof -
  have "rsplit1 (CHR ''.'') (part_key k i) = Some (k, fmt06d i)"
    and "rsplit1 (CHR ''.'') (part_key l j) = Some (l, fmt06d j)"
    using assms(2,3) by (simp_all add: part_key_def rsplit1_snoc fmt06d_no_dot)
  with assms show ?thesis by (auto dest: fmt06d_inj)
qed

lemma part_key_prefix: "prefix (k @ ''.'') (part_key k i)"
  by (simp add: part_key_def)

lemma part_key_neq: "part_key k i \<noteq> k"
  by (simp add: part_key_def)

text \<open>When the listed keys are exactly the parts numbered by a set \<open>I\<close>, the dictionary maps each
  number of \<open>I\<close> to its part.\<close>

lemma received_parts_part_keys:
  assumes "set ks \<subseteq> part_key k ` {0..}"
  shows "received_parts ks m = Inr (\<lambda>i. if 0 \<le> i \<and> part_key k i \<in> set ks then Some (part_key k i) else m i)"
  using assms
proof (induction ks arbitrary: m)
  case (Cons x ks)
  then obtain i where i: "x = part_key k i" "0 \<le> i" by auto
  have "received_parts (x # ks) m = received_parts ks (m(i \<mapsto> part_key k i))"
    using i by (simp add: part_index_part_key)
  also have "\<dots> = Inr (\<lambda>j. if 0 \<le> j \<and> part_key k j \<in> set ks then Some (part_key k j) else (m(i \<mapsto> part_key k i)) j)"
    using Cons by simp
  also have "\<dots> = Inr (\<lambda>j. if 0 \<le> j \<and> part_key k j \<in> set (x # ks) then Some (part_key k j) else m j)"
    using i part_key_inj [of k _ k i] by (auto simp: fun_eq_iff)
  finally show ?case .
qed simp

lemma missing_parts_Nil: "missing_parts received n = [] \<longleftrightarrow> (\<forall>i. 0 \<le> i \<and> i < n \<longrightarrow> received i \<noteq> None)"
  by (auto simp: missing_parts_def filter_empty_conv)

lemma concat_streams_ok:
  "(\<And>s. s \<in> set ss \<Longrightarrow> snd s = None) \<Longrightarrow>
     snd (concat_streams ss) = None \<and> concat (fst (concat_streams ss)) = concat (map (\<lambda>s. concat (fst s)) ss)"
  by (induction ss) auto


section \<open>What the dictionary of parts holds\<close>

lemma received_parts_sound:
  assumes "received_parts ks m = Inr received" and "received i = Some k"
  shows "k \<in> set ks \<and> part_index k = Inr (Some i) \<or> m i = Some k"
  using assms
proof (induction ks arbitrary: m)
  case (Cons x ks)
  then show ?case
    by (auto split: sum.splits option.splits dest!: Cons.IH split: if_splits)
qed simp

section \<open>Uploads in parts against the object store\<close>

context object_store
begin

lemma delete_all_wp:
  "wp (delete_all bk ks)
    (\<lambda>_ w'. contents (w_store w') = (\<lambda>k. if k \<in> set ks then None else contents (w_store w) k) \<and> (\<exists>st. w' = w\<lparr>w_store := st\<rparr>))
    (\<lambda>e w'. is_py e \<and> (\<exists>st. w' = w\<lparr>w_store := st\<rparr>)) w"
  unfolding delete_all_def
proof (induction ks arbitrary: w)
  case Nil
  have "w = w\<lparr>w_store := w_store w\<rparr>" by simp
  then have "\<exists>st. w = w\<lparr>w_store := st\<rparr>" by (rule exI)
  then show ?case by (simp add: wp_ret)
next
  case (Cons k ks)
  show ?case
    unfolding for_each.simps wp_seq wp_on_store
  proof (rule wp_mono [OF delete_wp])
    fix u st assume "contents st = (contents (w_store w))(k := None)"
    then show "wp (for_each ks (\<lambda>k. on_store (delete_object bk k)))
      (\<lambda>_ w'. contents (w_store w') = (\<lambda>j. if j \<in> set (k # ks) then None else contents (w_store w) j) \<and>
         (\<exists>st. w' = w\<lparr>w_store := st\<rparr>))
      (\<lambda>e w'. is_py e \<and> (\<exists>st. w' = w\<lparr>w_store := st\<rparr>)) (w\<lparr>w_store := st\<rparr>)"
      by - (rule wp_mono [OF Cons.IH], auto simp: fun_eq_iff)
  qed auto
qed

lemma streams_of_parts:
  assumes "\<And>k. k \<in> set keys \<Longrightarrow> contents st k \<noteq> None"
  shows "snd (concat_streams (map (\<lambda>k. get_stream bk k st) keys)) = None \<and>
    concat (fst (concat_streams (map (\<lambda>k. get_stream bk k st) keys))) = concat (map (\<lambda>k. the (contents st k)) keys)"
proof -
  have one: "snd (get_stream bk k st) = None \<and> concat (fst (get_stream bk k st)) = the (contents st k)"
    if k: "k \<in> set keys" for k
  proof -
    obtain b where "contents st k = Some b" using assms [OF k] by blast
    with get_some [OF this] show ?thesis by simp
  qed
  have "map (\<lambda>s. concat (fst s)) (map (\<lambda>k. get_stream bk k st) keys) = map (\<lambda>k. the (contents st k)) keys"
    using one by simp
  moreover have "snd s = None" if "s \<in> set (map (\<lambda>k. get_stream bk k st) keys)" for s
    using that one by auto
  note concat_streams_ok [of "map (\<lambda>k. get_stream bk k st) keys", OF this]
  ultimately show ?thesis by (simp only:)
qed

lemma merge_parts_wp:
  assumes "\<And>k. k \<in> set keys \<Longrightarrow> contents (w_store w) k \<noteq> None"
  shows "wp (merge_parts bk key keys)
    (\<lambda>(n, c) w'. let b = concat (map (\<lambda>k. the (contents (w_store w) k)) keys) in
       n = int (length b) \<and> contents (w_store w') = (contents (w_store w))(key \<mapsto> b) \<and> (\<exists>rest. c @ rest = b) \<and>
       (\<exists>st. w' = w\<lparr>w_store := st\<rparr>))
    (\<lambda>e w'. is_py e \<and> (\<exists>st. w' = w\<lparr>w_store := st\<rparr>)) w"
proof -
  let ?m = "concat_streams (map (\<lambda>k. get_stream bk k (w_store w)) keys)"
  let ?b = "concat (map (\<lambda>k. the (contents (w_store w) k)) keys)"
  let ?Q = "\<lambda>(n, c) w'. let b = ?b in n = int (length b) \<and> contents (w_store w') = (contents (w_store w))(key \<mapsto> b) \<and>
       (\<exists>rest. c @ rest = b) \<and> (\<exists>st. w' = w\<lparr>w_store := st\<rparr>)"
  let ?E = "\<lambda>e w'. is_py e \<and> (\<exists>st. w' = w\<lparr>w_store := st\<rparr>)"
  let ?h = "\<lambda>e. seq (on_store (delete_object bk key)) (raise e)"
  note m = streams_of_parts [OF assms]
  have "wp (put bk key ?m)
      (\<lambda>n st. wp (of_sum (anext_default (get_stream bk key st)))
         (\<lambda>x. wp (case x of (first_chunk, rest) \<Rightarrow> ret (n, first_chunk)) ?Q (\<lambda>e. wp (?h e) ?Q ?E))
         (\<lambda>e. wp (?h e) ?Q ?E) (w\<lparr>w_store := st\<rparr>))
      (\<lambda>e st. wp (?h e) ?Q ?E (w\<lparr>w_store := st\<rparr>)) (w_store w)"
  proof (rule wp_mono [OF put_wp])
    fix n st
    assume "snd ?m = None \<and> n = int (length (concat (fst ?m))) \<and>
      contents st = (contents (w_store w))(key \<mapsto> concat (fst ?m))"
    with m have st: "n = int (length ?b)" "contents st = (contents (w_store w))(key \<mapsto> ?b)" by auto
    then have "contents st key = Some ?b" by simp
    note get = get_some [OF this]
    then obtain c rest where c: "anext_default (get_stream bk key st) = Inr (c, rest)"
      by (cases "get_stream bk key st"; cases "fst (get_stream bk key st)") (auto simp: anext_default_def)
    from anext_default_Inr [OF c] get have "c @ concat (fst rest) = ?b" by simp
    then have "\<exists>rest. c @ rest = ?b" by blast
    with c st show "wp (of_sum (anext_default (get_stream bk key st)))
      (\<lambda>x. wp (case x of (first_chunk, rest) \<Rightarrow> ret (n, first_chunk)) ?Q (\<lambda>e. wp (?h e) ?Q ?E))
      (\<lambda>e. wp (?h e) ?Q ?E) (w\<lparr>w_store := st\<rparr>)"
      by (auto simp: wp_simps)
  next
    fix e st
    assume "(snd ?m = Some e \<or> is_py e) \<and>
      (\<forall>k' b. k' \<noteq> key \<longrightarrow> contents (w_store w) k' = Some b \<longrightarrow> contents st k' = Some b)"
    with m have "is_py e" by auto
    then show "wp (?h e) ?Q ?E (w\<lparr>w_store := st\<rparr>)"
      unfolding wp_seq wp_on_store by - (rule wp_mono [OF delete_wp], auto simp: wp_raise)
  qed
  then show ?thesis
    by (simp add: merge_parts_def wp_try wp_bind wp_gets wp_on_store)
qed

end


context object_store
begin

lemma finish_complete_wp:
  assumes g: "good exact cfg w" and f: "rec \<in> set (files (w_db w))" "f_status rec = PENDING" "f_room_id rec = r_id room" and n: "0 \<le> n"
  shows "wp (finish_complete cfg bk room rec parts n c)
    (\<lambda>x w'. good exact cfg w' \<and> w_now w' = w_now w \<and> n \<le> max_file_size_bytes cfg \<and>
       contents (w_store w') = (\<lambda>k. if k \<in> set parts then None else contents (w_store w) k) \<and>
       n = (case f_total_size_bytes rec of None \<Rightarrow> 0 | Some t \<Rightarrow> t) \<and>
       x = rec\<lparr>f_content_type := Some (fst (normalize_content_type c (f_content_type rec))), f_size_bytes := n, f_status := CONFIRMED\<rparr> \<and>
       files (w_db w') = upd (\<lambda>r. f_id r = f_id rec) (\<lambda>r. r\<lparr>f_content_type := Some (fst (normalize_content_type c (f_content_type rec))),
            f_size_bytes := n, f_status := CONFIRMED, f_updated_at := w_now w\<rparr>) (files (w_db w)) \<and>
       sessions (w_db w') = sessions (w_db w) \<and> map r_user_count (rooms (w_db w')) = map r_user_count (rooms (w_db w)))
    (\<lambda>_ _. True) w"
proof -
  have inv: "db_inv exact cfg (w_seq w) (w_db w)" using g by (simp add: good_def)
  let ?P = "\<lambda>r. r_id r = f_room_id rec \<and> r_status r = ACTIVE \<and> r_file_count r < max_files_per_room cfg \<and>
    r_storage_used_bytes r + n \<le> max_room_storage_bytes cfg"
  note conf = db_inv_claim_confirm [OF inv f(1,2) n refl, where now = "w_now w"]
  show ?thesis
  proof (cases "n = (case f_total_size_bytes rec of None \<Rightarrow> 0 | Some t \<Rightarrow> t) \<and> n \<le> max_file_size_bytes cfg \<and>
      (\<exists>r \<in> set (rooms (w_db w)). ?P r)")
    case False
    then show ?thesis
      using f(3) by (auto simp: finish_complete_def wp_simps Let_def intro!: wp_any)
  next
    case True
    then have ex: "\<exists>r \<in> set (rooms (w_db w)). ?P r" by blast
    have row: "\<exists>r \<in> set (files (w_db w)). f_id r = f_id rec" using f(1) by blast
    have sz: "n = (case f_total_size_bytes rec of None \<Rightarrow> 0 | Some t \<Rightarrow> t)" "n \<le> max_file_size_bytes cfg"
      using True by simp_all
    show ?thesis
      unfolding finish_complete_def same_claim Let_def sz(1) [symmetric]
      using sz(2) ex row f(3) conf [OF ex]
      by (auto simp: wp_if wp_bind wp_seq wp_orm_update_file wp_claim_quota Let_def wp_ret map_upd_key
          intro!: wp_mono [OF audit_wp [where cfg = cfg and exact = exact]] wp_mono [OF delete_all_wp])
  qed
qed

end


text \<open>The bytes of the parts \<open>0 .. n - 1\<close> in the order of their numbers.\<close>

definition parts_bytes :: "('st \<Rightarrow> string \<Rightarrow> bytes option) \<Rightarrow> (int \<rightharpoonup> string) \<Rightarrow> int \<Rightarrow> 'st \<Rightarrow> bytes" where
  "parts_bytes contents received n st = concat (map (\<lambda>i. the (contents st (the (received i)))) [0..n - 1])"

context object_store
begin

lemma received_listed:
  assumes "received_parts (list_keys bk (key @ ''.'') st) Map.empty = Inr received"
    and "missing_parts received n = []" and "k \<in> set (map (\<lambda>i. the (received i)) [0..n - 1])"
  shows "contents st k \<noteq> None \<and> prefix (key @ ''.'') k"
proof -
  from assms(3) obtain i where i: "0 \<le> i" "i < n" "k = the (received i)" by auto
  with assms(2) obtain k' where k': "received i = Some k'" by (auto simp: missing_parts_Nil)
  with received_parts_sound [OF assms(1) k'] i(3) have "k \<in> set (list_keys bk (key @ ''.'') st)" by auto
  then show ?thesis by (simp add: list_keys_iff)
qed

lemma complete_upload_session_wp:
  assumes g: "good exact cfg w" and f: "rec \<in> set (files (w_db w))"
  shows "wp (complete_upload_session cfg bk room actor rec n)
    (\<lambda>x w'. good exact cfg w' \<and> w_now w' = w_now w \<and> f_status rec = PENDING \<and> f_room_id rec = r_id room \<and>
       authorize_upload room actor = Inr () \<and> f_status x = CONFIRMED \<and> f_id x = f_id rec \<and>
       f_storage_key x = f_storage_key rec \<and> f_size_bytes x \<le> max_file_size_bytes cfg \<and>
       f_size_bytes x = (case f_total_size_bytes rec of None \<Rightarrow> 0 | Some t \<Rightarrow> t) \<and>
       (\<exists>received. received_parts (list_keys bk (f_storage_key rec @ ''.'') (w_store w)) Map.empty = Inr received \<and>
          missing_parts received n = [] \<and>
          f_size_bytes x = int (length (parts_bytes contents received n (w_store w))) \<and>
          contents (w_store w') (f_storage_key rec) = Some (parts_bytes contents received n (w_store w)) \<and>
          (\<forall>i. 0 \<le> i \<longrightarrow> i < n \<longrightarrow> contents (w_store w') (the (received i)) = None)) \<and>
       (\<exists>ct. files (w_db w') = upd (\<lambda>r. f_id r = f_id rec) (\<lambda>r. r\<lparr>f_content_type := ct,
            f_size_bytes := f_size_bytes x, f_status := CONFIRMED, f_updated_at := w_now w\<rparr>) (files (w_db w))) \<and>
       sessions (w_db w') = sessions (w_db w) \<and> map r_user_count (rooms (w_db w')) = map r_user_count (rooms (w_db w)))
    (\<lambda>_ _. True) w"
proof (cases "f_room_id rec = r_id room \<and> authorize_upload room actor = Inr () \<and> f_status rec = PENDING")
  case False
  then show ?thesis by (cases "authorize_upload room actor") (auto simp: complete_upload_session_def wp_simps)
next
  case guards: True
  let ?keys = "list_keys bk (f_storage_key rec @ ''.'') (w_store w)"
  show ?thesis
  proof (cases "received_parts ?keys Map.empty")
    case (Inl e)
    with guards show ?thesis by (simp add: complete_upload_session_def wp_simps)
  next
    case (Inr received)
    let ?parts = "map (\<lambda>i. the (received i)) [0..n - 1]"
    show ?thesis
    proof (cases "missing_parts received n = []")
      case False
      with guards Inr show ?thesis by (simp add: complete_upload_session_def wp_simps Let_def)
    next
      case True
      note listed = received_listed [OF Inr True]
      have key: "f_storage_key rec \<notin> set ?parts"
        using listed [of "f_storage_key rec"] by (auto simp: prefix_def)
      have b: "concat (map (\<lambda>k. the (contents (w_store w) k)) ?parts) = parts_bytes contents received n (w_store w)"
        by (simp add: parts_bytes_def comp_def)
      show ?thesis
        using guards Inr True
        apply (simp add: complete_upload_session_def wp_guard wp_of_sum wp_gets wp_bind wp_seq Let_def)
        apply (rule wp_mono [OF merge_parts_wp])
          apply (use listed in blast)
        subgoal for nc t
          using g f guards key
          apply (cases nc)
          apply (clarsimp simp only: Let_def wp_case_prod b prod.case)
          apply (rule wp_mono [OF finish_complete_wp [where exact = exact]])
               apply (auto 0 2)
          done
        by simp
    qed
  qed
qed

end


text \<open>When the objects below the key are parts of the upload, the dictionary is the parts themselves.\<close>

context object_store
begin

lemma received_of_parts:
  assumes "\<And>k. contents st k \<noteq> None \<Longrightarrow> prefix (key @ ''.'') k \<Longrightarrow> k \<in> part_key key ` {0..}"
  shows "received_parts (list_keys bk (key @ ''.'') st) Map.empty =
    Inr (\<lambda>i. if 0 \<le> i \<and> contents st (part_key key i) \<noteq> None then Some (part_key key i) else None)"
proof -
  have "set (list_keys bk (key @ ''.'') st) \<subseteq> part_key key ` {0..}"
    using assms by (auto simp: list_keys_iff)
  from received_parts_part_keys [OF this, of Map.empty] show ?thesis
    by (auto simp: list_keys_iff part_key_prefix fun_eq_iff)
qed

text \<open>A completed upload is the concatenation of its parts in the order of their numbers, and the parts
  are gone.\<close>

lemma complete_upload_session_bytes:
  assumes "good exact cfg w" and "rec \<in> set (files (w_db w))"
    and "\<And>k. contents (w_store w) k \<noteq> None \<Longrightarrow> prefix (f_storage_key rec @ ''.'') k \<Longrightarrow> k \<in> part_key (f_storage_key rec) ` {0..}"
  shows "wp (complete_upload_session cfg bk room actor rec n)
    (\<lambda>x w'. good exact cfg w' \<and> f_status x = CONFIRMED \<and>
       (\<forall>i. 0 \<le> i \<longrightarrow> i < n \<longrightarrow> contents (w_store w) (part_key (f_storage_key rec) i) \<noteq> None \<and>
            contents (w_store w') (part_key (f_storage_key rec) i) = None) \<and>
       contents (w_store w') (f_storage_key rec)
         = Some (concat (map (\<lambda>i. the (contents (w_store w) (part_key (f_storage_key rec) i))) [0..n - 1])) \<and>
       f_size_bytes x = int (length (the (contents (w_store w') (f_storage_key rec)))))
    (\<lambda>_ _. True) w"
proof (rule wp_mono [OF complete_upload_session_wp [OF assms(1,2)]], elim conjE exE)
  fix x w' received ct
  let ?key = "f_storage_key rec"
  assume r: "received_parts (list_keys bk (?key @ ''.'') (w_store w)) Map.empty = Inr received"
    and miss: "missing_parts received n = []"
    and *: "good exact cfg w'" "f_status x = CONFIRMED"
      "f_size_bytes x = int (length (parts_bytes contents received n (w_store w)))"
      "contents (w_store w') ?key = Some (parts_bytes contents received n (w_store w))"
      "\<forall>i. 0 \<le> i \<longrightarrow> i < n \<longrightarrow> contents (w_store w') (the (received i)) = None"
  have rec: "received = (\<lambda>i. if 0 \<le> i \<and> contents (w_store w) (part_key ?key i) \<noteq> None then Some (part_key ?key i) else None)"
    using r received_of_parts [of "w_store w" ?key, OF assms(3)] by simp
  have have_part: "contents (w_store w) (part_key ?key i) \<noteq> None \<and> the (received i) = part_key ?key i"
    if "0 \<le> i" "i < n" for i
    using miss that by (auto simp: missing_parts_Nil rec split: if_splits)
  then have "parts_bytes contents received n (w_store w)
      = concat (map (\<lambda>i. the (contents (w_store w) (part_key ?key i))) [0..n - 1])"
    unfolding parts_bytes_def by (intro arg_cong [where f = concat] map_cong) simp_all
  with * have_part show "good exact cfg w' \<and> f_status x = CONFIRMED \<and>
       (\<forall>i. 0 \<le> i \<longrightarrow> i < n \<longrightarrow> contents (w_store w) (part_key ?key i) \<noteq> None \<and>
            contents (w_store w') (part_key ?key i) = None) \<and>
       contents (w_store w') ?key = Some (concat (map (\<lambda>i. the (contents (w_store w) (part_key ?key i))) [0..n - 1])) \<and>
       f_size_bytes x = int (length (the (contents (w_store w') ?key)))"
    by auto
qed simp

end


section \<open>The other operations keep the invariant\<close>

lemma db_inv_upd_pending:
  assumes inv: "db_inv exact cfg sq d" and g: "file_frame g" "\<And>f. f_status (g f) = f_status f"
    and f: "f \<in> set (files d)" "f_status f \<noteq> CONFIRMED" "0 \<le> f_size_bytes (g f)"
  shows "db_inv exact cfg sq (upd_files (\<lambda>t. f_id t = f_id f) g d)"
proof (rule db_inv_upd_files [OF inv g(1)])
  fix t assume t: "t \<in> set (files d)" "f_id t = f_id f"
  then have "t = f" using distinct_key_unique [OF db_invD(3) [OF inv] t(1) f(1)] by blast
  with f g(2) show "0 \<le> f_size_bytes (g t) \<and>
      (\<forall>i. confirmed_bytes i (g t) = confirmed_bytes i t \<and> confirmed_one i (g t) = confirmed_one i t)"
    by (simp add: confirmed_bytes_def confirmed_one_def)
qed

lemma create_upload_session_wp:
  fixes w :: "('st, 'z) world_scheme"
  assumes g: "good exact cfg w" and room: "room \<in> set (rooms (w_db w))"
  shows "wp (create_upload_session cfg key room actor filename ct tsize chunks)
    (\<lambda>rec w'. good exact cfg w' \<and> w_store w' = w_store w \<and> w_now w' = w_now w \<and> authorize_upload room actor = Inr () \<and>
       0 < tsize \<and> tsize \<le> max_file_size_bytes cfg \<and> 0 < chunks \<and> chunks \<le> 100000 \<and>
       f_status rec = PENDING \<and> f_size_bytes rec = 0 \<and> f_total_size_bytes rec = Some tsize \<and> f_storage_key rec = key \<and>
       f_room_id rec = r_id room \<and> files (w_db w') = files (w_db w) @ [rec\<lparr>f_updated_at := w_now w\<rparr>] \<and>
       rooms (w_db w') = rooms (w_db w) \<and> sessions (w_db w') = sessions (w_db w))
    (\<lambda>_ _. True) w"
proof (cases "authorize_upload room actor = Inr () \<and> 0 < tsize \<and> tsize \<le> max_file_size_bytes cfg \<and> 0 < chunks \<and> chunks \<le> 100000")
  case False
  then show ?thesis by (cases "authorize_upload room actor") (auto simp: create_upload_session_def wp_simps)
next
  case ok: True
  then have op: "open_room (r_id room) (w_db w)"
    using room by (auto simp: authorize_upload_def open_room_def split: if_splits)
  have rest: "good exact cfg (t\<lparr>w_db := upd_files (\<lambda>r. f_id r = f_id x) (\<lambda>r. r\<lparr>f_total_size_bytes := Some tsize, f_updated_at := n\<rparr>) (w_db t)\<rparr>) \<and>
      upd (\<lambda>r. f_id r = f_id x) (\<lambda>r. r\<lparr>f_total_size_bytes := Some tsize, f_updated_at := n\<rparr>) (files (w_db t))
        = files (w_db w) @ [x\<lparr>f_total_size_bytes := Some tsize, f_updated_at := n\<rparr>]"
    if t: "good exact cfg t" "w_db t = (w_db w)\<lparr>files := files (w_db w) @ [x]\<rparr>" and x: "f_status x = PENDING" "f_size_bytes x = 0"
    for x n and t :: "('st, 'z) world_scheme"
  proof
    have inv: "db_inv exact cfg (w_seq t) (w_db t)" using t(1) by (simp add: good_def)
    show "good exact cfg (t\<lparr>w_db := upd_files (\<lambda>r. f_id r = f_id x) (\<lambda>r. r\<lparr>f_total_size_bytes := Some tsize, f_updated_at := n\<rparr>) (w_db t)\<rparr>)"
      unfolding good_db by (rule db_inv_upd_pending [OF inv]) (simp_all add: file_frame_def t x)
    have "distinct (map f_id (files (w_db w) @ [x]))" using db_invD(3) [OF inv] t by simp
    then have "\<And>r. r \<in> set (files (w_db w)) \<Longrightarrow> f_id r \<noteq> f_id x" by (auto simp: image_iff)
    then show "upd (\<lambda>r. f_id r = f_id x) (\<lambda>r. r\<lparr>f_total_size_bytes := Some tsize, f_updated_at := n\<rparr>) (files (w_db t))
        = files (w_db w) @ [x\<lparr>f_total_size_bytes := Some tsize, f_updated_at := n\<rparr>]"
      by (simp add: t upd_append upd_none)
  qed
  show ?thesis
    using ok
    apply (simp add: create_upload_session_def wp_seq wp_guard wp_of_sum wp_bind)
    apply (rule wp_mono [OF create_file_record_wp [OF g op]])
      apply (simp_all add: wp_simps Let_def)
    subgoal for x t using rest [of t x "w_now w"] by auto
    done
qed

lemma store_chunk_wp:
  fixes w :: "('st, 'z) world_scheme"
  assumes g: "good exact cfg w" and f: "rec \<in> set (files (w_db w))"
    and put: "\<And>k. wp (put bk k ([chunk], None)) (\<lambda>_. S k) (\<lambda>_ _. True) (w_store w)"
  shows "wp (store_chunk cfg bk rec index chunk)
    (\<lambda>n w'. good exact cfg w' \<and> S (part_key (f_storage_key rec) index) (w_store w') \<and> w_now w' = w_now w \<and>
       f_status rec = PENDING \<and> n = f_size_bytes rec + int (length chunk) \<and> chunk \<noteq> [] \<and>
       int (length chunk) \<le> upload_chunk_size_bytes cfg \<and>
       files (w_db w') = upd (\<lambda>r. f_id r = f_id rec) (\<lambda>r. r\<lparr>f_size_bytes := n, f_updated_at := w_now w\<rparr>) (files (w_db w)) \<and>
       rooms (w_db w') = rooms (w_db w) \<and> sessions (w_db w') = sessions (w_db w))
    (\<lambda>_ _. True) w"
proof (cases "f_status rec = PENDING \<and> chunk \<noteq> [] \<and> int (length chunk) \<le> upload_chunk_size_bytes cfg")
  case False
  then show ?thesis by (auto simp: store_chunk_def wp_simps)
next
  case True
  have inv: "db_inv exact cfg (w_seq w) (w_db w)" using g by (simp add: good_def)
  let ?n = "f_size_bytes rec + int (length chunk)"
  have "0 \<le> f_size_bytes rec" using db_invD(6) [OF inv f] .
  then have "db_inv exact cfg (w_seq w) (upd_files (\<lambda>r. f_id r = f_id rec) (\<lambda>r. r\<lparr>f_size_bytes := ?n, f_updated_at := w_now w\<rparr>) (w_db w))"
    using True f by (intro db_inv_upd_pending [OF inv]) (simp_all add: file_frame_def)
  moreover have "\<exists>r \<in> set (files (w_db w)). f_id r = f_id rec" using f by blast
  ultimately show ?thesis
    using True by (auto simp: store_chunk_def wp_simps Let_def intro!: wp_mono [OF put])
qed

text \<open>Aborting keeps the counters exact only for an upload that was not confirmed yet.\<close>

lemma db_inv_abort:
  assumes inv: "db_inv exact cfg sq d" and f: "f \<in> set (files d)" and "exact \<Longrightarrow> f_status f \<noteq> CONFIRMED"
  shows "db_inv exact cfg sq (del_files (\<lambda>t. f_id t = f_id f) d)"
proof (cases "f_status f = CONFIRMED")
  case False
  have "x = f" if "x \<in> set (files d)" "f_id x = f_id f" for x
    using distinct_key_unique [OF db_invD(3) [OF inv] that(1) f that(2)] .
  with False show ?thesis by (intro db_inv_del_files [OF inv]) blast
next
  case True
  then have e: "\<not> exact" using assms(3) by blast
  have used: "used_bytes i (del_files (\<lambda>t. f_id t = f_id f) d) \<le> used_bytes i d"
    "used_files i (del_files (\<lambda>t. f_id t = f_id f) d) \<le> used_files i d" for i
    using used_del_file [OF db_invD(3) [OF inv] f, of i] db_invD(6) [OF inv f]
    by (simp_all add: confirmed_bytes_def confirmed_one_def)
  have "room_ok exact cfg (del_files (\<lambda>t. f_id t = f_id f) d) r" if "r \<in> set (rooms d)" for r
    using db_invD(5) [OF inv that] used [of "r_id r"] e
    by (auto simp: room_ok_def counters_ok_def wiped_def)
  with inv show ?thesis
    by (auto simp: db_inv_def tables_ok_def uniques_ok_def refs_ok_def keys_ok_del distinct_map_del)
qed

lemma delete_all_frame: "wp (delete_all bk ks) (\<lambda>_ w'. \<exists>st. w' = w\<lparr>w_store := st\<rparr>) (\<lambda>_ _. True) w"
  unfolding delete_all_def
proof (induction ks arbitrary: w)
  case Nil
  have "\<exists>st. w = w\<lparr>w_store := st\<rparr>" by (rule exI [of _ "w_store w"]) simp
  then show ?case by (simp add: wp_ret)
next
  case (Cons k ks)
  have "wp (for_each ks (\<lambda>k. on_store (delete_object bk k))) (\<lambda>_ w'. \<exists>st. w' = w\<lparr>w_store := st\<rparr>) (\<lambda>_ _. True) (w\<lparr>w_store := st\<rparr>)" for st
    by (rule wp_mono [OF Cons.IH]) auto
  then show ?case by (auto simp: wp_seq wp_on_store intro!: wp_any)
qed

lemma abort_upload_session_wp:
  assumes g: "good exact cfg w" and f: "rec \<in> set (files (w_db w))" and e: "exact \<Longrightarrow> f_status rec \<noteq> CONFIRMED"
  shows "wp (abort_upload_session bk room rec)
    (\<lambda>_ w'. good exact cfg w' \<and> f_room_id rec = r_id room \<and> w_now w' = w_now w \<and>
       files (w_db w') = del (\<lambda>r. f_id r = f_id rec) (files (w_db w)) \<and>
       rooms (w_db w') = rooms (w_db w) \<and> sessions (w_db w') = sessions (w_db w))
    (\<lambda>_ _. True) w"
proof -
  have "db_inv exact cfg (w_seq w) (w_db w)" using g by (simp add: good_def)
  from db_inv_abort [OF this f e] show ?thesis
    by (auto simp: abort_upload_session_def cleanup_upload_parts_def wp_simps
        intro!: wp_mono [OF delete_all_frame] wp_mono [OF audit_wp [where cfg = cfg and exact = exact]])
qed


lemma keeps_saved_upload_ops [intro]:
  "keeps (saved_good exact cfg) (delete_all bk ks)" "keeps (saved_good exact cfg) (merge_parts bk key ks)"
  "keeps (saved_good exact cfg) (cleanup_upload_parts bk rec)"
  unfolding delete_all_def merge_parts_def cleanup_upload_parts_def by blast+

lemma keeps_saved_finish_complete [intro]:
  "keeps (saved_good exact cfg) (finish_complete cfg' bk room rec ks n c)"
  unfolding finish_complete_def same_claim Let_def by blast

lemma keeps_saved_upload_services [intro]:
  "keeps (saved_good exact cfg) (create_upload_session cfg' key room actor fn ct n m)"
  "keeps (saved_good exact cfg) (store_chunk cfg' bk rec i chunk)"
  "keeps (saved_good exact cfg) (complete_upload_session cfg' bk room actor rec n)"
  "keeps (saved_good exact cfg) (abort_upload_session bk room rec)"
  unfolding create_upload_session_def same_guard store_chunk_def complete_upload_session_def abort_upload_session_def Let_def
  by blast+

end
