(* ===== verification/Cleanup_Service.thy ===== *)
theory Cleanup_Service
  imports Upload_Service
begin

text \<open>
  \<open>services/cleanup_service.py\<close>: room teardown and the sweeps. \<open>cleanup_room\<close> takes the row its
  caller loaded; only its status and id are read, the transitions themselves are guarded updates.
\<close>

definition sweep_deleted_objects :: "'st storage_backend \<Rightarrow> ('st, 'z, unit) action" where
  "sweep_deleted_objects bk =
     bind (query (\<lambda>d. take 500 (sel (\<lambda>f. f_status f = FILE_DELETED) (files d)))) (\<lambda>recs.
     for_each recs (\<lambda>rec. on_store (delete_object bk (f_storage_key rec))))"

definition sweep_stale_pending :: "'st storage_backend \<Rightarrow> ('st, 'z, unit) action" where
  "sweep_stale_pending bk =
     bind utcnow (\<lambda>now.
     bind (query (\<lambda>d. sel (\<lambda>f. f_status f = PENDING \<and> f_created_at f < now - hours 24) (files d))) (\<lambda>recs.
     for_each recs (\<lambda>rec. seq (on_store (delete_object bk (f_storage_key rec)))
                              (exec (del_files (\<lambda>f. f_id f = f_id rec))))))"

definition delete_content :: "'st storage_backend \<Rightarrow> int \<Rightarrow> ('st, 'z, unit) action" where
  "delete_content bk room_id =
     bind (list_room_storage_keys room_id) (\<lambda>keys.
     seq (delete_all bk keys)
     (seq (delete_file_records room_id)
     (seq (delete_messages_by_room room_id)
     (bind (delete_by_room room_id) (\<lambda>_.
      exec (\<lambda>d. d\<lparr>audit_events := del (\<lambda>a. a_room_id a = Some room_id) (audit_events d)\<rparr>))))))"

definition cleanup_room :: "'st storage_backend \<Rightarrow> room \<Rightarrow> ('st, 'z, bool) action" where
  "cleanup_room bk room =
     seq (if r_status room = ACTIVE then bind (mark_room_expired (r_id room)) (\<lambda>changed. ret ()) else ret ())
     (bind (mark_room_deleting (r_id room)) (\<lambda>won.
      if \<not> won then ret False
      else seq (delete_content bk (r_id room))
          (bind (mark_room_deleted (r_id room)) (\<lambda>_. ret True))))"

definition force_delete_room :: "'st storage_backend \<Rightarrow> room \<Rightarrow> ('st, 'z, bool) action" where
  "force_delete_room bk room = cleanup_room bk room"

fun cleanup_rooms :: "'st storage_backend \<Rightarrow> room list \<Rightarrow> room list \<Rightarrow> ('st, 'z, room list) action" where
  "cleanup_rooms bk [] cleaned = ret cleaned"
| "cleanup_rooms bk (room # rest) cleaned =
     bind (try_except
            (bind (cleanup_room bk room) (\<lambda>ok. ret (if ok then cleaned @ [room] else cleaned)))
            (\<lambda>e. seq rollback (ret cleaned)))
       (\<lambda>cleaned'. cleanup_rooms bk rest cleaned')"

definition run_cleanup_pass :: "'st storage_backend \<Rightarrow> ('st, 'z, room list) action" where
  "run_cleanup_pass bk =
     seq (sweep_deleted_objects bk)
     (seq (sweep_stale_pending bk)
     (bind list_rooms_pending_cleanup (\<lambda>rs. cleanup_rooms bk rs [])))"


section \<open>Teardown keeps the invariant\<close>

lemma delete_sessions_room_ids:
  "f_room_id ` set (files (delete_sessions P d)) = f_room_id ` set (files d)"
  "m_room_id ` set (messages (delete_sessions P d)) = m_room_id ` set (messages d)"
proof -
  have "map f_room_id (files (delete_sessions P d)) = map f_room_id (files d)"
    and "map m_room_id (messages (delete_sessions P d)) = map m_room_id (messages d)"
    by (simp_all add: delete_sessions_def Let_def map_upd_key)
  then show "f_room_id ` set (files (delete_sessions P d)) = f_room_id ` set (files d)"
    and "m_room_id ` set (messages (delete_sessions P d)) = m_room_id ` set (messages d)"
    by (metis list.set_map)+
qed

text \<open>The database after \<open>_delete_content\<close>.\<close>

definition wipe :: "int \<Rightarrow> database \<Rightarrow> database" where
  "wipe i d = (let d1 = del_files (\<lambda>f. f_room_id f = i) d;
                   d2 = delete_sessions (\<lambda>s. s_room_id s = i) (d1\<lparr>messages := del (\<lambda>m. m_room_id m = i) (messages d1)\<rparr>)
               in d2\<lparr>audit_events := del (\<lambda>a. a_room_id a = Some i) (audit_events d2)\<rparr>)"

lemma wipe_simps [simp]:
  "rooms (wipe i d) = rooms d" "sessions (wipe i d) = del (\<lambda>s. s_room_id s = i) (sessions d)"
  by (simp_all add: wipe_def Let_def)

lemma wiped_wipe: "wiped i (wipe i d)"
  using delete_sessions_room_ids [of "\<lambda>s. s_room_id s = i"]
  by (auto simp: wiped_def wipe_def Let_def)

lemma db_inv_wipe:
  assumes inv: "db_inv exact cfg sq d"
    and dead: "\<And>r. r \<in> set (rooms d) \<Longrightarrow> r_id r = i \<Longrightarrow> \<not> live r"
  shows "db_inv exact cfg sq (wipe i d)"
proof -
  have "db_inv exact cfg sq (del_files (\<lambda>f. f_room_id f = i) d)"
    by (rule db_inv_del_files [OF inv]) (use dead in auto)
  from db_inv_del_messages [OF this, of "\<lambda>m. m_room_id m = i"] show ?thesis
    unfolding wipe_def Let_def db_inv_audit by (rule db_inv_delete_sessions)
qed

lemma delete_content_wp:
  fixes w :: "('st, 'z) world_scheme"
  assumes "\<And>ks (w1 :: ('st, 'z) world_scheme). w_store w1 = w_store w \<Longrightarrow>
      wp (delete_all bk ks) (\<lambda>_ w'. S ks (w_store w') \<and> (\<exists>st. w' = w1\<lparr>w_store := st\<rparr>)) (\<lambda>_ _. True) w1"
  shows "wp (delete_content bk i)
    (\<lambda>_ w'. \<exists>st. S (map f_storage_key (sel (\<lambda>f. f_room_id f = i) (files (w_db w)))) st \<and>
       w' = w\<lparr>w_db := wipe i (w_db w), w_store := st\<rparr>) (\<lambda>_ _. True) w"
  unfolding delete_content_def list_room_storage_keys_def wp_bind wp_query wp_seq
  by (rule wp_mono [OF assms])
    (auto simp: wp_simps delete_file_records_def delete_messages_by_room_def delete_by_room_def wipe_def Let_def)

lemma room_ok_status:
  "room_ok exact cfg d r \<Longrightarrow> s \<noteq> DELETED \<or> wiped (r_id r) d \<Longrightarrow> (live (r\<lparr>r_status := s\<rparr>) \<Longrightarrow> live r) \<Longrightarrow>
     room_ok exact cfg d (r\<lparr>r_status := s\<rparr>)"
  by (auto simp: room_ok_def counters_ok_def)

definition marked :: "int \<Rightarrow> RoomStatus \<Rightarrow> RoomStatus \<Rightarrow> int \<Rightarrow> database \<Rightarrow> database" where
  "marked i a b now d = upd_rooms (\<lambda>r. r_id r = i \<and> r_status r = a) (\<lambda>r. r\<lparr>r_status := b, r_updated_at := now\<rparr>) d"

lemma wp_marks [wp_simps]:
  "wp (mark_room_expired i) Q E w = Q (\<exists>r \<in> set (rooms (w_db w)). r_id r = i \<and> r_status r = ACTIVE)
     (w\<lparr>w_db := marked i ACTIVE EXPIRED (w_now w) (w_db w)\<rparr>)"
  "wp (mark_room_deleting i) Q E w = Q (\<exists>r \<in> set (rooms (w_db w)). r_id r = i \<and> r_status r = EXPIRED)
     (w\<lparr>w_db := marked i EXPIRED DELETING (w_now w) (w_db w)\<rparr>)"
  "wp (mark_room_deleted i) Q E w = Q (\<exists>r \<in> set (rooms (w_db w)). r_id r = i \<and> r_status r = DELETING)
     (w\<lparr>w_db := marked i DELETING DELETED (w_now w) (w_db w)\<rparr>)"
  by (simp_all add: mark_room_expired_def mark_room_deleting_def mark_room_deleted_def wp_simps marked_def)

lemma marked_simps [simp]:
  "sessions (marked i a b n d) = sessions d" "files (marked i a b n d) = files d"
  "messages (marked i a b n d) = messages d" "map r_user_count (rooms (marked i a b n d)) = map r_user_count (rooms d)"
  by (simp_all add: marked_def map_upd_key)

lemma db_inv_marked:
  assumes "db_inv exact cfg sq d" and "b \<noteq> DELETED \<or> wiped i d" and "b = ACTIVE \<or> b = EXPIRED \<Longrightarrow> a = ACTIVE \<or> a = EXPIRED"
  shows "db_inv exact cfg sq (marked i a b now d)"
  unfolding marked_def
  by (rule db_inv_guarded [OF assms(1)])
    (use assms(2,3) in \<open>auto simp: same_keys_def live_def intro!: room_ok_status\<close>)

lemma marked_status:
  assumes "db_inv exact cfg sq d" and "\<exists>r \<in> set (rooms d). r_id r = i \<and> r_status r = a"
    and "r \<in> set (rooms (marked i a b now d))" and "r_id r = i"
  shows "r_status r = b"
proof -
  from assms(2) obtain r0 where r0: "r0 \<in> set (rooms d)" "r_id r0 = i" "r_status r0 = a" by blast
  from assms(3) obtain t where t: "t \<in> set (rooms d)" "r = (if r_id t = i \<and> r_status t = a then t\<lparr>r_status := b, r_updated_at := now\<rparr> else t)"
    unfolding marked_def upd_rooms_simps set_upd by blast
  then have "r_id t = i" using assms(4) by (auto split: if_splits)
  then have "t = r0" using room_by_id [OF assms(1) r0(1), of t] t(1) r0(2) by simp
  with t r0 show ?thesis by simp
qed


text \<open>One teardown: either this call wins the transition to DELETING, and then everything of the room is
  gone, or it changes no row but the expiry mark.\<close>

lemma cleanup_room_wp:
  fixes w :: "('st, 'z) world_scheme"
  assumes g: "good exact cfg w"
    and dels: "\<And>ks (w1 :: ('st, 'z) world_scheme). w_store w1 = w_store w \<Longrightarrow>
      wp (delete_all bk ks) (\<lambda>_ w'. S ks (w_store w') \<and> (\<exists>st. w' = w1\<lparr>w_store := st\<rparr>)) (\<lambda>_ _. True) w1"
  shows "wp (cleanup_room bk room)
    (\<lambda>won w'. good exact cfg w' \<and> w_now w' = w_now w \<and>
       map r_user_count (rooms (w_db w')) = map r_user_count (rooms (w_db w)) \<and>
       (if won then S (map f_storage_key (sel (\<lambda>f. f_room_id f = r_id room) (files (w_db w)))) (w_store w') \<and>
            wiped (r_id room) (w_db w') \<and> sessions (w_db w') = del (\<lambda>s. s_room_id s = r_id room) (sessions (w_db w)) \<and>
            (\<forall>r \<in> set (rooms (w_db w')). r_id r = r_id room \<longrightarrow> r_status r = DELETED)
        else w_store w' = w_store w \<and> files (w_db w') = files (w_db w) \<and> messages (w_db w') = messages (w_db w) \<and>
            sessions (w_db w') = sessions (w_db w)))
    (\<lambda>_ _. True) w"
proof -
  let ?i = "r_id room"
  let ?Q = "\<lambda>won w'. good exact cfg w' \<and> w_now w' = w_now w \<and>
       map r_user_count (rooms (w_db w')) = map r_user_count (rooms (w_db w)) \<and>
       (if won then S (map f_storage_key (sel (\<lambda>f. f_room_id f = r_id room) (files (w_db w)))) (w_store w') \<and>
            wiped (r_id room) (w_db w') \<and> sessions (w_db w') = del (\<lambda>s. s_room_id s = r_id room) (sessions (w_db w)) \<and>
            (\<forall>r \<in> set (rooms (w_db w')). r_id r = r_id room \<longrightarrow> r_status r = DELETED)
        else w_store w' = w_store w \<and> files (w_db w') = files (w_db w) \<and> messages (w_db w') = messages (w_db w) \<and>
            sessions (w_db w') = sessions (w_db w))"
  have main: "wp (bind (mark_room_deleting ?i) (\<lambda>won. if \<not> won then ret False
      else seq (delete_content bk ?i) (bind (mark_room_deleted ?i) (\<lambda>_. ret True)))) ?Q (\<lambda>_ _. True) v"
    if v: "good exact cfg v" "w_store v = w_store w" "w_now v = w_now w" "files (w_db v) = files (w_db w)"
      "messages (w_db v) = messages (w_db w)" "sessions (w_db v) = sessions (w_db w)"
      "map r_user_count (rooms (w_db v)) = map r_user_count (rooms (w_db w))" for v :: "('st, 'z) world_scheme"
  proof -
    let ?won = "\<exists>r \<in> set (rooms (w_db v)). r_id r = ?i \<and> r_status r = EXPIRED"
    let ?d = "marked ?i EXPIRED DELETING (w_now v) (w_db v)"
    have inv: "db_inv exact cfg (w_seq v) (w_db v)" using v(1) by (simp add: good_def)
    then have invd: "db_inv exact cfg (w_seq v) ?d" by (rule db_inv_marked) simp_all
    show ?thesis
    proof (cases ?won)
      case False
      with v invd show ?thesis by (simp add: wp_simps)
    next
      case True
      have dead: "r_status r = DELETING" if "r \<in> set (rooms ?d)" "r_id r = ?i" for r
        using marked_status [OF inv True that] .
      have invw: "db_inv exact cfg (w_seq v) (wipe ?i ?d)"
        by (rule db_inv_wipe [OF invd]) (simp add: dead live_def)
      have some: "\<exists>r \<in> set (rooms (wipe ?i ?d)). r_id r = ?i \<and> r_status r = DELETING"
      proof -
        from True obtain r where r: "r \<in> set (rooms (w_db v))" "r_id r = ?i \<and> r_status r = EXPIRED" by blast
        then have "r\<lparr>r_status := DELETING, r_updated_at := w_now v\<rparr> \<in> set (rooms ?d)"
          by (force simp: marked_def set_upd)
        moreover have "r_id (r\<lparr>r_status := DELETING, r_updated_at := w_now v\<rparr>) = ?i" using r(2) by simp
        moreover have "r_status (r\<lparr>r_status := DELETING, r_updated_at := w_now v\<rparr>) = DELETING" by simp
        ultimately show ?thesis unfolding wipe_simps by blast
      qed
      let ?e = "marked ?i DELETING DELETED (w_now v) (wipe ?i ?d)"
      have inve: "db_inv exact cfg (w_seq v) ?e"
        by (rule db_inv_marked [OF invw]) (simp_all add: wiped_wipe)
      have wiped: "wiped ?i ?e" using wiped_wipe [of ?i ?d] by (simp add: wiped_def)
      have stat: "\<forall>r \<in> set (rooms ?e). r_id r = ?i \<longrightarrow> r_status r = DELETED"
        using marked_status [OF invw some] by blast
      have body: "wp (delete_content bk ?i) (\<lambda>_. wp (bind (mark_room_deleted ?i) (\<lambda>_. ret True)) ?Q (\<lambda>_ _. True))
          (\<lambda>_ _. True) (v\<lparr>w_db := ?d\<rparr>)"
        by (rule wp_mono [OF delete_content_wp [where S = S]])
          (use dels v inve wiped stat in \<open>auto simp: wp_simps\<close>)
      with True show ?thesis by (simp add: wp_bind wp_seq wp_marks)
    qed
  qed
  show ?thesis
  proof (cases "r_status room = ACTIVE")
    case True
    have "good exact cfg (w\<lparr>w_db := marked ?i ACTIVE EXPIRED (w_now w) (w_db w)\<rparr>)"
      unfolding good_db by (rule db_inv_marked) (use g in \<open>simp_all add: good_def\<close>)
    with main [of "w\<lparr>w_db := marked ?i ACTIVE EXPIRED (w_now w) (w_db w)\<rparr>"] True show ?thesis
      by (simp add: cleanup_room_def wp_seq wp_bind [of "mark_room_expired _"] wp_marks wp_ret)
  next
    case False
    with main [OF g] show ?thesis by (simp add: cleanup_room_def wp_seq wp_ret)
  qed
qed


lemma cleanup_room_good:
  "good exact cfg w \<Longrightarrow> wp (cleanup_room bk room) (\<lambda>_. good exact cfg) (\<lambda>_ _. True) w"
  by (rule wp_mono [OF cleanup_room_wp [where S = "\<lambda>_ _. True"]]) (auto intro: wp_mono [OF delete_all_frame])

text \<open>Only one caller wins: on a room that is DELETING or DELETED already, a teardown changes nothing.\<close>

lemma cleanup_room_loses:
  assumes "\<And>r. r \<in> set (rooms (w_db w)) \<Longrightarrow> r_id r = r_id room \<Longrightarrow> r_status r = DELETING \<or> r_status r = DELETED"
  shows "cleanup_room bk room w = (Inr False, w)"
proof -
  have "marked (r_id room) a b n (w_db w) = w_db w" if "a = ACTIVE \<or> a = EXPIRED" for a b n
    using assms that unfolding marked_def upd_rooms_def by (subst upd_none) force+
  moreover have "\<not> (\<exists>r \<in> set (rooms (w_db w)). r_id r = r_id room \<and> r_status r = EXPIRED)"
    using assms by force
  ultimately have "wp (cleanup_room bk room) (\<lambda>x t. x = False \<and> t = w) (\<lambda>_ _. False) w"
    by (simp add: cleanup_room_def wp_simps)
  then show ?thesis by (auto simp: wp_def split: prod.splits sum.splits)
qed

lemma keeps_saved_cleanup [intro]: "keeps (saved_good exact cfg) (cleanup_room bk room)"
  unfolding cleanup_room_def mark_room_expired_def mark_room_deleting_def mark_room_deleted_def
    delete_content_def list_room_storage_keys_def delete_file_records_def delete_messages_by_room_def delete_by_room_def
  by blast

lemma keeps_saved_sweeps [intro]:
  "keeps (saved_good exact cfg) (sweep_deleted_objects bk)" "keeps (saved_good exact cfg) (sweep_stale_pending bk)"
  unfolding sweep_deleted_objects_def sweep_stale_pending_def by blast+

text \<open>A pass never raises from the loop over the rooms: a teardown that raises is rolled back.\<close>

lemma cleanup_rooms_wp:
  "good exact cfg w \<Longrightarrow> saved_good exact cfg w \<Longrightarrow>
     wp (cleanup_rooms bk rs cleaned) (\<lambda>_ w'. good exact cfg w' \<and> saved_good exact cfg w') (\<lambda>_ _. False) w"
proof (induction rs arbitrary: cleaned w)
  case Nil
  then show ?case by (simp add: wp_ret)
next
  case (Cons room rs)
  note both = wp_keeps [OF cleanup_room_good [OF Cons.prems(1)] keeps_saved_cleanup Cons.prems(2)]
  show ?case
    unfolding cleanup_rooms.simps wp_bind wp_try
    by (rule wp_mono [OF both]) (auto simp: wp_simps good_def saved_good_def intro!: Cons.IH [unfolded good_def saved_good_def])
qed

lemma sweep_deleted_objects_frame:
  fixes w :: "('st, 'z) world_scheme"
  shows
  "wp (sweep_deleted_objects bk) (\<lambda>_ w'. \<exists>st. w' = w\<lparr>w_store := st\<rparr>) (\<lambda>_ _. True) w"
proof -
  have "(for_each recs (\<lambda>rec. on_store (delete_object bk (f_storage_key rec))) :: ('st, 'z, unit) action)
      = delete_all bk (map f_storage_key recs)" for recs :: "file_rec list"
    by (induction recs) (simp_all add: delete_all_def)
  then show ?thesis
    using delete_all_frame by (simp add: sweep_deleted_objects_def wp_bind wp_query)
qed

lemma sweep_stale_pending_good:
  assumes "good exact cfg w"
  shows "wp (sweep_stale_pending bk) (\<lambda>_. good exact cfg) (\<lambda>_ _. True) w"
proof -
  let ?recs = "sel (\<lambda>f. f_status f = PENDING \<and> f_created_at f < w_now w - hours 24) (files (w_db w))"
  have loop: "wp (for_each recs (\<lambda>rec. seq (on_store (delete_object bk (f_storage_key rec))) (exec (del_files (\<lambda>f. f_id f = f_id rec)))))
      (\<lambda>_. good exact cfg) (\<lambda>_ _. True) v"
    if "good exact cfg v" and "\<And>rec f. rec \<in> set recs \<Longrightarrow> f \<in> set (files (w_db v)) \<Longrightarrow> f_id f = f_id rec \<Longrightarrow> f_status f = PENDING"
    for recs v
    using that
  proof (induction recs arbitrary: v)
    case Nil
    then show ?case by (simp add: wp_ret)
  next
    case (Cons rec recs)
    have "db_inv exact cfg (w_seq v) (del_files (\<lambda>f. f_id f = f_id rec) (w_db v))"
      using Cons.prems(1) Cons.prems(2) [OF list.set_intros(1)] by (intro db_inv_del_files) (fastforce simp: good_def)+
    then have "wp (for_each recs (\<lambda>rec. seq (on_store (delete_object bk (f_storage_key rec))) (exec (del_files (\<lambda>f. f_id f = f_id rec)))))
        (\<lambda>_. good exact cfg) (\<lambda>_ _. True) (v\<lparr>w_store := st, w_db := del_files (\<lambda>f. f_id f = f_id rec) (w_db v)\<rparr>)" for st
      using Cons.prems(2) by (intro Cons.IH) (auto simp: good_def)
    then show ?case by (auto simp: wp_seq wp_on_store wp_exec intro!: wp_any)
  qed
  have "f_status f = PENDING" if "rec \<in> set ?recs" "f \<in> set (files (w_db w))" "f_id f = f_id rec" for rec f
    using that distinct_key_unique [OF db_invD(3) [OF assms [unfolded good_def]] that(2), of rec] by auto
  then show ?thesis
    unfolding sweep_stale_pending_def wp_bind wp_utcnow wp_query by (intro loop assms)
qed

lemma run_cleanup_pass_good:
  fixes w :: "('st, 'z) world_scheme"
  assumes "good exact cfg w" and "saved_good exact cfg w"
  shows "wp (run_cleanup_pass bk) (\<lambda>_ w'. good exact cfg w' \<and> saved_good exact cfg w') (\<lambda>_ w'. saved_good exact cfg w') w"
proof -
  have rest: "wp (seq (sweep_stale_pending bk) (bind list_rooms_pending_cleanup (\<lambda>rs. cleanup_rooms bk rs [])))
      (\<lambda>_ w'. good exact cfg w' \<and> saved_good exact cfg w') (\<lambda>_ w'. saved_good exact cfg w') v"
    if "good exact cfg v" "saved_good exact cfg v" for v :: "('st, 'z) world_scheme"
    unfolding wp_seq wp_bind list_rooms_pending_cleanup_def wp_utcnow wp_query
    by (rule wp_mono [OF wp_keeps [OF sweep_stale_pending_good [OF that(1)] keeps_saved_sweeps(2) that(2)]])
      (auto intro: wp_mono [OF cleanup_rooms_wp])
  show ?thesis
    unfolding run_cleanup_pass_def wp_seq [of "sweep_deleted_objects _"]
    by (rule wp_mono [OF wp_keeps [OF sweep_deleted_objects_frame keeps_saved_sweeps(1) assms(2)]])
      (use rest assms(1) in auto)
qed

context object_store
begin

text \<open>A teardown that won removes exactly the objects under the storage keys of the room's files.\<close>

lemma cleanup_room_contents:
  assumes "good exact cfg w"
  shows "wp (cleanup_room bk room)
    (\<lambda>won w'. won \<longrightarrow> good exact cfg w' \<and> wiped (r_id room) (w_db w') \<and>
       (\<forall>r \<in> set (rooms (w_db w')). r_id r = r_id room \<longrightarrow> r_status r = DELETED) \<and>
       contents (w_store w') = (\<lambda>k. if \<exists>f \<in> set (files (w_db w)). f_room_id f = r_id room \<and> f_storage_key f = k
          then None else contents (w_store w) k))
    (\<lambda>_ _. True) w"
  by (rule wp_mono [OF cleanup_room_wp [OF assms, where
        S = "\<lambda>ks st. contents st = (\<lambda>k. if k \<in> set ks then None else contents (w_store w) k)"]])
    (auto intro: wp_mono [OF delete_all_wp] simp: fun_eq_iff image_iff)

lemma cleanup_room_objects:
  assumes "good exact cfg w"
  shows "wp (cleanup_room bk room)
    (\<lambda>won w'. won \<longrightarrow> good exact cfg w' \<and> wiped (r_id room) (w_db w') \<and>
       (\<forall>r \<in> set (rooms (w_db w')). r_id r = r_id room \<longrightarrow> r_status r = DELETED) \<and>
       (\<forall>f \<in> set (files (w_db w)). f_room_id f = r_id room \<longrightarrow> contents (w_store w') (f_storage_key f) = None))
    (\<lambda>_ _. True) w"
  by (rule wp_mono [OF cleanup_room_wp [OF assms, where S = "\<lambda>ks st. \<forall>k \<in> set ks. contents st k = None"]])
    (auto intro: wp_mono [OF delete_all_wp])

end

end
