(* ===== verification/Frames.thy ===== *)
theory Frames
  imports Cleanup_Service
begin

text \<open>
  What the services leave alone. The locale \<open>service_frame\<close> is the interface between an invariant and the
  services: an invariant that survives the statements a service is made of (any change of files,
  messages and audit events, a \<open>mild\<close> change of rooms, a new value of a sequence, any change of the
  object store) survives the services; \<open>delete_frame\<close> adds the deletion of sessions and with it the
  teardown of a room, and \<open>insert_frame\<close> the insertion of rooms and sessions.
  The first instance is \<open>confined\<close>: until its caller commits, a service changes neither the committed
  database nor the clock nor any state of other components.
\<close>

section \<open>The interface\<close>

fun status_rank :: "RoomStatus \<Rightarrow> nat" where
  "status_rank ACTIVE = 0"
| "status_rank EXPIRED = 1"
| "status_rank DELETING = 2"
| "status_rank DELETED = 3"

lemma status_rank_inj: "status_rank s = status_rank t \<longleftrightarrow> s = t"
  by (cases s; cases t) simp_all

text \<open>The life of a room as an order on its status.\<close>

instantiation RoomStatus :: linorder
begin

definition less_eq_RoomStatus :: "RoomStatus \<Rightarrow> RoomStatus \<Rightarrow> bool" where
  "s \<le> t \<longleftrightarrow> status_rank s \<le> status_rank t"

definition less_RoomStatus :: "RoomStatus \<Rightarrow> RoomStatus \<Rightarrow> bool" where
  "s < t \<longleftrightarrow> status_rank s < status_rank t"

instance
  by standard (auto simp: less_eq_RoomStatus_def less_RoomStatus_def status_rank_inj)

end

lemma status_rank_max: "3 \<le> status_rank st \<longleftrightarrow> st = DELETED"
  by (cases st) simp_all

text \<open>A change of a room that keeps its identity and limits, counts no one out and does not turn its
  status back.\<close>

definition mild :: "room \<Rightarrow> room \<Rightarrow> bool" where
  "mild r r' \<longleftrightarrow> r_id r' = r_id r \<and> r_room_code r' = r_room_code r \<and> r_max_users r' = r_max_users r \<and>
     r_expires_at r' = r_expires_at r \<and> r_user_count r \<le> r_user_count r' \<and>
     status_rank (r_status r) \<le> status_rank (r_status r')"

locale service_frame =
  fixes I :: "('st, 'z) world_scheme \<Rightarrow> bool"
  assumes store: "I w \<Longrightarrow> I (w\<lparr>w_store := st\<rparr>)"
    and files: "I w \<Longrightarrow> I (w\<lparr>w_db := (w_db w)\<lparr>files := fs\<rparr>\<rparr>)"
    and messages: "I w \<Longrightarrow> I (w\<lparr>w_db := (w_db w)\<lparr>messages := ms\<rparr>\<rparr>)"
    and audit: "I w \<Longrightarrow> I (w\<lparr>w_db := (w_db w)\<lparr>audit_events := as\<rparr>\<rparr>)"
    and rooms: "(\<And>r. P r \<Longrightarrow> mild r (f r)) \<Longrightarrow> I w \<Longrightarrow> I (w\<lparr>w_db := upd_rooms P f (w_db w)\<rparr>)"
    and file_seq: "I w \<Longrightarrow> I (w\<lparr>w_seq := (w_seq w)\<lparr>file_seq := file_seq (w_seq w) + 1\<rparr>\<rparr>)"
    and message_seq: "I w \<Longrightarrow> I (w\<lparr>w_seq := (w_seq w)\<lparr>message_seq := message_seq (w_seq w) + 1\<rparr>\<rparr>)"
    and audit_seq: "I w \<Longrightarrow> I (w\<lparr>w_seq := (w_seq w)\<lparr>audit_seq := audit_seq (w_seq w) + 1\<rparr>\<rparr>)"
begin

lemma frame_reads [intro]: "keeps I (query q)" "keeps I utcnow"
  unfolding query_def utcnow_def by blast+

lemma frame_store [intro]: "keeps I (on_store p)"
  by (auto simp: keeps_def on_store_def store split: prod.splits)

lemma frame_statements [intro]:
  "keeps I (exec (upd_files F g))" "keeps I (exec (del_files F))" "keeps I (exec_rowcount (upd_files F g) c)"
  "keeps I (exec (\<lambda>d. d\<lparr>messages := del Q (messages d)\<rparr>))"
  "keeps I (exec_rowcount (\<lambda>d. d\<lparr>messages := del Q (messages d)\<rparr>) c)"
  "keeps I (exec (\<lambda>d. d\<lparr>audit_events := del R (audit_events d)\<rparr>))"
  by (auto simp: keeps_iff_wp wp_simps upd_files_def del_files_def files messages audit)

lemma frame_inserts [intro]: "keeps I (insert_file f)" "keeps I (insert_message m)" "keeps I (insert_audit a)"
proof -
  have "I (w\<lparr>w_seq := (w_seq w)\<lparr>file_seq := file_seq (w_seq w) + 1\<rparr>, w_db := (w_db w)\<lparr>files := fs\<rparr>\<rparr>)" if "I w" for w fs
    using files [OF file_seq [OF that]] by simp
  then show "keeps I (insert_file f)" by (auto simp: keeps_def insert_file_def Let_def file_seq)
  have "I (w\<lparr>w_seq := (w_seq w)\<lparr>message_seq := message_seq (w_seq w) + 1\<rparr>, w_db := (w_db w)\<lparr>messages := ms\<rparr>\<rparr>)" if "I w" for w ms
    using messages [OF message_seq [OF that]] by simp
  then show "keeps I (insert_message m)" by (auto simp: keeps_def insert_message_def Let_def message_seq)
  have "I (w\<lparr>w_seq := (w_seq w)\<lparr>audit_seq := audit_seq (w_seq w) + 1\<rparr>, w_db := (w_db w)\<lparr>audit_events := as\<rparr>\<rparr>)" if "I w" for w as
    using audit [OF audit_seq [OF that]] by simp
  then show "keeps I (insert_audit a)" by (auto simp: keeps_def insert_audit_def Let_def audit_seq)
qed

lemma frame_rooms: "(\<And>r t. P r \<Longrightarrow> mild r (f t r)) \<Longrightarrow> keeps I (bind utcnow (\<lambda>now. seq (exec (upd_rooms P (f now))) (k now)))"
  if "\<And>now. keeps I (k now)" for k
  using that by (intro keeps_bind frame_reads keeps_seq) (auto simp: keeps_iff_wp wp_simps rooms)

lemma frame_guarded: "(\<And>r t. P r \<Longrightarrow> mild r ((f r)\<lparr>r_updated_at := t\<rparr>)) \<Longrightarrow> keeps I (guarded_update P f)"
  unfolding guarded_update_def
  by (intro keeps_bind frame_reads keeps_ret) (auto simp: keeps_iff_wp wp_simps rooms)

lemma frame_updates [intro]:
  "keeps I (claim_quota cfg i n)" "keeps I (update_storage_and_file_count i a b)"
  "keeps I (mark_room_expired i)" "keeps I (mark_room_deleting i)" "keeps I (mark_room_deleted i)"
  "keeps I (increment_user_count_atomic i)"
  unfolding claim_quota_def update_storage_and_file_count_def mark_room_expired_def mark_room_deleting_def
    mark_room_deleted_def increment_user_count_atomic_def
  by (intro keeps_bind keeps_ret frame_guarded; simp add: mild_def)+

lemma frame_repositories [intro]:
  "keeps I (find_room Q)" "keeps I (create_audit_event ri t m)" "keeps I (get_by_token_hash h)"
  "keeps I (update_file i g)" "keeps I (get_file_by_id i)" "keeps I (orm_update_file i g)"
  "keeps I (cleanup_failed_upload bk i key)" "keeps I (list_confirmed_files i)" "keeps I (get_active_sessions i)"
  "keeps I (list_messages cfg i l)" "keeps I (create_file_record i name key ct n sess ex)"
  unfolding find_room_def create_audit_event_def get_by_token_hash_def update_file_def
    get_file_by_id_def orm_update_file_def cleanup_failed_upload_def list_confirmed_files_def
    get_active_sessions_def list_messages_def list_room_messages_def create_file_record_def
  by blast+

lemma frame_lookups [intro]:
  "keeps I (get_room_by_id i)" "keeps I (get_room_by_access_token cr tk)" "keeps I (get_room_by_code rc)"
  "keeps I (get_file room i)"
  unfolding get_room_by_id_def get_room_by_access_token_def get_room_by_code_def get_file_def by blast+

lemma frame_messages [intro]:
  "keeps I (send_message cfg room actor body)" "keeps I (delete_message room actor mid)"
  unfolding send_message_def create_message_def delete_message_def repo_delete_message_def by blast+

lemma patch_mild: "mild r ((apply_patch cr salt data r)\<lparr>r_updated_at := t\<rparr>)"
  by (simp add: mild_def apply_patch_def Let_def split: option.split)

lemma frame_patch [intro]: "keeps I (patch_room cr salt room pdata)"
  unfolding patch_room_def update_room_fields_def
  by (intro keeps_bind keeps_seq keeps_if keeps_of_sum keeps_ret frame_reads frame_rooms frame_lookups patch_mild)

lemma frame_stage [intro]: "keeps I (stage_upload cfg bk i key chunks)"
  unfolding stage_upload_def by (intro keeps_try keeps_bind keeps_case_prod keeps_seq) (auto split: prod.split)

lemma frame_finish [intro]: "keeps I (finish_upload cfg bk room rec sn key ct c n)"
  unfolding finish_upload_def Let_def by blast

lemma frame_file_services [intro]:
  "keeps I (upload_file cfg bk key room actor fn ct chunks)" "keeps I (download_file bk room actor i)"
  "keeps I (delete_file bk room actor i)"
  unfolding upload_file_def download_file_def delete_file_def increment_download_def mark_deleted_def Let_def
  by blast+

lemma frame_upload_ops [intro]:
  "keeps I (delete_all bk ks)" "keeps I (merge_parts bk key ks)" "keeps I (cleanup_upload_parts bk rec)"
  unfolding delete_all_def merge_parts_def cleanup_upload_parts_def by blast+

lemma frame_finish_complete [intro]: "keeps I (finish_complete cfg bk room rec ks n c)"
  unfolding finish_complete_def same_claim Let_def by blast

lemma frame_upload_services [intro]:
  "keeps I (create_upload_session cfg key room actor fn ct n m)" "keeps I (store_chunk cfg bk rec i chunk)"
  "keeps I (complete_upload_session cfg bk room actor rec n)" "keeps I (abort_upload_session bk room rec)"
  unfolding create_upload_session_def same_guard store_chunk_def complete_upload_session_def abort_upload_session_def Let_def
  by blast+

end

locale delete_frame = service_frame I for I :: "('st, 'z) world_scheme \<Rightarrow> bool" +
  assumes delete_sessions: "I w \<Longrightarrow> I (w\<lparr>w_db := delete_sessions P (w_db w)\<rparr>)"
begin

lemma frame_cleanup [intro]: "keeps I (cleanup_room bk room)"
proof -
  have "keeps I (exec_rowcount (delete_sessions P) c)" for P c
    by (auto simp: keeps_iff_wp wp_simps delete_sessions)
  then show ?thesis
    unfolding cleanup_room_def delete_content_def list_room_storage_keys_def delete_file_records_def
      delete_messages_by_room_def delete_by_room_def
    by blast
qed

end

locale insert_frame = service_frame I for I :: "('st, 'z) world_scheme \<Rightarrow> bool" +
  assumes insert_session: "keeps I (insert_session s)" and insert_room: "keeps I (insert_room r)"
begin

lemma frame_room_services [intro]:
  "keeps I (create_room cfg cr draws salt data)" "keeps I (join_room cfg cr rnd room dn pw ot)"
  unfolding create_room_def repo_create_room_def join_room_def create_session_def Let_def
  using insert_session insert_room by blast+

end

section \<open>Nothing leaves the transaction\<close>

definition seq_le :: "sequences \<Rightarrow> sequences \<Rightarrow> bool" where
  "seq_le a b \<longleftrightarrow> room_seq a \<le> room_seq b \<and> session_seq a \<le> session_seq b \<and> file_seq a \<le> file_seq b \<and>
     message_seq a \<le> message_seq b \<and> audit_seq a \<le> audit_seq b"

lemma seq_le_refl [simp]: "seq_le a a"
  by (simp add: seq_le_def)

lemma seq_le_trans: "seq_le a b \<Longrightarrow> seq_le b c \<Longrightarrow> seq_le a c"
  by (simp add: seq_le_def)

lemma keys_ok_mono: "keys_ok key n rows \<Longrightarrow> n \<le> m \<Longrightarrow> keys_ok key m rows"
  by (force simp: keys_ok_def)

lemma db_inv_mono: "db_inv exact cfg a d \<Longrightarrow> seq_le a b \<Longrightarrow> db_inv exact cfg b d"
  by (auto simp: db_inv_def tables_ok_def seq_le_def intro: keys_ok_mono)

definition confined :: "('st, 'z) world_scheme \<Rightarrow> ('st, 'z) world_scheme \<Rightarrow> bool" where
  "confined v w \<longleftrightarrow> w_saved w = w_saved v \<and> w_now w = w_now v \<and> world.more w = world.more v \<and> seq_le (w_seq v) (w_seq w)"

lemma confined_refl [simp]: "confined w w"
  by (simp add: confined_def)

lemma confined_trans: "confined u v \<Longrightarrow> confined v w \<Longrightarrow> confined u w"
  by (auto simp: confined_def intro: seq_le_trans)

lemma confined_db [simp]: "confined v (w\<lparr>w_db := d\<rparr>) = confined v w"
  by (simp add: confined_def)

interpretation confined: delete_frame "confined v" for v
  by unfold_locales (auto simp: confined_def seq_le_def)

interpretation confined: insert_frame "confined v" for v
  by unfold_locales
    (auto simp: keeps_def confined_def seq_le_def insert_room_def insert_session_def Let_def)

lemma keeps_confined_updates [intro]:
  "keeps (confined v) (exec f)" "keeps (confined v) (exec_rowcount f c)" "keeps (confined v) (decrement_user_count i)" "keeps (confined v) (expire_session i)"
  unfolding decrement_user_count_def expire_session_def guarded_update_def
  by (auto simp: keeps_iff_wp wp_simps)

lemma wp_confined:
  assumes "wp m Q E w" and "keeps (confined w) m"
  shows "wp m (\<lambda>x t. Q x t \<and> confined w t) (\<lambda>e t. E e t \<and> confined w t) w"
  by (rule wp_keeps [OF assms]) simp

end
