(* ===== verification/Capacity.thy ===== *)
theory Capacity
  imports Frames
begin

text \<open>
  The capacity of a room. A session holds a seat while it is unexpired or has an open WebSocket
  (\<open>conn\<close>). The contract: a room that is not deleted never has more seats taken than its
  \<open>user_count\<close>, which in turn never exceeds \<open>max_users\<close> (\<open>room_ok\<close>). Joining takes a seat and counts
  it in the same transaction; the last socket of a session gives both back. The rest of the
  operations leave the seats as they are or free some.
\<close>

definition seated :: "(int \<Rightarrow> bool) \<Rightarrow> int \<Rightarrow> int \<Rightarrow> session_rec \<Rightarrow> bool" where
  "seated conn now i s \<longleftrightarrow> s_room_id s = i \<and> (now < s_expires_at s \<or> conn (s_id s))"

definition seats :: "(int \<Rightarrow> bool) \<Rightarrow> int \<Rightarrow> int \<Rightarrow> database \<Rightarrow> int" where
  "seats conn now i d = int (rowcount (seated conn now i) (sessions d))"

definition within_capacity :: "(int \<Rightarrow> bool) \<Rightarrow> int \<Rightarrow> database \<Rightarrow> bool" where
  "within_capacity conn now d \<longleftrightarrow>
     (\<forall>r \<in> set (rooms d). r_status r \<noteq> DELETED \<longrightarrow> seats conn now (r_id r) d \<le> r_user_count r)"

definition capped :: "(int \<Rightarrow> bool) \<Rightarrow> ('st, 'z) world_scheme \<Rightarrow> bool" where
  "capped conn w \<longleftrightarrow> within_capacity conn (w_now w) (w_db w)"

lemma rowcount_simps [simp]:
  "rowcount P [] = 0" "rowcount P (r # rs) = (if P r then Suc (rowcount P rs) else rowcount P rs)"
  "rowcount P (rs @ ts) = rowcount P rs + rowcount P ts"
  by (simp_all add: rowcount_def)

lemma rowcount_mono: "(\<And>r. r \<in> set rows \<Longrightarrow> P r \<Longrightarrow> Q r) \<Longrightarrow> rowcount P rows \<le> rowcount Q rows"
  by (induction rows) (auto intro: le_SucI)

lemma rowcount_del: "rowcount P (del Q rows) \<le> rowcount P rows"
  by (induction rows) auto

lemma rowcount_upd: "(\<And>r. r \<in> set rows \<Longrightarrow> Q r \<Longrightarrow> P (f r) \<Longrightarrow> P r) \<Longrightarrow> rowcount P (upd Q f rows) \<le> rowcount P rows"
  by (induction rows) (auto intro: le_SucI)

lemma seats_nonneg [simp]: "0 \<le> seats conn now i d"
  by (simp add: seats_def)

lemma seats_cong: "sessions d = sessions d' \<Longrightarrow> seats conn now i d = seats conn now i d'"
  by (simp add: seats_def)

lemma seats_mono:
  assumes "\<And>s. s \<in> set (sessions d) \<Longrightarrow> seated conn now i s \<Longrightarrow> seated conn' now' i s"
  shows "seats conn now i d \<le> seats conn' now' i d"
  using rowcount_mono [OF assms] by (simp add: seats_def)

lemma within_capacity_transfer:
  assumes "within_capacity conn now d"
    and "\<And>r. r \<in> set (rooms d') \<Longrightarrow> r_status r \<noteq> DELETED \<Longrightarrow>
      \<exists>r0 \<in> set (rooms d). r_id r0 = r_id r \<and> r_status r0 \<noteq> DELETED \<and> r_user_count r0 \<le> r_user_count r"
    and "\<And>i. seats conn' now' i d' \<le> seats conn now i d"
  shows "within_capacity conn' now' d'"
  unfolding within_capacity_def
proof (intro ballI impI)
  fix r
  assume "r \<in> set (rooms d')" and "r_status r \<noteq> DELETED"
  then obtain r0 where r0: "r0 \<in> set (rooms d)" "r_id r0 = r_id r" "r_status r0 \<noteq> DELETED" "r_user_count r0 \<le> r_user_count r"
    using assms(2) by blast
  then have "seats conn now (r_id r) d \<le> r_user_count r0" using assms(1) by (auto simp: within_capacity_def)
  with assms(3) [of "r_id r"] r0(4) show "seats conn' now' (r_id r) d' \<le> r_user_count r" by linarith
qed

text \<open>A room update that counts no one out and revives no room.\<close>

definition keeps_seats :: "(room \<Rightarrow> bool) \<Rightarrow> (room \<Rightarrow> room) \<Rightarrow> bool" where
  "keeps_seats P f \<longleftrightarrow> (\<forall>r. P r \<longrightarrow> r_id (f r) = r_id r \<and> r_user_count r \<le> r_user_count (f r) \<and>
     (r_status r = DELETED \<longrightarrow> r_status (f r) = DELETED))"

lemma within_capacity_upd_rooms:
  assumes "within_capacity conn now d" and "keeps_seats P f"
  shows "within_capacity conn now (upd_rooms P f d)"
proof (rule within_capacity_transfer [OF assms(1)])
  show "seats conn now i (upd_rooms P f d) \<le> seats conn now i d" for i by (simp add: seats_def)
  fix r
  assume "r \<in> set (rooms (upd_rooms P f d))" and "r_status r \<noteq> DELETED"
  then obtain r0 where "r0 \<in> set (rooms d)" "r = (if P r0 then f r0 else r0)" by (auto simp: set_upd)
  with assms(2) \<open>r_status r \<noteq> DELETED\<close> show "\<exists>r0 \<in> set (rooms d). r_id r0 = r_id r \<and> r_status r0 \<noteq> DELETED \<and>
      r_user_count r0 \<le> r_user_count r"
    by (intro bexI [of _ r0]) (auto simp: keeps_seats_def split: if_splits)
qed

lemma within_capacity_cong:
  "rooms d' = rooms d \<Longrightarrow> sessions d' = sessions d \<Longrightarrow> within_capacity conn now d' = within_capacity conn now d"
  by (simp add: within_capacity_def seats_def)

lemma within_capacity_sessions:
  assumes "within_capacity conn now d" and "rooms d' = rooms d" and "\<And>i. seats conn' now' i d' \<le> seats conn now i d"
  shows "within_capacity conn' now' d'"
  by (rule within_capacity_transfer [OF assms(1)]) (use assms(2,3) in auto)

lemma within_capacity_delete_sessions:
  assumes "within_capacity conn now d"
  shows "within_capacity conn now (delete_sessions P d)"
  by (rule within_capacity_sessions [OF assms]) (simp_all add: seats_def rowcount_del)

lemma within_capacity_later:
  assumes "within_capacity conn now d" and "now \<le> now'"
  shows "within_capacity conn now' d"
  by (rule within_capacity_sessions [OF assms(1)]) (use assms(2) in \<open>auto simp: seated_def intro!: seats_mono\<close>)

text \<open>Touching a session without giving it a later expiry than it holds a seat for.\<close>

lemma within_capacity_upd_sessions:
  assumes "within_capacity conn now d"
    and "\<And>s. s \<in> set (sessions d) \<Longrightarrow> P s \<Longrightarrow> s_room_id (f s) = s_room_id s \<and> s_id (f s) = s_id s \<and> (now < s_expires_at (f s) \<longrightarrow> now < s_expires_at s)"
  shows "within_capacity conn now (upd_sessions P f d)"
  by (rule within_capacity_sessions [OF assms(1)])
    (use assms(2) in \<open>auto simp: seats_def seated_def intro!: rowcount_upd\<close>)

text \<open>Taking a seat: one more session, one more counted.\<close>

lemma within_capacity_join:
  assumes cap: "within_capacity conn now d" and dist: "distinct (map r_id (rooms d))"
    and room: "room \<in> set (rooms d)" "P room"
    and P: "\<And>r. P r \<Longrightarrow> r_id r = r_id room" and sess: "s_room_id sess = r_id room"
    and f: "\<And>r. r_id (f r) = r_id r \<and> r_user_count (f r) = r_user_count r + 1 \<and> r_status (f r) = r_status r"
    and d': "rooms d' = upd P f (rooms d)" "sessions d' = sessions d @ [sess]"
  shows "within_capacity conn now d'"
  unfolding within_capacity_def
proof (intro ballI impI)
  fix r
  assume r: "r \<in> set (rooms d')" "r_status r \<noteq> DELETED"
  have seat: "seats conn now i d' \<le> seats conn now i d + (if i = r_id room then 1 else 0)" for i
    using sess by (auto simp: seats_def d'(2) seated_def)
  from r d'(1) obtain r0 where r0: "r0 \<in> set (rooms d)" "r = (if P r0 then f r0 else r0)" by (auto simp: set_upd)
  then have st: "r_status r0 \<noteq> DELETED" "r_id r = r_id r0" using r(2) f [of r0] by (auto split: if_splits)
  then have le: "seats conn now (r_id r) d \<le> r_user_count r0" using cap r0(1) by (simp add: within_capacity_def)
  show "seats conn now (r_id r) d' \<le> r_user_count r"
  proof (cases "r_id r = r_id room")
    case True
    then have "r0 = room" using distinct_key_unique [OF dist r0(1) room(1)] st(2) by simp
    then have "r = f r0" using r0(2) room(2) by simp
    then have "r_user_count r = r_user_count r0 + 1" using f [of r0] by simp
    with seat [of "r_id r"] le True show ?thesis by simp
  next
    case False
    then have "\<not> P r0" using P [of r0] st(2) by auto
    with seat [of "r_id r"] le r0(2) False show ?thesis by simp
  qed
qed

text \<open>Giving a seat back: the session is neither connected nor unexpired any more.\<close>

lemma within_capacity_leave:
  assumes cap: "within_capacity conn now d" and dist: "distinct (map s_id (sessions d))"
    and s: "sess \<in> set (sessions d)" "s_room_id sess = i" and was: "now < s_expires_at sess \<or> conn (s_id sess)"
    and conn': "\<And>j. conn' j \<longleftrightarrow> conn j \<and> j \<noteq> s_id sess"
    and g: "\<And>t. s_id (g t) = s_id t \<and> s_room_id (g t) = s_room_id t \<and> s_expires_at (g t) \<le> now"
    and P: "\<And>r. P r \<longleftrightarrow> r_id r = i \<and> 0 < r_user_count r"
    and f: "\<And>r. r_id (f r) = r_id r \<and> r_user_count (f r) = r_user_count r - 1 \<and> r_status (f r) = r_status r"
    and d': "rooms d' = upd P f (rooms d)" "sessions d' = upd (\<lambda>t. s_id t = s_id sess) g (sessions d)"
  shows "within_capacity conn' now d'"
proof -
  have gone: "\<not> seated conn' now k (g t)" if "s_id t = s_id sess" for k t
    using that g [of t] conn' [of "s_id sess"] by (simp add: seated_def)
  have same: "seated conn' now k t = seated conn now k t" if "s_id t \<noteq> s_id sess" for k t
    using that conn' by (simp add: seated_def)
  have count: "rowcount (seated conn' now k) (upd (\<lambda>t. s_id t = s_id sess) g rows) + (if k = i \<and> sess \<in> set rows then 1 else 0)
      \<le> rowcount (seated conn now k) rows" if "distinct (map s_id rows)" for k rows
    using that
  proof (induction rows)
    case (Cons t rows)
    show ?case
    proof (cases "s_id t = s_id sess")
      case True
      then have notin: "sess \<notin> set rows" using Cons.prems by (auto simp: image_iff)
      have seat: "k = i \<Longrightarrow> t = sess \<Longrightarrow> seated conn now k t" using s(2) was by (auto simp: seated_def)
      have "rowcount (seated conn' now k) (upd (\<lambda>t. s_id t = s_id sess) g rows) \<le> rowcount (seated conn now k) rows"
        using Cons notin by simp
      moreover have "rowcount (seated conn' now k) (upd (\<lambda>t. s_id t = s_id sess) g (t # rows))
          = rowcount (seated conn' now k) (upd (\<lambda>t. s_id t = s_id sess) g rows)"
        using gone [OF True, of k] True by simp
      moreover have "rowcount (seated conn now k) rows + (if k = i \<and> sess \<in> set (t # rows) then 1 else 0)
          \<le> rowcount (seated conn now k) (t # rows)"
      proof (cases "k = i \<and> t = sess")
        case True
        then show ?thesis using seat by simp
      next
        case False
        then have "\<not> (k = i \<and> sess \<in> set (t # rows))" using notin by auto
        then show ?thesis by (simp only: if_False rowcount_simps) simp
      qed
      ultimately show ?thesis by linarith
    next
      case False
      then have "sess \<in> set (t # rows) \<longleftrightarrow> sess \<in> set rows" by auto
      moreover have "rowcount (seated conn' now k) (upd (\<lambda>t. s_id t = s_id sess) g rows) + (if k = i \<and> sess \<in> set rows then 1 else 0)
          \<le> rowcount (seated conn now k) rows" using Cons by simp
      ultimately show ?thesis using same [OF False, of k] False by simp
    qed
  qed simp
  show ?thesis
    unfolding within_capacity_def
  proof (intro ballI impI)
    fix r
    assume r: "r \<in> set (rooms d')" "r_status r \<noteq> DELETED"
    from r d'(1) obtain r0 where r0: "r0 \<in> set (rooms d)" "r = (if P r0 then f r0 else r0)" by (auto simp: set_upd)
    then have st: "r_status r0 \<noteq> DELETED" "r_id r = r_id r0" using r(2) f [of r0] by (auto split: if_splits)
    then have le: "seats conn now (r_id r) d \<le> r_user_count r0" using cap r0(1) by (simp add: within_capacity_def)
    have fall: "seats conn' now (r_id r) d' + (if r_id r = i then 1 else 0) \<le> seats conn now (r_id r) d"
    proof -
      have "int (rowcount (seated conn' now (r_id r)) (sessions d')) + (if r_id r = i then 1 else 0)
          = int (rowcount (seated conn' now (r_id r)) (sessions d') + (if r_id r = i \<and> sess \<in> set (sessions d) then 1 else 0))"
        using s(1) by simp
      also have "\<dots> \<le> int (rowcount (seated conn now (r_id r)) (sessions d))"
        using count [OF dist, of "r_id r"] unfolding d'(2) by (rule zle_int [THEN iffD2])
      finally show ?thesis by (simp only: seats_def)
    qed
    have n: "r_user_count r = (if P r0 then r_user_count r0 - 1 else r_user_count r0)"
      using r0(2) f [of r0] by simp
    show "seats conn' now (r_id r) d' \<le> r_user_count r"
    proof (cases "P r0")
      case True
      then have "r_id r = i" using P [of r0] st(2) by simp
      with n True le fall show ?thesis by simp
    next
      case False
      then have "r_user_count r = r_user_count r0" using n by simp
      moreover have "seats conn' now (r_id r) d' \<le> seats conn now (r_id r) d"
        using fall by (simp split: if_splits)
      ultimately show ?thesis using le by linarith
    qed
  qed
qed

section \<open>The services and the capacity\<close>

lemma mild_keeps_seats: "(\<And>r. P r \<Longrightarrow> mild r (f r)) \<Longrightarrow> keeps_seats P f"
  using status_rank_max by (fastforce simp: keeps_seats_def mild_def)

interpretation capped: delete_frame "capped conn" for conn
proof unfold_locales
  fix w :: "('a, 'b) world_scheme" and P f
  assume "\<And>r. P r \<Longrightarrow> mild r (f r)" and "capped conn w"
  then show "capped conn (w\<lparr>w_db := upd_rooms P f (w_db w)\<rparr>)"
    by (simp add: capped_def within_capacity_upd_rooms mild_keeps_seats)
qed (simp_all add: capped_def within_capacity_delete_sessions within_capacity_cong [of "files_update _ _"]
    within_capacity_cong [of "messages_update _ _"] within_capacity_cong [of "audit_events_update _ _"])

text \<open>Creating a room takes no seat, because no session can refer to an id that was never handed out.\<close>

lemma keeps_sessions_insert_room [intro]:
  "keeps (\<lambda>w. sessions (w_db w) = S) (insert_room r)" "keeps (\<lambda>w. sessions (w_db w) = S) (insert_audit a)"
  "keeps (\<lambda>w. sessions (w_db w) = S) utcnow"
  by (auto simp: keeps_def insert_room_def insert_audit_def utcnow_def gets_def Let_def)

lemma keeps_sessions_create_room: "keeps (\<lambda>w. sessions (w_db w) = S) (create_room cfg cr draws salt data)"
  unfolding create_room_def repo_create_room_def create_audit_event_def Let_def by blast

lemma within_capacity_new_room:
  assumes cap: "within_capacity conn now d" and inv: "db_inv exact cfg sq d" "db_inv exact cfg sq' d'"
    and d': "rooms d' = rooms d @ [room]" "sessions d' = sessions d" and n: "0 \<le> r_user_count room"
  shows "within_capacity conn now d'"
proof -
  have "s_room_id ` set (sessions d) \<subseteq> r_id ` set (rooms d)"
    using inv(1) by (simp add: db_inv_def tables_ok_def refs_ok_def)
  moreover have "r_id room \<notin> r_id ` set (rooms d)" using db_invD(1) [OF inv(2)] d'(1) by simp
  ultimately have "\<not> seated conn now (r_id room) s" if "s \<in> set (sessions d)" for s
    using that by (metis image_eqI seated_def subsetD)
  then have "filter (seated conn now (r_id room)) (sessions d) = []" by (simp add: filter_empty_conv)
  then have none: "seats conn now (r_id room) d' = 0" by (simp add: seats_def rowcount_def d'(2))
  have old: "seats conn now i d' = seats conn now i d" for i by (rule seats_cong [OF d'(2)])
  show ?thesis using cap n none by (auto simp: within_capacity_def d'(1) old)
qed

lemma create_room_capped:
  assumes g: "good exact cfg w" and c: "cfg_ok cfg" and cap: "capped conn w"
  shows "wp (create_room cfg cr draws salt data)
    (\<lambda>(room, access_token, owner_token, code) w'. good exact cfg w' \<and> capped conn w' \<and> room \<in> set (rooms (w_db w')) \<and>
       r_status room = ACTIVE \<and> r_user_count room = 0 \<and> w_now w' = w_now w)
    (\<lambda>_ _. True) w"
proof (rule wp_mono [OF wp_keeps [OF create_room_wp [OF g c] keeps_sessions_create_room [of "sessions (w_db w)"]]])
  show "sessions (w_db w) = sessions (w_db w)" ..
  fix x w'
  assume "(case x of (room, access_token, owner_token, room_code) \<Rightarrow> \<lambda>w'. good exact cfg w' \<and>
      room \<in> set (rooms (w_db w')) \<and> w_now w' = w_now w \<and> rooms (w_db w') = rooms (w_db w) @ [room] \<and>
      r_status room = ACTIVE \<and> r_user_count room = 0 \<and> r_max_users room = max_users_per_room cfg \<and>
      r_access_token_hash room = hash_token cr access_token \<and> r_owner_token_hash room = hash_token cr owner_token \<and>
      r_access_token_signed room = Some (sign_access_token cr (w_now w) access_token (csrf_secret cfg) (max_room_lifetime_seconds cfg + 3600)) \<and>
      (\<exists>n. validate_lifetime cfg (rc_lifetime_seconds data) = Inr n \<and> r_expires_at room = w_now w + seconds n)) w' \<and>
    sessions (w_db w') = sessions (w_db w)"
  then obtain room tk ot rc where x: "x = (room, tk, ot, rc)" and w': "good exact cfg w'" "room \<in> set (rooms (w_db w'))"
      "w_now w' = w_now w" "rooms (w_db w') = rooms (w_db w) @ [room]" "r_status room = ACTIVE" "r_user_count room = 0"
      "sessions (w_db w') = sessions (w_db w)"
    by (cases x) auto
  have "within_capacity conn (w_now w) (w_db w')"
    by (rule within_capacity_new_room [OF _ _ _ w'(4,7)]) (use cap g w' in \<open>auto simp: capped_def good_def\<close>)
  with x w' show "(case x of (room, access_token, owner_token, room_code) \<Rightarrow> \<lambda>w'. good exact cfg w' \<and> capped conn w' \<and>
      room \<in> set (rooms (w_db w')) \<and> r_status room = ACTIVE \<and> r_user_count room = 0 \<and> w_now w' = w_now w) w'"
    by (simp add: capped_def)
qed simp

lemma join_room_capped:
  assumes g: "good exact cfg w" and room: "room \<in> set (rooms (w_db w))" and cap: "capped conn w"
  shows "wp (join_room cfg cr rnd room dn pw ot) (\<lambda>_ w'. good exact cfg w' \<and> capped conn w') (\<lambda>_ _. True) w"
proof (rule wp_mono [OF join_room_wp [OF g room]])
  fix x w'
  assume "(case x of (sess, token) \<Rightarrow> \<lambda>w'. good exact cfg w' \<and> w_now w' = w_now w \<and>
       resolve_role cr room pw ot = Inr (s_role sess) \<and> s_room_id sess = r_id room \<and>
       s_session_token_hash sess = hash_token cr token \<and>
       s_expires_at sess = w_now w + seconds (session_ttl_seconds cfg) \<and>
       sessions (w_db w') = sessions (w_db w) @ [sess] \<and>
       r_status room = ACTIVE \<and> w_now w < r_expires_at room \<and> r_user_count room < r_max_users room \<and>
       rooms (w_db w') = upd (\<lambda>r. r_id r = r_id room \<and> r_user_count r < r_max_users r)
         (\<lambda>r. r\<lparr>r_user_count := r_user_count r + 1, r_updated_at := w_now w\<rparr>) (rooms (w_db w)) \<and>
       (\<exists>r \<in> set (rooms (w_db w')). r_id r = r_id room \<and> r_user_count r = r_user_count room + 1)) w'"
  then obtain sess where w': "good exact cfg w'" "w_now w' = w_now w" "s_room_id sess = r_id room"
      "r_user_count room < r_max_users room" "sessions (w_db w') = sessions (w_db w) @ [sess]"
      "rooms (w_db w') = upd (\<lambda>r. r_id r = r_id room \<and> r_user_count r < r_max_users r)
         (\<lambda>r. r\<lparr>r_user_count := r_user_count r + 1, r_updated_at := w_now w\<rparr>) (rooms (w_db w))"
    by (cases x) auto
  have "distinct (map r_id (rooms (w_db w)))" using g db_invD(1) by (auto simp: good_def)
  then have "within_capacity conn (w_now w) (w_db w')"
    using cap unfolding capped_def by (intro within_capacity_join [OF _ _ room _ _ w'(3) _ w'(6,5)]) (simp_all add: w'(4))
  with w' show "good exact cfg w' \<and> capped conn w'" by (simp add: capped_def)
qed simp

end
