(* ===== verification/Evolution.thy ===== *)
theory Evolution
  imports Capacity
begin

text \<open>
  How the database may change over time: rooms are never removed, a room's limits and code stay as
  they were created and its status only moves along ACTIVE, EXPIRED, DELETING, DELETED; a session
  belongs to one room for life, is only removed when its room is deleted, and its id is never handed
  out again. Every service respects this.
\<close>

definition room_evolves :: "room \<Rightarrow> room \<Rightarrow> bool" where
  "room_evolves r r' \<longleftrightarrow> r_id r' = r_id r \<and> r_room_code r' = r_room_code r \<and> r_max_users r' = r_max_users r \<and>
     r_expires_at r' = r_expires_at r \<and> status_rank (r_status r) \<le> status_rank (r_status r')"

lemma room_evolves_refl [simp]: "room_evolves r r"
  by (simp add: room_evolves_def)

lemma room_evolves_trans: "room_evolves a b \<Longrightarrow> room_evolves b c \<Longrightarrow> room_evolves a c"
  by (auto simp: room_evolves_def)

definition rooms_evolve :: "database \<Rightarrow> database \<Rightarrow> bool" where
  "rooms_evolve d d' \<longleftrightarrow> (\<forall>r \<in> set (rooms d). \<exists>r' \<in> set (rooms d'). room_evolves r r')"

definition is_deleted :: "int \<Rightarrow> database \<Rightarrow> bool" where
  "is_deleted i d \<longleftrightarrow> (\<exists>r \<in> set (rooms d). r_id r = i \<and> r_status r = DELETED)"

definition has_session :: "int \<Rightarrow> int \<Rightarrow> database \<Rightarrow> bool" where
  "has_session sid i d \<longleftrightarrow> (\<exists>s \<in> set (sessions d). s_id s = sid \<and> s_room_id s = i)"

definition sessions_evolve :: "sequences \<Rightarrow> database \<Rightarrow> database \<Rightarrow> bool" where
  "sessions_evolve sq d d' \<longleftrightarrow>
     (\<forall>sid i. has_session sid i d \<longrightarrow> has_session sid i d' \<or> is_deleted i d') \<and>
     (\<forall>sid i. has_session sid i d' \<longrightarrow> session_seq sq \<le> sid \<or> has_session sid i d)"

lemma rooms_evolve_refl [simp]: "rooms_evolve d d"
  unfolding rooms_evolve_def by (blast intro: room_evolves_refl)

lemma rooms_evolve_trans: "rooms_evolve a b \<Longrightarrow> rooms_evolve b c \<Longrightarrow> rooms_evolve a c"
  unfolding rooms_evolve_def by (meson room_evolves_trans)

lemma rooms_evolve_deleted:
  assumes "rooms_evolve d d'" and "is_deleted i d"
  shows "is_deleted i d'"
proof -
  from assms(2) obtain r where r: "r \<in> set (rooms d)" "r_id r = i" "r_status r = DELETED" by (auto simp: is_deleted_def)
  with assms(1) obtain r' where "r' \<in> set (rooms d')" "room_evolves r r'" by (auto simp: rooms_evolve_def)
  with r show ?thesis by (auto simp: is_deleted_def room_evolves_def status_rank_max)
qed

lemma sessions_evolve_refl [simp]: "sessions_evolve sq d d"
  by (simp add: sessions_evolve_def)

lemma sessions_evolve_trans:
  "sessions_evolve sq a b \<Longrightarrow> sessions_evolve sq' b c \<Longrightarrow> session_seq sq \<le> session_seq sq' \<Longrightarrow> rooms_evolve b c \<Longrightarrow>
    sessions_evolve sq a c"
  unfolding sessions_evolve_def by (meson order_trans rooms_evolve_deleted)

lemma rooms_evolve_upd:
  assumes "rooms_evolve d0 d" and "\<And>r. P r \<Longrightarrow> room_evolves r (f r)"
  shows "rooms_evolve d0 (upd_rooms P f d)"
proof (rule rooms_evolve_trans [OF assms(1)])
  have "\<exists>r' \<in> set (rooms (upd_rooms P f d)). room_evolves r r'" if "r \<in> set (rooms d)" for r
    using that assms(2) [of r] by (intro bexI [of _ "if P r then f r else r"]) (auto simp: set_upd)
  then show "rooms_evolve d (upd_rooms P f d)" by (simp add: rooms_evolve_def)
qed

lemma rooms_evolve_cong: "rooms d' = rooms d \<Longrightarrow> rooms_evolve d0 d' = rooms_evolve d0 d"
  by (simp add: rooms_evolve_def)

lemma sessions_evolve_cong:
  "sessions d' = sessions d \<Longrightarrow> rooms d' = rooms d \<Longrightarrow> sessions_evolve sq d0 d' = sessions_evolve sq d0 d"
  by (simp add: sessions_evolve_def has_session_def is_deleted_def)

section \<open>The services respect it\<close>

definition evolved_rooms :: "database \<Rightarrow> ('st, 'z) world_scheme \<Rightarrow> bool" where
  "evolved_rooms d0 w \<longleftrightarrow> rooms_evolve d0 (w_db w)"

definition evolved :: "sequences \<Rightarrow> database \<Rightarrow> ('st, 'z) world_scheme \<Rightarrow> bool" where
  "evolved sq d0 w \<longleftrightarrow> rooms_evolve d0 (w_db w) \<and> sessions_evolve sq d0 (w_db w) \<and> session_seq sq \<le> session_seq (w_seq w)"

lemma mild_evolves: "mild r r' \<Longrightarrow> room_evolves r r'"
  by (simp add: mild_def room_evolves_def)

lemma sessions_evolve_rooms:
  assumes "sessions_evolve sq d0 d" and "rooms_evolve d d'" and "sessions d' = sessions d"
  shows "sessions_evolve sq d0 d'"
proof -
  have "has_session sid i d' = has_session sid i d" for sid i using assms(3) by (simp add: has_session_def)
  with assms(1) rooms_evolve_deleted [OF assms(2)] show ?thesis unfolding sessions_evolve_def by blast
qed

lemma evolved_upd_rooms:
  assumes "evolved sq d0 w" and "\<And>r. P r \<Longrightarrow> room_evolves r (f r)"
  shows "evolved sq d0 (w\<lparr>w_db := upd_rooms P f (w_db w)\<rparr>)"
proof -
  have "rooms_evolve (w_db w) (upd_rooms P f (w_db w))" using assms(2) by (intro rooms_evolve_upd) simp_all
  with assms(1) show ?thesis by (auto simp: evolved_def intro: rooms_evolve_trans sessions_evolve_rooms)
qed

lemma evolved_upd_sessions:
  assumes "evolved sq d0 w" and "\<And>t. s_id (g t) = s_id t \<and> s_room_id (g t) = s_room_id t"
  shows "evolved sq d0 (w\<lparr>w_db := upd_sessions P g (w_db w)\<rparr>)"
proof -
  have "has_session s i (upd_sessions P g d) = has_session s i d" for s i d
  proof -
    have "(s_id (if P t then g t else t) = s \<and> s_room_id (if P t then g t else t) = i) \<longleftrightarrow> (s_id t = s \<and> s_room_id t = i)" for t
      using assms(2) [of t] by simp
    then show ?thesis unfolding has_session_def upd_sessions_simps set_upd by (simp only: bex_simps)
  qed
  with assms(1) show ?thesis
    by (auto simp: evolved_def rooms_evolve_def sessions_evolve_def is_deleted_def)
qed

interpretation evolved_rooms: delete_frame "evolved_rooms d0" for d0
proof unfold_locales
  fix w :: "('a, 'b) world_scheme" and P f
  assume "\<And>r. P r \<Longrightarrow> mild r (f r)" and "evolved_rooms d0 w"
  then show "evolved_rooms d0 (w\<lparr>w_db := upd_rooms P f (w_db w)\<rparr>)"
    by (simp add: evolved_rooms_def rooms_evolve_upd mild_evolves)
qed (simp_all add: evolved_rooms_def rooms_evolve_def)

interpretation evolved: service_frame "evolved sq d0" for sq d0
proof unfold_locales
  fix w :: "('a, 'b) world_scheme" and P f
  assume "\<And>r. P r \<Longrightarrow> mild r (f r)" and "evolved sq d0 w"
  then show "evolved sq d0 (w\<lparr>w_db := upd_rooms P f (w_db w)\<rparr>)"
    by (intro evolved_upd_rooms) (simp_all add: mild_evolves)
qed (simp_all add: evolved_def rooms_evolve_def sessions_evolve_def has_session_def is_deleted_def)

interpretation evolved: insert_frame "evolved sq d0" for sq d0
  by unfold_locales
    (auto simp: keeps_def evolved_def rooms_evolve_def sessions_evolve_def has_session_def is_deleted_def
      insert_session_def insert_room_def Let_def)

lemma keeps_evolved_decrement [intro]: "keeps (evolved sq d0) (decrement_user_count i)"
  unfolding keeps_iff_wp decrement_user_count_def
  by (simp add: wp_simps) (auto intro!: evolved_upd_rooms simp: room_evolves_def)

lemma keeps_evolved_expire [intro]: "keeps (evolved sq d0) (expire_session sid)"
  unfolding keeps_iff_wp expire_session_def
  by (simp add: wp_simps) (auto intro!: evolved_upd_sessions)

text \<open>A teardown that returns removed the sessions of a room it deleted, or nothing.\<close>

lemma cleanup_room_evolves:
  assumes "good exact cfg w"
  shows "wp (cleanup_room bk room) (\<lambda>_. evolved (w_seq w) (w_db w)) (\<lambda>_ _. True) w"
proof (rule wp_mono [OF wp_keeps [OF wp_confined [OF cleanup_room_wp [OF assms, where S = "\<lambda>_ _. True"] confined.frame_cleanup]
      evolved_rooms.frame_cleanup [of "w_db w"]]])
  show "wp (delete_all bk ks) (\<lambda>_ w'. True \<and> (\<exists>st. w' = w1\<lparr>w_store := st\<rparr>)) (\<lambda>_ _. True) w1" for ks and w1 :: "('a, 'b) world_scheme"
    by (auto intro: wp_mono [OF delete_all_frame])
  show "evolved_rooms (w_db w) w" by (simp add: evolved_rooms_def)
  fix won w'
  let ?i = "r_id room"
  assume "((good exact cfg w' \<and> w_now w' = w_now w \<and>
       map r_user_count (rooms (w_db w')) = map r_user_count (rooms (w_db w)) \<and>
       (if won then True \<and> wiped ?i (w_db w') \<and> sessions (w_db w') = del (\<lambda>s. s_room_id s = ?i) (sessions (w_db w)) \<and>
            (\<forall>r \<in> set (rooms (w_db w')). r_id r = ?i \<longrightarrow> r_status r = DELETED)
        else w_store w' = w_store w \<and> files (w_db w') = files (w_db w) \<and> messages (w_db w') = messages (w_db w) \<and>
            sessions (w_db w') = sessions (w_db w))) \<and> confined w w') \<and> evolved_rooms (w_db w) w'"
  then have c: "confined w w'" and e: "rooms_evolve (w_db w) (w_db w')"
    and r: "if won then sessions (w_db w') = del (\<lambda>s. s_room_id s = ?i) (sessions (w_db w)) \<and>
            (\<forall>r \<in> set (rooms (w_db w')). r_id r = ?i \<longrightarrow> r_status r = DELETED)
        else sessions (w_db w') = sessions (w_db w)"
    by (auto simp: evolved_rooms_def split: if_splits)
  have "is_deleted ?i (w_db w')" if "won" "has_session sid ?i (w_db w)" for sid
  proof -
    have "s_room_id ` set (sessions (w_db w)) \<subseteq> r_id ` set (rooms (w_db w))"
      using assms by (simp add: good_def db_inv_def tables_ok_def refs_ok_def)
    with that(2) obtain r0 where "r0 \<in> set (rooms (w_db w))" "r_id r0 = ?i" by (force simp: has_session_def)
    with e obtain r' where "r' \<in> set (rooms (w_db w'))" "r_id r' = ?i" by (auto simp: rooms_evolve_def room_evolves_def)
    with r that(1) show ?thesis by (auto simp: is_deleted_def)
  qed
  moreover have "has_session sid i (w_db w') \<longleftrightarrow> has_session sid i (w_db w) \<and> \<not> (won \<and> i = ?i)" for sid i
    using r by (auto simp: has_session_def split: if_splits)
  ultimately have "sessions_evolve (w_seq w) (w_db w) (w_db w')" unfolding sessions_evolve_def by blast
  with c e show "evolved (w_seq w) (w_db w) w'" by (simp add: evolved_def confined_def seq_le_def)
qed simp

end
