(* ===== verification/Ratelimit.thy ===== *)
theory Ratelimit
  imports Config
begin

text \<open>
  \<open>core/ratelimit.py\<close>: the in-memory fixed-window limiter. The dictionary of buckets is a map;
  \<open>time.monotonic()\<close> is the argument \<open>now\<close> (a rational number of seconds). The lock makes each
  \<open>check\<close> one atomic step, so a history is a list of calls.
\<close>

type_synonym bucket_key = "string \<times> string"
type_synonym limiter = "bucket_key \<rightharpoonup> rat \<times> int"

definition rl_init :: limiter where
  "rl_init = Map.empty"

definition rl_reset :: "limiter \<Rightarrow> limiter" where
  "rl_reset lm = Map.empty"

definition rl_check :: "limiter \<Rightarrow> rat \<Rightarrow> string \<Rightarrow> string \<Rightarrow> int \<Rightarrow> int \<Rightarrow> bool \<times> limiter" where
  "rl_check lm now scope key limit window_seconds =
     (let (start, count) = (case lm (scope, key) of None \<Rightarrow> (0, 0) | Some b \<Rightarrow> b) in
      if now - start \<ge> of_int window_seconds then (True, lm((scope, key) \<mapsto> (now, 1)))
      else if count \<ge> limit then (False, lm)
      else (True, lm((scope, key) \<mapsto> (start, count + 1))))"

text \<open>\<open>RateLimiterDeps.check\<close>: defaults from the settings, \<open>RateLimited\<close> on refusal. The
  limiter is the state.\<close>

definition deps_check ::
  "settings \<Rightarrow> rat \<Rightarrow> string \<Rightarrow> string \<Rightarrow> int option \<Rightarrow> int option \<Rightarrow> (limiter, exc, unit) prog" where
  "deps_check cfg now scope key limit window_seconds lm =
     (if \<not> rate_limit_enabled cfg then (Inr (), lm)
      else
        let limit' = (case limit of Some l \<Rightarrow> l | None \<Rightarrow> generic_limit cfg);
            window = (case window_seconds of Some w \<Rightarrow> w | None \<Rightarrow> rate_limit_window_seconds cfg);
            (ok, lm') = rl_check lm now scope key limit' window
        in if ok then (Inr (), lm')
           else (Inl (init_error RateLimited ''Too many requests; try again shortly''), lm'))"

section \<open>One bucket\<close>

definition bucket :: "limiter \<Rightarrow> bucket_key \<Rightarrow> rat \<times> int" where
  "bucket lm k = (case lm k of None \<Rightarrow> (0, 0) | Some b \<Rightarrow> b)"

definition limiter_ok :: "limiter \<Rightarrow> bool" where
  "limiter_ok lm \<longleftrightarrow> (\<forall>k. 0 \<le> snd (bucket lm k))"

lemma rl_check_other: "(scope, key) \<noteq> k \<Longrightarrow> bucket (snd (rl_check lm now scope key l w)) k = bucket lm k"
  by (auto simp: rl_check_def bucket_def Let_def split: option.splits prod.splits)

lemma rl_check_bucket:
  assumes "bucket lm (scope, key) = (start, count)"
  shows "rl_check lm now scope key l w =
    (if now - start \<ge> of_int w then (True, lm((scope, key) \<mapsto> (now, 1)))
     else if count \<ge> l then (False, lm) else (True, lm((scope, key) \<mapsto> (start, count + 1))))"
  using assms by (simp add: rl_check_def bucket_def)

lemma bucket_upd [simp]: "bucket (lm(k \<mapsto> b)) k = b"
  by (simp add: bucket_def)

lemma rl_check_ok: "limiter_ok lm \<Longrightarrow> limiter_ok (snd (rl_check lm now scope key l w))"
proof -
  assume ok: "limiter_ok lm"
  obtain s c where b: "bucket lm (scope, key) = (s, c)" by fastforce
  have "0 \<le> c" using ok b unfolding limiter_ok_def by (metis snd_conv)
  with ok b show ?thesis
    by (auto simp: limiter_ok_def rl_check_bucket bucket_def)
qed

lemma limiter_ok_init: "limiter_ok rl_init"
  by (simp add: limiter_ok_def rl_init_def bucket_def)

section \<open>Histories of calls\<close>

record call =
  c_now :: rat
  c_scope :: string
  c_key :: string
  c_limit :: int
  c_window :: int

definition call_key :: "call \<Rightarrow> bucket_key" where
  "call_key c = (c_scope c, c_key c)"

fun admitted :: "bucket_key \<Rightarrow> limiter \<Rightarrow> call list \<Rightarrow> int" where
  "admitted k lm [] = 0"
| "admitted k lm (c # cs) =
     (let (ok, lm') = rl_check lm (c_now c) (c_scope c) (c_key c) (c_limit c) (c_window c)
      in (if ok \<and> call_key c = k then 1 else 0) + admitted k lm' cs)"

fun run_calls :: "limiter \<Rightarrow> call list \<Rightarrow> limiter" where
  "run_calls lm [] = lm"
| "run_calls lm (c # cs) =
     run_calls (snd (rl_check lm (c_now c) (c_scope c) (c_key c) (c_limit c) (c_window c))) cs"

lemma run_calls_ok: "limiter_ok lm \<Longrightarrow> limiter_ok (run_calls lm cs)"
  by (induction cs arbitrary: lm) (auto intro: rl_check_ok)

definition calls_for :: "bucket_key \<Rightarrow> int \<Rightarrow> int \<Rightarrow> rat \<Rightarrow> call list \<Rightarrow> bool" where
  "calls_for k limit w t cs \<longleftrightarrow> list_all (\<lambda>c. call_key c = k \<longrightarrow>
     c_limit c = limit \<and> c_window c = w \<and> t \<le> c_now c \<and> c_now c < t + of_int w) cs"

lemma calls_for_Cons [simp]:
  "calls_for k limit w t (c # cs) \<longleftrightarrow> (call_key c = k \<longrightarrow>
     c_limit c = limit \<and> c_window c = w \<and> t \<le> c_now c \<and> c_now c < t + of_int w) \<and> calls_for k limit w t cs"
  by (auto simp: calls_for_def)

lemma admitted_other:
  "call_key c \<noteq> k \<Longrightarrow> \<exists>lm'. bucket lm' k = bucket lm k \<and> admitted k lm (c # cs) = admitted k lm' cs"
  by (rule exI [of _ "snd (rl_check lm (c_now c) (c_scope c) (c_key c) (c_limit c) (c_window c))"])
    (auto simp: rl_check_other call_key_def split: prod.splits)

text \<open>Calls that all fall before the end of the bucket's window: what is left of the limit.\<close>

lemma admitted_same_window:
  assumes "bucket lm k = (start, count)"
    and "list_all (\<lambda>c. call_key c = k \<longrightarrow> c_limit c = limit \<and> c_now c - start < of_int (c_window c)) cs"
  shows "admitted k lm cs \<le> max 0 (limit - count)"
  using assms
proof (induction cs arbitrary: lm count)
  case (Cons c cs)
  show ?case
  proof (cases "call_key c = k")
    case False
    then obtain lm' where "bucket lm' k = bucket lm k" and e: "admitted k lm (c # cs) = admitted k lm' cs"
      using admitted_other by metis
    with Cons show ?thesis by (simp add: e)
  next
    case True
    with Cons.prems have lmc: "c_limit c = limit" and not_reset: "\<not> c_now c - start \<ge> of_int (c_window c)"
      and b: "bucket lm (c_scope c, c_key c) = (start, count)"
      by (auto simp: call_key_def)
    show ?thesis
    proof (cases "count \<ge> limit")
      case True
      then have "admitted k lm (c # cs) = admitted k lm cs"
        using b not_reset lmc by (simp add: rl_check_bucket)
      with Cons show ?thesis by simp
    next
      case False
      have "admitted k (lm(k \<mapsto> (start, count + 1))) cs \<le> max 0 (limit - (count + 1))"
        using Cons.prems(2) by (intro Cons.IH bucket_upd) simp
      with False b not_reset lmc \<open>call_key c = k\<close> show ?thesis
        by (auto simp: rl_check_bucket call_key_def)
    qed
  qed
qed simp

text \<open>Any interval of one window length meets at most one reset.\<close>

lemma admitted_interval:
  assumes "bucket lm k = (start, count)" and "calls_for k limit w t cs"
  shows "admitted k lm cs \<le> max 0 (limit - count) + max 1 limit"
  using assms
proof (induction cs arbitrary: lm count)
  case (Cons c cs)
  show ?case
  proof (cases "call_key c = k")
    case False
    then obtain lm' where "bucket lm' k = bucket lm k" and e: "admitted k lm (c # cs) = admitted k lm' cs"
      using admitted_other by metis
    with Cons show ?thesis by (simp add: e)
  next
    case True
    with Cons.prems have c: "c_limit c = limit" "c_window c = w" "t \<le> c_now c"
      and b: "bucket lm (c_scope c, c_key c) = (start, count)"
      and cs: "calls_for k limit w t cs"
      by (auto simp: call_key_def)
    consider (reset) "c_now c - start \<ge> of_int w"
      | (full) "\<not> c_now c - start \<ge> of_int w" "count \<ge> limit"
      | (count) "\<not> c_now c - start \<ge> of_int w" "\<not> count \<ge> limit" by blast
    then show ?thesis
    proof cases
      case reset
      have "list_all (\<lambda>d. call_key d = k \<longrightarrow> c_limit d = limit \<and> c_now d - c_now c < of_int (c_window d)) cs"
        using cs c(3) by (auto simp: calls_for_def list_all_iff)
      then have "admitted k (lm(k \<mapsto> (c_now c, 1))) cs \<le> max 0 (limit - 1)"
        by (intro admitted_same_window) auto
      with reset b c True show ?thesis by (auto simp: rl_check_bucket call_key_def)
    next
      case full
      then have "admitted k lm (c # cs) = admitted k lm cs"
        using b c by (simp add: rl_check_bucket)
      with Cons cs show ?thesis by simp
    next
      case count
      have "admitted k (lm(k \<mapsto> (start, count + 1))) cs \<le> max 0 (limit - (count + 1)) + max 1 limit"
        using cs by (intro Cons.IH bucket_upd)
      with count b c True show ?thesis by (auto simp: rl_check_bucket call_key_def)
    qed
  qed
qed simp

end
