(* ===== verification/Schemas.thy ===== *)
theory Schemas
  imports Upload_Service
begin

text \<open>
  \<open>schemas/__init__.py\<close>: the request bodies with the constraints pydantic checks on them, the views
  the API answers with, and the events sent over the WebSockets.

  A body arrives as a record of its declared field types; a value that breaks a \<open>Field\<close> constraint
  raises \<open>RequestValidationError\<close>. The constraint of a field is checked on what the client sent,
  before the field's validator normalises it.
\<close>

section \<open>Request bodies\<close>

definition at_most :: "nat \<Rightarrow> string option \<Rightarrow> bool" where
  "at_most n s = (case s of None \<Rightarrow> True | Some t \<Rightarrow> length t \<le> n)"

definition checked :: "bool \<Rightarrow> 'a \<Rightarrow> exc + 'a" where
  "checked ok body = (if ok then Inr body else Inl (Py RequestValidationError))"

definition strip_name :: "string option \<Rightarrow> string option" where
  "strip_name v = (case v of None \<Rightarrow> None | Some s \<Rightarrow> none_if_empty (strip s))"

definition check_room_create :: "room_create \<Rightarrow> exc + room_create" where
  "check_room_create body = checked (at_most 120 (rc_name body) \<and> at_most 128 (rc_password body))
     (body\<lparr>rc_name := strip_name (rc_name body)\<rparr>)"

definition check_room_patch :: "room_patch \<Rightarrow> exc + room_patch" where
  "check_room_patch body = checked (at_most 120 (rp_name body) \<and> at_most 128 (rp_password body)) body"

record join_request =
  jr_display_name :: "string option"
  jr_password :: "string option"
  jr_owner_token :: "string option"

record join_by_code_request = join_request +
  jc_room_code :: string

definition join_fits :: "'z join_request_scheme \<Rightarrow> bool" where
  "join_fits body \<longleftrightarrow> at_most 60 (jr_display_name body) \<and> at_most 128 (jr_password body)"

definition strip_display_name :: "'z join_request_scheme \<Rightarrow> 'z join_request_scheme" where
  "strip_display_name body = body\<lparr>jr_display_name := strip_name (jr_display_name body)\<rparr>"

definition check_join :: "join_request \<Rightarrow> exc + join_request" where
  "check_join body = checked (join_fits body) (strip_display_name body)"

definition check_join_by_code :: "join_by_code_request \<Rightarrow> exc + join_by_code_request" where
  "check_join_by_code body =
     checked (join_fits body \<and> 4 \<le> length (jc_room_code body) \<and> length (jc_room_code body) \<le> 12)
       (strip_display_name body)"

record upload_session_create =
  uc_filename :: string
  uc_content_type :: "string option"
  uc_total_size_bytes :: int
  uc_total_chunks :: int

definition check_upload_create :: "upload_session_create \<Rightarrow> exc + upload_session_create" where
  "check_upload_create body =
     checked (length (uc_filename body) \<le> 255 \<and> 0 < uc_total_size_bytes body \<and> 0 < uc_total_chunks body) body"

definition check_upload_complete :: "int \<Rightarrow> exc + int" where
  "check_upload_complete total_chunks = checked (0 < total_chunks) total_chunks"

section \<open>Views\<close>

record room_created =
  cd_room_code :: string
  cd_name :: "string option"
  cd_expires_at :: int
  cd_access_token :: string
  cd_share_url :: string
  cd_owner_url :: string
  cd_password_required :: bool
  cd_guest_upload_enabled :: bool
  cd_guest_download_enabled :: bool

record join_response =
  jp_access_token :: string
  jp_room :: room_view
  jp_role :: Role
  jp_display_name :: "string option"
  jp_session_expires_at :: int
  jp_ws_url :: string

record message_view =
  mv_id :: int
  mv_display_name :: "string option"
  mv_body :: string
  mv_created_at :: int

record file_view =
  fv_id :: int
  fv_original_filename :: string
  fv_content_type :: "string option"
  fv_size_bytes :: int
  fv_status :: FileStatus
  fv_download_count :: int
  fv_uploaded_by_name :: "string option"
  fv_created_at :: int

record file_list_response =
  fl_files :: "file_view list"
  fl_storage_used_bytes :: int
  fl_file_count :: int
  fl_max_room_storage_bytes :: int
  fl_max_files_per_room :: int

record upload_session_created =
  uo_upload_id :: int
  uo_filename :: string
  uo_total_size_bytes :: int
  uo_total_chunks :: int
  uo_chunk_size_bytes :: int

definition view_message :: "message \<Rightarrow> message_view" where
  "view_message m = \<lparr>mv_id = m_id m, mv_display_name = m_display_name m, mv_body = m_body m,
     mv_created_at = m_created_at m\<rparr>"

definition view_file :: "file_rec \<Rightarrow> string option \<Rightarrow> file_view" where
  "view_file r uploaded_by_name = \<lparr>fv_id = f_id r, fv_original_filename = f_original_filename r,
     fv_content_type = f_content_type r, fv_size_bytes = f_size_bytes r, fv_status = f_status r,
     fv_download_count = f_download_count r, fv_uploaded_by_name = uploaded_by_name,
     fv_created_at = f_created_at r\<rparr>"

section \<open>Events\<close>

text \<open>
  A JSON value as a WebSocket client sends it. A number with a fraction carries the text Python
  prints for it.
\<close>

datatype jvalue =
    VNull
  | VBool bool
  | VInt int
  | VFloat rat string
  | VStr string
  | VList "jvalue list"
  | VDict "(string \<times> jvalue) list"

record member =
  mb_session_id :: int
  mb_display_name :: "string option"
  mb_role :: Role

record room_summary =
  sm_room_code :: string
  sm_name :: "string option"
  sm_guest_upload_enabled :: bool
  sm_guest_download_enabled :: bool
  sm_user_count :: int
  sm_max_users :: int
  sm_storage_used_bytes :: int
  sm_file_count :: int
  sm_expires_at :: int
  sm_remaining_seconds :: int

record room_state =
  st_room :: room_summary
  st_role :: Role
  st_me :: "int \<times> string option"
  st_members :: "member list"
  st_files :: "file_view list"
  st_messages :: "message_view list"

datatype event =
    RoomState room_state
  | RoomExpiring int
  | UserJoined int "string option" Role
  | UserLeft int "string option"
  | ChatMessageSent message_view
  | ChatMessageDeleted int
  | FileUploadCompleted file_view
  | FileUploadProgress int int int string
  | FileDeleted int
  | FileDownloaded int int
  | RoomSettingsChanged room_view
  | RoomExpiredEvent
  | Pong
  | ErrorEvent string jvalue

text \<open>
  \<open>send_json\<close> serialises with \<open>json.dumps\<close>, which knows no \<open>datetime\<close>. All events are dumped in
  JSON mode or hold numbers and strings only, but \<open>ROOM_SETTINGS_CHANGED\<close>: its room is dumped in
  Python mode and still holds the two instants.
\<close>

definition json_serializable :: "event \<Rightarrow> bool" where
  "json_serializable ev = (case ev of RoomSettingsChanged v \<Rightarrow> False | _ \<Rightarrow> True)"

section \<open>Facts\<close>

lemma checked_Inr: "checked ok body = Inr b \<longleftrightarrow> ok \<and> b = body"
  by (auto simp: checked_def)

lemma strip_name_idem: "strip_name (strip_name v) = strip_name v"
  by (auto simp: strip_name_def none_if_empty_def split: option.split)

lemma length_strip: "length (strip s) \<le> length s"
proof -
  have "length (rstrip t) \<le> length t" for t
    using length_dropWhile_le [of isspace "rev t"] by (simp add: rstrip_def)
  from this [of "lstrip s"] show ?thesis
    using length_dropWhile_le [of isspace s] by (simp add: strip_def lstrip_def)
qed

lemma strip_name_at_most: "at_most n v \<Longrightarrow> at_most n (strip_name v)"
  using length_strip by (force simp: at_most_def strip_name_def none_if_empty_def split: option.split intro: le_trans)

text \<open>What a checked body guarantees: it fits the columns it is stored in, and its name is normal.\<close>

lemma check_join_Inr:
  assumes "check_join body = Inr b"
  shows "at_most 60 (jr_display_name b) \<and> strip_name (jr_display_name b) = jr_display_name b \<and>
    jr_password b = jr_password body \<and> jr_owner_token b = jr_owner_token body"
  using assms by (auto simp: check_join_def checked_Inr join_fits_def strip_display_name_def strip_name_idem
      intro: strip_name_at_most)

lemma check_room_create_Inr:
  assumes "check_room_create body = Inr b"
  shows "at_most 120 (rc_name b) \<and> strip_name (rc_name b) = rc_name b \<and> at_most 128 (rc_password b)"
  using assms by (auto simp: check_room_create_def checked_Inr strip_name_idem intro: strip_name_at_most)

end
