(* ===== verification/Ws_Manager.thy ===== *)
theory Ws_Manager
  imports Schemas "HOL-Library.AList"
begin

text \<open>
  \<open>ws/manager.py\<close>: the registry of open WebSockets, channel to session to sockets.

  The nested \<open>defaultdict\<close>s are association lists in insertion order, so that reading a missing
  channel with \<open>[]\<close> adds an empty entry, as it does in Python. A set of sockets is a list without
  duplicates; nothing proved here depends on its order. A socket is a number, \<open>outbox\<close> the frames
  sent so far, oldest first, and \<open>gone\<close> the sockets whose peer has left: sending on one raises.

  The abstraction \<open>links\<close> is the set of triples (channel, session, socket). Each operation is shown
  to refine its set operation, and the locale \<open>presence\<close> states what the WebSocket endpoint relies on.
\<close>

type_synonym session_sockets = "(int \<times> nat list) list"
type_synonym registry = "(string \<times> session_sockets) list"

record sockets =
  registry :: registry
  outbox :: "(nat \<times> event) list"
  gone :: "nat list"

definition sessions_of :: "string \<Rightarrow> registry \<Rightarrow> session_sockets" where
  "sessions_of channel reg = (case map_of reg channel of None \<Rightarrow> [] | Some m \<Rightarrow> m)"

definition touch_channel :: "string \<Rightarrow> registry \<Rightarrow> registry" where
  "touch_channel channel reg = (case map_of reg channel of None \<Rightarrow> reg @ [(channel, [])] | Some m \<Rightarrow> reg)"

definition sockets_of :: "int \<Rightarrow> session_sockets \<Rightarrow> nat list" where
  "sockets_of session_id m = (case map_of m session_id of None \<Rightarrow> [] | Some ws \<Rightarrow> ws)"

definition add_socket :: "string \<Rightarrow> int \<Rightarrow> nat \<Rightarrow> registry \<Rightarrow> registry" where
  "add_socket channel session_id ws reg =
     (let m = sessions_of channel reg; socks = sockets_of session_id m in
      AList.update channel
        (AList.update session_id (if ws \<in> set socks then socks else socks @ [ws]) m) (touch_channel channel reg))"

definition connect :: "string \<Rightarrow> int \<Rightarrow> nat \<Rightarrow> (sockets, exc, unit) prog" where
  "connect channel session_id ws =
     bind (gets gone) (\<lambda>dead.
     seq (guard (ws \<notin> set dead) (Py WebSocketDisconnect))
         (modify (\<lambda>s. s\<lparr>registry := add_socket channel session_id ws (registry s)\<rparr>)))"

definition leave :: "int \<Rightarrow> nat \<Rightarrow> session_sockets \<Rightarrow> session_sockets" where
  "leave session_id ws m = (case map_of m session_id of
     None \<Rightarrow> m
   | Some socks \<Rightarrow>
       let socks' = removeAll ws socks in
       if socks' = [] then AList.delete session_id m else AList.update session_id socks' m)"

definition remove_socket :: "string \<Rightarrow> int \<Rightarrow> nat \<Rightarrow> registry \<Rightarrow> registry" where
  "remove_socket channel session_id ws reg0 =
     (let reg = touch_channel channel reg0;
          m' = leave session_id ws (sessions_of channel reg);
          reg' = AList.update channel m' reg
      in if m' = [] then AList.delete channel reg' else reg')"

definition disconnect :: "string \<Rightarrow> int \<Rightarrow> nat \<Rightarrow> (sockets, exc, unit) prog" where
  "disconnect channel session_id ws = modify (\<lambda>s. s\<lparr>registry := remove_socket channel session_id ws (registry s)\<rparr>)"

definition session_connection_count :: "string \<Rightarrow> int \<Rightarrow> (sockets, exc, nat) prog" where
  "session_connection_count channel session_id =
     seq (modify (\<lambda>s. s\<lparr>registry := touch_channel channel (registry s)\<rparr>))
         (gets (\<lambda>s. length (sockets_of session_id (sessions_of channel (registry s)))))"

definition is_session_connected :: "string \<Rightarrow> int \<Rightarrow> (sockets, exc, bool) prog" where
  "is_session_connected channel session_id =
     seq (modify (\<lambda>s. s\<lparr>registry := touch_channel channel (registry s)\<rparr>))
         (gets (\<lambda>s. sockets_of session_id (sessions_of channel (registry s)) \<noteq> []))"

definition active_sockets_count :: "string \<Rightarrow> (sockets, exc, nat) prog" where
  "active_sockets_count channel =
     seq (modify (\<lambda>s. s\<lparr>registry := touch_channel channel (registry s)\<rparr>))
         (gets (\<lambda>s. sum_list (map (\<lambda>(sid, socks). length socks) (sessions_of channel (registry s)))))"

definition send_json :: "nat \<Rightarrow> event \<Rightarrow> (sockets, exc, unit) prog" where
  "send_json ws ev =
     seq (guard (json_serializable ev) (Py TypeError))
     (bind (gets gone) (\<lambda>dead.
      seq (guard (ws \<notin> set dead) (Py WebSocketDisconnect))
          (modify (\<lambda>s. s\<lparr>outbox := outbox s @ [(ws, ev)]\<rparr>))))"

definition send_quietly :: "event \<Rightarrow> nat \<Rightarrow> (sockets, exc, unit) prog" where
  "send_quietly ev ws = try_except (send_json ws ev) (\<lambda>_. ret ())"

definition broadcast :: "string \<Rightarrow> event \<Rightarrow> int list \<Rightarrow> (sockets, exc, unit) prog" where
  "broadcast channel ev exclude =
     seq (modify (\<lambda>s. s\<lparr>registry := touch_channel channel (registry s)\<rparr>))
     (bind (gets (\<lambda>s. sessions_of channel (registry s))) (\<lambda>items.
      for_each items (\<lambda>(session_id, socks).
        if session_id \<in> set exclude then ret () else for_each socks (send_quietly ev))))"

section \<open>The abstraction\<close>

definition links :: "registry \<Rightarrow> (string \<times> int \<times> nat) set" where
  "links reg = {(c, i, ws). ws \<in> set (sockets_of i (sessions_of c reg))}"

text \<open>Keys are unique, and no session maps to an empty set or lists a socket twice.\<close>

definition channel_ok :: "session_sockets \<Rightarrow> bool" where
  "channel_ok m \<longleftrightarrow> distinct (map fst m) \<and> list_all (\<lambda>(i, socks). socks \<noteq> [] \<and> distinct socks) m"

definition registry_ok :: "registry \<Rightarrow> bool" where
  "registry_ok reg \<longleftrightarrow> distinct (map fst reg) \<and> list_all (\<lambda>(c, m). channel_ok m) reg"

lemma registry_ok_Nil [simp]: "registry_ok []"
  by (simp add: registry_ok_def)

lemma sessions_of_touch [simp]: "sessions_of c (touch_channel d reg) = sessions_of c reg"
  by (auto simp: sessions_of_def touch_channel_def map_add_def split: option.split)

lemma links_touch [simp]: "links (touch_channel c reg) = links reg"
  by (simp add: links_def)

lemma sessions_of_update: "sessions_of c (AList.update d m reg) = (if c = d then m else sessions_of c reg)"
  by (simp add: sessions_of_def update_conv')

lemma sockets_of_update: "sockets_of i (AList.update j socks m) = (if i = j then socks else sockets_of i m)"
  by (simp add: sockets_of_def update_conv')

lemma sockets_of_delete: "sockets_of i (AList.delete j m) = (if i = j then [] else sockets_of i m)"
  by (simp add: sockets_of_def delete_conv')

lemma sessions_of_delete: "sessions_of c (AList.delete d reg) = (if c = d then [] else sessions_of c reg)"
  by (simp add: sessions_of_def delete_conv')

lemma links_add: "links (add_socket c i ws reg) = insert (c, i, ws) (links reg)"
  by (auto simp: links_def add_socket_def Let_def sessions_of_update sockets_of_update split: if_splits)

lemma sockets_of_Nil [simp]: "sockets_of i [] = []"
  by (simp add: sockets_of_def)

lemma sockets_of_leave: "set (sockets_of j (leave i ws m)) = set (sockets_of j m) - (if j = i then {ws} else {})"
proof (cases "map_of m i")
  case None
  then have "sockets_of i m = []" by (simp add: sockets_of_def)
  with None show ?thesis by (simp add: leave_def)
next
  case (Some socks)
  then have "sockets_of i m = socks" by (simp add: sockets_of_def)
  moreover have "removeAll ws socks = [] \<longleftrightarrow> set socks \<subseteq> {ws}" by (auto simp: removeAll_filter_not_eq filter_empty_conv)
  ultimately show ?thesis
    using Some by (auto simp: leave_def Let_def sockets_of_update sockets_of_delete)
qed

lemma sessions_of_remove:
  "sessions_of d (remove_socket c i ws reg) = (if d = c then leave i ws (sessions_of c reg) else sessions_of d reg)"
  by (simp add: remove_socket_def Let_def sessions_of_delete sessions_of_update)

lemma links_remove: "links (remove_socket c i ws reg) = links reg - {(c, i, ws)}"
  by (auto simp: links_def sessions_of_remove sockets_of_leave split: if_splits)

lemma in_update: "p \<in> set (AList.update k v al) \<Longrightarrow> p = (k, v) \<or> p \<in> set al"
  by (induction al) (auto split: if_splits)

lemma in_delete: "p \<in> set (AList.delete k al) \<Longrightarrow> p \<in> set al"
  by (simp add: AList.delete_eq)

lemma channel_okD: "channel_ok m \<Longrightarrow> sockets_of i m \<noteq> [] \<Longrightarrow> distinct (sockets_of i m)"
  by (auto simp: channel_ok_def sockets_of_def list_all_iff dest!: map_of_SomeD split: option.splits)

lemma channel_ok_update: "channel_ok m \<Longrightarrow> socks \<noteq> [] \<Longrightarrow> distinct socks \<Longrightarrow> channel_ok (AList.update i socks m)"
  by (auto simp: channel_ok_def list_all_iff distinct_update dest!: in_update)

lemma channel_ok_delete: "channel_ok m \<Longrightarrow> channel_ok (AList.delete i m)"
  by (auto simp: channel_ok_def list_all_iff distinct_delete dest!: in_delete)

lemma registry_ok_sessions: "registry_ok reg \<Longrightarrow> channel_ok (sessions_of c reg)"
  by (auto simp: registry_ok_def sessions_of_def list_all_iff channel_ok_def dest!: map_of_SomeD split: option.splits)

lemma registry_ok_update: "registry_ok reg \<Longrightarrow> channel_ok m \<Longrightarrow> registry_ok (AList.update c m reg)"
  by (auto simp: registry_ok_def list_all_iff distinct_update dest!: in_update)

lemma registry_ok_delete: "registry_ok reg \<Longrightarrow> registry_ok (AList.delete c reg)"
  by (auto simp: registry_ok_def list_all_iff distinct_delete dest!: in_delete)

lemma registry_ok_touch: "registry_ok reg \<Longrightarrow> registry_ok (touch_channel c reg)"
  by (auto simp: touch_channel_def registry_ok_def channel_ok_def map_of_eq_None_iff split: option.split)

lemma registry_ok_add: 
  assumes "registry_ok reg"
  shows "registry_ok (add_socket c i ws reg)"
proof -
  have "sockets_of i (sessions_of c reg) = [] \<or> distinct (sockets_of i (sessions_of c reg))"
    using channel_okD [OF registry_ok_sessions [OF assms]] by blast
  then show ?thesis
    using assms unfolding add_socket_def Let_def
    by (intro registry_ok_update registry_ok_touch channel_ok_update registry_ok_sessions) (auto split: if_splits)
qed

lemma channel_ok_leave:
  assumes "channel_ok m"
  shows "channel_ok (leave i ws m)"
proof (cases "map_of m i")
  case (Some socks)
  with assms have "distinct socks" by (auto simp: channel_ok_def list_all_iff dest!: map_of_SomeD)
  with assms Some show ?thesis
    by (auto simp: leave_def Let_def distinct_removeAll intro: channel_ok_update channel_ok_delete)
qed (use assms in \<open>simp add: leave_def\<close>)

lemma registry_ok_remove:
  assumes "registry_ok reg"
  shows "registry_ok (remove_socket c i ws reg)"
proof -
  have "registry_ok (AList.update c (leave i ws (sessions_of c reg)) (touch_channel c reg))"
    using assms by (intro registry_ok_update registry_ok_touch channel_ok_leave registry_ok_sessions)
  then show ?thesis by (auto simp: remove_socket_def Let_def intro: registry_ok_delete)
qed


section \<open>What the endpoint relies on\<close>

locale presence =
  fixes enter quit_room :: "'c \<Rightarrow> 'i \<Rightarrow> 'w \<Rightarrow> 'r \<Rightarrow> 'r"
    and online :: "'c \<Rightarrow> 'i \<Rightarrow> 'r \<Rightarrow> bool"
    and linked :: "'r \<Rightarrow> ('c \<times> 'i \<times> 'w) set"
  assumes linked_enter: "linked (enter c i ws r) = insert (c, i, ws) (linked r)"
    and linked_quit: "linked (quit_room c i ws r) = linked r - {(c, i, ws)}"
    and online_iff: "online c i r \<longleftrightarrow> (\<exists>ws. (c, i, ws) \<in> linked r)"
begin

lemma online_enter: "online d j (enter c i ws r) \<longleftrightarrow> (d = c \<and> j = i) \<or> online d j r"
  by (auto simp: online_iff linked_enter)

lemma online_quit: "online d j (quit_room c i ws r) \<longleftrightarrow> (\<exists>v. (d, j, v) \<in> linked r \<and> (d, j, v) \<noteq> (c, i, ws))"
  by (auto simp: online_iff linked_quit)

lemma quit_keeps_others: "d \<noteq> c \<or> j \<noteq> i \<Longrightarrow> online d j (quit_room c i ws r) \<longleftrightarrow> online d j r"
  by (auto simp: online_iff linked_quit)

lemma quit_enter: "(c, i, ws) \<notin> linked r \<Longrightarrow> online d j (quit_room c i ws (enter c i ws r)) \<longleftrightarrow> online d j r"
  by (auto simp: online_iff linked_quit linked_enter)

end

definition connected :: "string \<Rightarrow> int \<Rightarrow> registry \<Rightarrow> bool" where
  "connected channel session_id reg \<longleftrightarrow> sockets_of session_id (sessions_of channel reg) \<noteq> []"

interpretation hub: presence add_socket remove_socket connected links
proof unfold_locales
  show "links (add_socket c i ws r) = insert (c, i, ws) (links r)" for c i ws r by (rule links_add)
  show "links (remove_socket c i ws r) = links r - {(c, i, ws)}" for c i ws r by (rule links_remove)
  show "connected c i r \<longleftrightarrow> (\<exists>ws. (c, i, ws) \<in> links r)" for c i r
    by (auto simp: connected_def links_def ex_in_conv)
qed

lemma connected_touch [simp]: "connected c i (touch_channel d reg) = connected c i reg"
  by (simp add: connected_def)

lemma wp_connect [wp_simps]:
  "wp (connect c i ws) Q E s = (if ws \<in> set (gone s) then E (Py WebSocketDisconnect) s
     else Q () (s\<lparr>registry := add_socket c i ws (registry s)\<rparr>))"
  by (simp add: connect_def wp_simps)

lemma wp_disconnect [wp_simps]:
  "wp (disconnect c i ws) Q E s = Q () (s\<lparr>registry := remove_socket c i ws (registry s)\<rparr>)"
  by (simp add: disconnect_def wp_simps)

lemma wp_is_session_connected [wp_simps]:
  "wp (is_session_connected c i) Q E s = Q (connected c i (registry s)) (s\<lparr>registry := touch_channel c (registry s)\<rparr>)"
  by (simp add: is_session_connected_def connected_def wp_simps)

lemma wp_send_json [wp_simps]:
  "wp (send_json ws ev) Q E s = (if \<not> json_serializable ev then E (Py TypeError) s
     else if ws \<in> set (gone s) then E (Py WebSocketDisconnect) s else Q () (s\<lparr>outbox := outbox s @ [(ws, ev)]\<rparr>))"
  by (simp add: send_json_def wp_simps)

text \<open>Who gets a broadcast: the live sockets of the channel's sessions that are not excluded.\<close>

definition recipients :: "int list \<Rightarrow> nat list \<Rightarrow> session_sockets \<Rightarrow> nat list" where
  "recipients exclude dead m = concat (map (\<lambda>(i, socks).
     if i \<in> set exclude then [] else filter (\<lambda>ws. ws \<notin> set dead) socks) m)"

lemma recipients_simps [simp]:
  "recipients exclude dead [] = []"
  "recipients exclude dead ((i, socks) # m) =
     (if i \<in> set exclude then [] else filter (\<lambda>ws. ws \<notin> set dead) socks) @ recipients exclude dead m"
  by (simp_all add: recipients_def)

lemma send_quietly_all:
  "for_each socks (send_quietly ev) s = (Inr (), s\<lparr>outbox := outbox s @
     (if json_serializable ev then map (\<lambda>ws. (ws, ev)) (filter (\<lambda>ws. ws \<notin> set (gone s)) socks) else [])\<rparr>)"
proof (induction socks arbitrary: s)
  case (Cons ws socks)
  have "send_quietly ev ws s = (Inr (), s\<lparr>outbox := outbox s @
      (if json_serializable ev \<and> ws \<notin> set (gone s) then [(ws, ev)] else [])\<rparr>)"
    by (simp add: send_quietly_def send_json_def try_except_def seq_def bind_def guard_def gets_def modify_def
        ret_def raise_def)
  then show ?case by (simp add: seq_def bind_def Cons.IH)
qed (simp add: ret_def)

lemma broadcast_items:
  "for_each items (\<lambda>(i, socks). if i \<in> set exclude then ret () else for_each socks (send_quietly ev)) s
     = (Inr (), s\<lparr>outbox := outbox s @ (if json_serializable ev
          then map (\<lambda>ws. (ws, ev)) (recipients exclude (gone s) items) else [])\<rparr>)"
  by (induction items arbitrary: s) (auto simp: ret_def seq_def bind_def send_quietly_all)

lemma broadcast_eq:
  "broadcast c ev exclude s = (Inr (), s\<lparr>registry := touch_channel c (registry s),
     outbox := outbox s @ (if json_serializable ev
       then map (\<lambda>ws. (ws, ev)) (recipients exclude (gone s) (sessions_of c (registry s))) else [])\<rparr>)"
  by (simp add: broadcast_def seq_def bind_def modify_def gets_def broadcast_items)

lemma wp_broadcast [wp_simps]:
  "wp (broadcast c ev exclude) Q E s = Q () (s\<lparr>registry := touch_channel c (registry s),
     outbox := outbox s @ (if json_serializable ev
       then map (\<lambda>ws. (ws, ev)) (recipients exclude (gone s) (sessions_of c (registry s))) else [])\<rparr>)"
  by (simp add: wp_def broadcast_eq)

lemma set_recipients:
  assumes "registry_ok reg"
  shows "set (recipients exclude dead (sessions_of c reg))
    = {ws. ws \<notin> set dead \<and> (\<exists>i. i \<notin> set exclude \<and> (c, i, ws) \<in> links reg)}"
proof -
  have ok: "distinct (map fst (sessions_of c reg))"
    using registry_ok_sessions [OF assms] by (simp add: channel_ok_def)
  then have "(i, socks) \<in> set (sessions_of c reg) \<longleftrightarrow> map_of (sessions_of c reg) i = Some socks" for i socks
    by simp
  then show ?thesis
    by (force simp: recipients_def links_def sockets_of_def split: option.splits if_splits)
qed

text \<open>A socket that belongs to one session of the channel gets the event once.\<close>

lemma distinct_recipients:
  assumes "channel_ok m"
    and "\<And>i j ws. ws \<in> set (sockets_of i m) \<Longrightarrow> ws \<in> set (sockets_of j m) \<Longrightarrow> i = j"
  shows "distinct (recipients exclude dead m)"
  using assms
proof (induction m)
  case (Cons p m)
  obtain i socks where p: "p = (i, socks)" by (cases p)
  have ok: "channel_ok m" "i \<notin> fst ` set m" "distinct socks"
    using Cons.prems(1) by (auto simp: p channel_ok_def)
  have other: "sockets_of j (p # m) = (if j = i then socks else sockets_of j m)" for j
    by (simp add: p sockets_of_def)
  have i: "sockets_of i m = []" using ok(2) by (simp add: sockets_of_def map_of_eq_None_iff [THEN iffD2])
  have "j = k" if "ws \<in> set (sockets_of j m)" "ws \<in> set (sockets_of k m)" for j k ws
  proof -
    have "j \<noteq> i" "k \<noteq> i" using that i by auto
    with Cons.prems(2) [of ws j k] that show ?thesis by (simp add: other)
  qed
  from Cons.IH [OF ok(1) this] have IH: "distinct (recipients exclude dead m)" .
  have "set socks \<inter> set (recipients exclude dead m) = {}"
  proof -
    have "j = i \<and> False" if "(j, ss) \<in> set m" "ws \<in> set ss" "ws \<in> set socks" for j ss ws
    proof -
      have "map_of m j = Some ss" using ok(1) that(1) by (simp add: channel_ok_def)
      then have "ws \<in> set (sockets_of j m)" using that(2) by (simp add: sockets_of_def)
      moreover have "j \<noteq> i" using ok(2) that(1) by force
      ultimately show ?thesis using Cons.prems(2) [of ws j i] that(3) by (auto simp: other)
    qed
    then show ?thesis by (auto simp: recipients_def split: if_splits)
  qed
  then show ?case using IH ok(3) by (auto simp: p)
qed (simp add: recipients_def)

end
