(* ===== verification/Deps.thy ===== *)
theory Deps
  imports Evolution Ratelimit Ws_Manager
begin

text \<open>
  \<open>api/deps.py\<close>, \<open>db/session.py\<close> and the parts of a request the endpoints share.

  The state of the application extends the database world by the monotonic clock, the rate limiter,
  the sockets, the jobs handed to the queue and the open connections. A request runs in a session of its own: it sees the
  last committed database, and what it did not commit is gone when the session closes, whether the
  handler returned or raised. The statements of one session keep its ORM objects current, so an
  endpoint that answers with a row it loaded earlier answers with the row as it is now (\<open>orm_room\<close>).
\<close>

section \<open>The state of the application\<close>

text \<open>An open WebSocket: the session and the room its handler loaded when it connected.\<close>

record conn =
  c_ws :: nat
  c_session :: session_rec
  c_room :: room

record 'st app = "'st world" +
  a_mono :: rat
  a_limiter :: limiter
  a_sockets :: sockets
  a_jobs :: "(string \<times> json_dict) list"
  a_conns :: "conn list"

type_synonym ('st, 'z, 'a) api = "(('st, 'z) app_scheme, exc, 'a) prog"

definition on_sockets :: "(sockets, exc, 'a) prog \<Rightarrow> ('st, 'z, 'a) api" where
  "on_sockets p w = (let (r, s) = p (a_sockets w) in (r, w\<lparr>a_sockets := s\<rparr>))"

definition on_limiter :: "(limiter, exc, 'a) prog \<Rightarrow> ('st, 'z, 'a) api" where
  "on_limiter p w = (let (r, l) = p (a_limiter w) in (r, w\<lparr>a_limiter := l\<rparr>))"

text \<open>\<open>limiter.check(scope, key, limit)\<close>.\<close>

definition limit_check :: "settings \<Rightarrow> string \<Rightarrow> string \<Rightarrow> int \<Rightarrow> ('st, 'z, unit) api" where
  "limit_check cfg scope key limit = bind (gets a_mono) (\<lambda>now.
     on_limiter (deps_check cfg now scope key (Some limit) None))"

definition with_session :: "('st, 'z, 'a) action \<Rightarrow> ('st, 'z, 'a) action" where
  "with_session m w = (let (r, t) = m (w\<lparr>w_db := w_saved w\<rparr>) in (r, t\<lparr>w_db := w_saved t\<rparr>))"

definition orm_room :: "room \<Rightarrow> ('st, 'z, room) action" where
  "orm_room room = query (\<lambda>d. case sel (\<lambda>r. r_id r = r_id room) (rooms d) of [] \<Rightarrow> room | r # _ \<Rightarrow> r)"

section \<open>Requests\<close>

record request =
  q_method :: string
  q_forwarded_for :: "string option"
  q_client_host :: "string option"
  q_cookies :: "(string \<times> string) list"
  q_csrf_header :: "string option"

definition cookie :: "request \<Rightarrow> string \<Rightarrow> string option" where
  "cookie req name = map_of (q_cookies req) name"

definition client_ip :: "request \<Rightarrow> string" where
  "client_ip req =
     (if truthy (q_forwarded_for req) then strip (split_first (CHR '','') (the (q_forwarded_for req)))
      else case q_client_host req of Some host \<Rightarrow> host | None \<Rightarrow> ''unknown'')"

definition client_host :: "request \<Rightarrow> string" where
  "client_host req = (case q_client_host req of Some host \<Rightarrow> host | None \<Rightarrow> ''unknown'')"

record set_cookie =
  ck_name :: string
  ck_value :: string
  ck_max_age :: int
  ck_httponly :: bool
  ck_secure :: bool
  ck_samesite :: string
  ck_domain :: "string option"
  ck_path :: string

definition make_cookie :: "settings \<Rightarrow> string \<Rightarrow> string \<Rightarrow> bool \<Rightarrow> set_cookie" where
  "make_cookie cfg name v httponly = \<lparr>ck_name = name, ck_value = v, ck_max_age = session_ttl_seconds cfg,
     ck_httponly = httponly, ck_secure = cookie_secure cfg, ck_samesite = ''strict'',
     ck_domain = cookie_domain cfg, ck_path = ''/''\<rparr>"

definition set_auth_cookies :: "settings \<Rightarrow> crypto \<Rightarrow> bytes \<Rightarrow> string \<Rightarrow> set_cookie list" where
  "set_auth_cookies cfg cr rnd session_token =
     [make_cookie cfg (session_cookie_name cfg) session_token True,
      make_cookie cfg (csrf_cookie_name cfg) (make_csrf_token cr rnd (csrf_secret cfg)) False]"

section \<open>Dependencies\<close>

definition validate_csrf :: "settings \<Rightarrow> crypto \<Rightarrow> request \<Rightarrow> exc + unit" where
  "validate_csrf cfg cr req =
     (if q_method req \<in> {''GET'', ''HEAD'', ''OPTIONS''} then Inr ()
      else let cookie_value = cookie req (csrf_cookie_name cfg) in
        if \<not> truthy cookie_value \<or> \<not> truthy (q_csrf_header req)
        then Inl (init_error CSRFValidationFailed ''CSRF token missing'')
        else if \<not> verify_csrf_token cr (the cookie_value) (csrf_secret cfg)
        then Inl (init_error CSRFValidationFailed ''CSRF cookie is not valid'')
        else if cookie_value \<noteq> q_csrf_header req
        then Inl (init_error CSRFValidationFailed ''CSRF header does not match cookie'')
        else Inr ())"

text \<open>\<open>GET /csrf\<close>: the token, and the cookie that carries it.\<close>

definition csrf_endpoint :: "settings \<Rightarrow> crypto \<Rightarrow> bytes \<Rightarrow> request \<Rightarrow> exc + string \<times> set_cookie list" where
  "csrf_endpoint cfg cr rnd req = (case validate_csrf cfg cr req of
     Inl e \<Rightarrow> Inl e
   | Inr _ \<Rightarrow> let token = make_csrf_token cr rnd (csrf_secret cfg)
             in Inr (token, [make_cookie cfg (csrf_cookie_name cfg) token False]))"

definition session_from_cookies :: "settings \<Rightarrow> crypto \<Rightarrow> request \<Rightarrow> ('st, 'z, session_rec option) action" where
  "session_from_cookies cfg cr req =
     (let token = cookie req (session_cookie_name cfg) in
      if \<not> truthy token then ret None else get_by_token_hash (hash_token cr (the token)))"

definition require_session :: "settings \<Rightarrow> crypto \<Rightarrow> request \<Rightarrow> ('st, 'z, session_rec) action" where
  "require_session cfg cr req =
     bind (session_from_cookies cfg cr req) (\<lambda>found.
     bind utcnow (\<lambda>now.
     case found of
       None \<Rightarrow> raise (init_error NotAuthenticated [])
     | Some s \<Rightarrow> if has_expired now (Aware (s_expires_at s)) then raise (init_error NotAuthenticated []) else ret s))"

definition get_room_by_token :: "crypto \<Rightarrow> string \<Rightarrow> ('st, 'z, room) action" where
  "get_room_by_token cr room_token =
     bind (get_room_by_access_token cr room_token) (\<lambda>found. case found of
       None \<Rightarrow> raise (init_error RoomNotFound []) | Some r \<Rightarrow> ret r)"

definition require_member ::
  "settings \<Rightarrow> crypto \<Rightarrow> request \<Rightarrow> string \<Rightarrow> ('st, 'z, session_rec \<times> room) action" where
  "require_member cfg cr req room_token =
     bind (require_session cfg cr req) (\<lambda>s.
     bind (get_room_by_token cr room_token) (\<lambda>r.
     seq (guard (s_room_id s = r_id r) (init_error PermissionDenied ''You are not a member of this room''))
         (ret (s, r))))"

text \<open>The owner check of \<open>api/deps.py\<close>, which no endpoint uses: it does not ask whether the owner owns this room.\<close>

definition deps_require_room_owner ::
  "settings \<Rightarrow> crypto \<Rightarrow> request \<Rightarrow> string \<Rightarrow> ('st, 'z, session_rec \<times> room) action" where
  "deps_require_room_owner cfg cr req room_token =
     bind (require_session cfg cr req) (\<lambda>s.
     bind (get_room_by_token cr room_token) (\<lambda>r.
     seq (guard (s_role s = OWNER) (init_error PermissionDenied []))
         (ret (s, r))))"

definition session_from_ws :: "crypto \<Rightarrow> string option \<Rightarrow> ('st, 'z, session_rec option) action" where
  "session_from_ws cr token =
     (if truthy token then get_by_token_hash (hash_token cr (the token)) else ret None)"

text \<open>\<open>_load_session\<close> and \<open>require_room_owner\<close> of \<open>api/rooms.py\<close>.\<close>

definition load_session :: "settings \<Rightarrow> crypto \<Rightarrow> request \<Rightarrow> ('st, 'z, session_rec) action" where
  "load_session cfg cr req =
     (let token = cookie req (session_cookie_name cfg) in
      if \<not> truthy token then raise (init_error NotAuthenticated [])
      else bind (get_by_token_hash (hash_token cr (the token))) (\<lambda>found.
           bind utcnow (\<lambda>now.
           case found of
             None \<Rightarrow> raise (init_error NotAuthenticated [])
           | Some s \<Rightarrow> if has_expired now (Aware (s_expires_at s)) then raise (init_error NotAuthenticated []) else ret s)))"

definition require_room_owner ::
  "settings \<Rightarrow> crypto \<Rightarrow> request \<Rightarrow> string \<Rightarrow> ('st, 'z, session_rec \<times> room) action" where
  "require_room_owner cfg cr req room_token =
     bind (load_session cfg cr req) (\<lambda>s.
     bind (get_room_by_token cr room_token) (\<lambda>r.
     seq (guard (s_room_id s = r_id r) (init_error PermissionDenied ''You are not a member of this room''))
     (seq (guard (s_role s = OWNER) (init_error PermissionDenied ''Only the room owner can do this''))
         (ret (s, r)))))"

text \<open>The two ways to load the session of a request agree.\<close>

lemma load_session_eq: "load_session cfg cr req = require_session cfg cr req"
  by (auto simp: load_session_def require_session_def session_from_cookies_def Let_def bind_def ret_def utcnow_def gets_def fun_eq_iff)

section \<open>Rules\<close>

lemma wp_on_sockets [wp_simps]:
  "wp (on_sockets p) Q E w = wp p (\<lambda>x s. Q x (w\<lparr>a_sockets := s\<rparr>)) (\<lambda>e s. E e (w\<lparr>a_sockets := s\<rparr>)) (a_sockets w)"
  by (auto simp: wp_def on_sockets_def split: prod.splits sum.splits)

lemma wp_on_limiter [wp_simps]:
  "wp (on_limiter p) Q E w = wp p (\<lambda>x l. Q x (w\<lparr>a_limiter := l\<rparr>)) (\<lambda>e l. E e (w\<lparr>a_limiter := l\<rparr>)) (a_limiter w)"
  by (auto simp: wp_def on_limiter_def split: prod.splits sum.splits)

lemma wp_with_session [wp_simps]:
  "wp (with_session m) Q E w = wp m (\<lambda>x t. Q x (t\<lparr>w_db := w_saved t\<rparr>)) (\<lambda>e t. E e (t\<lparr>w_db := w_saved t\<rparr>))
     (w\<lparr>w_db := w_saved w\<rparr>)"
  by (auto simp: wp_def with_session_def split: prod.splits sum.splits)

text \<open>The limiter check changes only the limiter, whatever it answers.\<close>

lemma limit_check_wp:
  assumes "\<And>l. Q () (w\<lparr>a_limiter := l\<rparr>)" and "\<And>l. E (init_error RateLimited ''Too many requests; try again shortly'') (w\<lparr>a_limiter := l\<rparr>)"
  shows "wp (limit_check cfg scope key limit) Q E w"
proof -
  have "wp (deps_check cfg now scope key lim win) (\<lambda>u l. Q u (w\<lparr>a_limiter := l\<rparr>)) (\<lambda>e l. E e (w\<lparr>a_limiter := l\<rparr>)) l0"
    for now lim win l0
    using assms by (simp add: wp_def deps_check_def Let_def split: prod.split)
  then show ?thesis by (simp add: limit_check_def wp_simps)
qed

lemma scalar_sel: "scalar_one_or_none (sel P rows) = Inr (Some r) \<Longrightarrow> r \<in> set rows \<and> P r"
  using set_sel [of P rows] by (auto simp: scalar_Some)

lemma require_session_wp:
  assumes "\<And>s. s \<in> set (sessions (w_db w)) \<Longrightarrow> w_now w < s_expires_at s \<Longrightarrow> truthy (cookie req (session_cookie_name cfg)) \<Longrightarrow>
      s_session_token_hash s = hash_token cr (the (cookie req (session_cookie_name cfg))) \<Longrightarrow> Q s w"
    and "\<And>e. E e w"
  shows "wp (require_session cfg cr req) Q E w"
  using assms
  by (auto simp: require_session_def session_from_cookies_def get_by_token_hash_def wp_simps Let_def has_expired_def
      ensure_aware_def split: sum.split option.split datetime.split dest!: scalar_sel)

lemma get_room_by_token_wp:
  assumes "\<And>r. r \<in> set (rooms (w_db w)) \<Longrightarrow> r_access_token_hash r = hash_token cr room_token \<Longrightarrow> Q r w" and "\<And>e. E e w"
  shows "wp (get_room_by_token cr room_token) Q E w"
  using assms
  by (auto simp: get_room_by_token_def get_room_by_access_token_def find_room_def wp_simps
      split: sum.split option.split dest!: scalar_sel)

lemma require_member_wp:
  assumes "\<And>s r. s \<in> set (sessions (w_db w)) \<Longrightarrow> r \<in> set (rooms (w_db w)) \<Longrightarrow> s_room_id s = r_id r \<Longrightarrow>
      w_now w < s_expires_at s \<Longrightarrow> r_access_token_hash r = hash_token cr room_token \<Longrightarrow>
      s_session_token_hash s = hash_token cr (the (cookie req (session_cookie_name cfg))) \<Longrightarrow> truthy (cookie req (session_cookie_name cfg)) \<Longrightarrow> Q (s, r) w"
    and "\<And>e. E e w"
  shows "wp (require_member cfg cr req room_token) Q E w"
  unfolding require_member_def wp_bind
  by (rule require_session_wp; (rule assms(2))?; rule get_room_by_token_wp; (rule assms(2))?)
    (use assms in \<open>auto simp: wp_simps\<close>)

lemma require_room_owner_wp:
  assumes "\<And>s r. s \<in> set (sessions (w_db w)) \<Longrightarrow> r \<in> set (rooms (w_db w)) \<Longrightarrow> s_room_id s = r_id r \<Longrightarrow>
      w_now w < s_expires_at s \<Longrightarrow> r_access_token_hash r = hash_token cr room_token \<Longrightarrow> s_role s = OWNER \<Longrightarrow>
      s_session_token_hash s = hash_token cr (the (cookie req (session_cookie_name cfg))) \<Longrightarrow> truthy (cookie req (session_cookie_name cfg)) \<Longrightarrow> Q (s, r) w"
    and "\<And>e. E e w"
  shows "wp (require_room_owner cfg cr req room_token) Q E w"
  unfolding require_room_owner_def load_session_eq wp_bind
  by (rule require_session_wp; (rule assms(2))?; rule get_room_by_token_wp; (rule assms(2))?)
    (use assms in \<open>auto simp: wp_simps\<close>)

text \<open>A request that changes something carries a genuine token twice.\<close>

lemma validate_csrf_Inr:
  "validate_csrf cfg cr req = Inr u \<longleftrightarrow> q_method req \<in> {''GET'', ''HEAD'', ''OPTIONS''} \<or>
     (\<exists>t. t \<noteq> [] \<and> cookie req (csrf_cookie_name cfg) = Some t \<and> q_csrf_header req = Some t \<and>
        verify_csrf_token cr t (csrf_secret cfg))"
  by (auto simp: validate_csrf_def Let_def truthy_def split: option.splits)

end
