(* ===== verification/Safety.thy ===== *)
theory Safety
  imports Deps
begin

text \<open>
  The invariant the endpoints keep. \<open>steady\<close> is what holds between requests: the committed database
  satisfies the table invariant, no room has more seats taken than counted, every open connection
  still belongs to its session and room, and nothing has evolved backwards since \<open>d0\<close>. \<open>tx\<close> says the
  same of the database the running transaction sees. A service takes \<open>tx\<close> to \<open>tx\<close> and leaves
  \<open>steady\<close> alone; a commit turns \<open>tx\<close> into \<open>steady\<close>. So a handler is safe when its services are.
\<close>

definition online :: "conn list \<Rightarrow> int \<Rightarrow> bool" where
  "online conns i \<longleftrightarrow> i \<in> set (map (\<lambda>c. s_id (c_session c)) conns)"

definition conn_ok :: "sequences \<Rightarrow> database \<Rightarrow> conn \<Rightarrow> bool" where
  "conn_ok sq d c \<longleftrightarrow> s_room_id (c_session c) = r_id (c_room c) \<and> s_id (c_session c) < session_seq sq \<and>
     (\<forall>s \<in> set (sessions d). s_id s = s_id (c_session c) \<longrightarrow> s_room_id s = r_id (c_room c)) \<and>
     (has_session (s_id (c_session c)) (r_id (c_room c)) d \<or> is_deleted (r_id (c_room c)) d)"

definition db_ok :: "database \<Rightarrow> bool \<Rightarrow> settings \<Rightarrow> ('st, 'z) app_scheme \<Rightarrow> database \<Rightarrow> bool" where
  "db_ok d0 exact cfg w d \<longleftrightarrow> db_inv exact cfg (w_seq w) d \<and> within_capacity (online (a_conns w)) (w_now w) d \<and>
     (\<forall>c \<in> set (a_conns w). conn_ok (w_seq w) d c) \<and> rooms_evolve d0 d"

definition tx :: "database \<Rightarrow> bool \<Rightarrow> settings \<Rightarrow> ('st, 'z) app_scheme \<Rightarrow> bool" where
  "tx d0 exact cfg w \<longleftrightarrow> db_ok d0 exact cfg w (w_db w)"

definition steady :: "database \<Rightarrow> bool \<Rightarrow> settings \<Rightarrow> ('st, 'z) app_scheme \<Rightarrow> bool" where
  "steady d0 exact cfg w \<longleftrightarrow> db_ok d0 exact cfg w (w_saved w)"

lemma db_ok_cong:
  "w_seq w' = w_seq w \<Longrightarrow> a_conns w' = a_conns w \<Longrightarrow> w_now w' = w_now w \<Longrightarrow> db_ok d0 exact cfg w' d = db_ok d0 exact cfg w d"
  by (simp add: db_ok_def)

lemma db_ok_updates [simp]:
  "db_ok d0 exact cfg (w\<lparr>w_saved := d'\<rparr>) d = db_ok d0 exact cfg w d"
  "db_ok d0 exact cfg (w\<lparr>w_db := d'\<rparr>) d = db_ok d0 exact cfg w d"
  by (simp_all add: db_ok_def)

lemma tx_updates [simp]:
  "tx d0 exact cfg (w\<lparr>a_limiter := l\<rparr>) = tx d0 exact cfg w" "tx d0 exact cfg (w\<lparr>a_sockets := s\<rparr>) = tx d0 exact cfg w"
  "tx d0 exact cfg (w\<lparr>a_jobs := js\<rparr>) = tx d0 exact cfg w" "tx d0 exact cfg (w\<lparr>w_store := st\<rparr>) = tx d0 exact cfg w"
  "tx d0 exact cfg (w\<lparr>w_saved := d\<rparr>) = tx d0 exact cfg w" "tx d0 exact cfg (w\<lparr>w_db := d\<rparr>) = db_ok d0 exact cfg w d"
  by (simp_all add: tx_def db_ok_def)

lemma steady_updates [simp]:
  "steady d0 exact cfg (w\<lparr>a_limiter := l\<rparr>) = steady d0 exact cfg w"
  "steady d0 exact cfg (w\<lparr>a_sockets := s\<rparr>) = steady d0 exact cfg w"
  "steady d0 exact cfg (w\<lparr>a_jobs := js\<rparr>) = steady d0 exact cfg w"
  "steady d0 exact cfg (w\<lparr>w_store := st\<rparr>) = steady d0 exact cfg w"
  "steady d0 exact cfg (w\<lparr>w_db := d\<rparr>) = steady d0 exact cfg w"
  "steady d0 exact cfg (w\<lparr>w_saved := d\<rparr>) = db_ok d0 exact cfg w d"
  by (simp_all add: steady_def db_ok_def)

lemma tx_good: "tx d0 exact cfg w \<Longrightarrow> good exact cfg w"
  by (simp add: tx_def db_ok_def good_def)

lemma tx_capped: "tx d0 exact cfg w \<Longrightarrow> capped (online (a_conns w)) w"
  by (simp add: tx_def db_ok_def capped_def)

lemma confined_parts:
  fixes w w' :: "('st, 'z) app_scheme"
  assumes "confined w w'"
  shows "a_conns w' = a_conns w" "a_sockets w' = a_sockets w" "w_now w' = w_now w" "w_saved w' = w_saved w"
    "seq_le (w_seq w) (w_seq w')"
proof -
  have m: "world.more w' = world.more w" using assms by (simp add: confined_def)
  show "a_conns w' = a_conns w" using m by (cases w; cases w'; simp)
  show "a_sockets w' = a_sockets w" using m by (cases w; cases w'; simp)
qed (use assms in \<open>auto simp: confined_def\<close>)

lemma conn_ok_mono: "conn_ok sq d c \<Longrightarrow> seq_le sq sq' \<Longrightarrow> conn_ok sq' d c"
  by (auto simp: conn_ok_def seq_le_def)

lemma conn_ok_evolves:
  assumes "conn_ok sq d c" and "evolved sq d w'"
  shows "conn_ok (w_seq w') (w_db w') c"
proof -
  let ?s = "s_id (c_session c)" and ?i = "r_id (c_room c)"
  have e: "rooms_evolve d (w_db w')" "sessions_evolve sq d (w_db w')" "session_seq sq \<le> session_seq (w_seq w')"
    using assms(2) by (simp_all add: evolved_def)
  have only: "s_room_id s = ?i" if "s \<in> set (sessions (w_db w'))" "s_id s = ?s" for s
  proof -
    have "has_session ?s (s_room_id s) (w_db w')" using that by (auto simp: has_session_def)
    then have "has_session ?s (s_room_id s) d" using e(2) assms(1) by (fastforce simp: sessions_evolve_def conn_ok_def)
    then show ?thesis using assms(1) by (auto simp: conn_ok_def has_session_def)
  qed
  have "has_session ?s ?i (w_db w') \<or> is_deleted ?i (w_db w')"
    using assms(1) e(2) rooms_evolve_deleted [OF e(1)] by (auto simp: conn_ok_def sessions_evolve_def)
  with assms(1) e(3) only show ?thesis by (auto simp: conn_ok_def)
qed

lemma steady_confined:
  fixes w w' :: "('st, 'z) app_scheme"
  assumes "steady d0 exact cfg w" and "confined w w'"
  shows "steady d0 exact cfg w'"
proof -
  note parts = confined_parts [OF assms(2)]
  have old: "db_ok d0 exact cfg w (w_saved w)" using assms(1) by (simp add: steady_def)
  then have "db_inv exact cfg (w_seq w') (w_saved w)" using db_inv_mono [OF _ parts(5)] by (simp add: db_ok_def)
  moreover have "\<forall>c \<in> set (a_conns w). conn_ok (w_seq w') (w_saved w) c"
    using old conn_ok_mono [OF _ parts(5)] by (auto simp: db_ok_def)
  ultimately show ?thesis using old parts(1-4) by (simp add: steady_def db_ok_def)
qed

text \<open>The rule for a service: what it returns with, and that the state is still sound.\<close>

lemma safe_service:
  fixes w :: "('st, 'z) app_scheme"
  assumes m: "wp m Q E w" and tx: "tx d0 exact cfg w" and steady: "steady d0 exact cfg w"
    and conf: "keeps (confined w) m"
    and Q: "\<And>x t. Q x t \<Longrightarrow> good exact cfg t \<and> capped (online (a_conns w)) t \<and> evolved (w_seq w) (w_db w) t"
  shows "wp m (\<lambda>x t. Q x t \<and> confined w t \<and> tx d0 exact cfg t \<and> steady d0 exact cfg t)
    (\<lambda>e t. confined w t \<and> steady d0 exact cfg t) w"
proof (rule wp_mono [OF wp_confined [OF m conf]])
  fix x t
  assume t: "Q x t \<and> confined w t"
  then have q: "good exact cfg t" "capped (online (a_conns w)) t" "evolved (w_seq w) (w_db w) t" using Q by blast+
  note parts = confined_parts [OF conjunct2 [OF t]]
  have ok: "db_ok d0 exact cfg w (w_db w)" using tx by (simp add: tx_def)
  then have "\<forall>c \<in> set (a_conns w). conn_ok (w_seq t) (w_db t) c"
    using conn_ok_evolves [OF _ q(3)] by (simp add: db_ok_def)
  moreover have "rooms_evolve d0 (w_db t)"
    using ok q(3) rooms_evolve_trans [of d0 "w_db w" "w_db t"] by (simp add: db_ok_def evolved_def)
  ultimately have "tx d0 exact cfg t"
    using q(1,2) parts(1,3) by (simp add: tx_def db_ok_def good_def capped_def)
  with t steady_confined [OF steady] show "Q x t \<and> confined w t \<and> tx d0 exact cfg t \<and> steady d0 exact cfg t" by blast
next
  fix e t
  assume "E e t \<and> confined w t"
  with steady_confined [OF steady] show "confined w t \<and> steady d0 exact cfg t" by blast
qed

lemma safe_frame_service:
  fixes w :: "('st, 'z) app_scheme"
  assumes m: "wp m Q E w" and tx: "tx d0 exact cfg w" and steady: "steady d0 exact cfg w"
    and conf: "keeps (confined w) m" and cap: "keeps (capped (online (a_conns w))) m"
    and ev: "keeps (evolved (w_seq w) (w_db w)) m" and Q: "\<And>x t. Q x t \<Longrightarrow> good exact cfg t"
  shows "wp m (\<lambda>x t. Q x t \<and> confined w t \<and> tx d0 exact cfg t \<and> steady d0 exact cfg t)
    (\<lambda>e t. confined w t \<and> steady d0 exact cfg t) w"
proof -
  have "evolved (w_seq w) (w_db w) w" by (simp add: evolved_def)
  from wp_keeps [OF wp_keeps [OF m cap tx_capped [OF tx]] ev this]
  show ?thesis
    by (rule wp_mono [OF safe_service [OF _ tx steady conf]]) (use Q in auto)
qed

text \<open>A commit publishes the transaction.\<close>

lemma steady_commit: "tx d0 exact cfg w \<Longrightarrow> steady d0 exact cfg (w\<lparr>w_saved := w_db w\<rparr>)"
  by (simp add: tx_def)

section \<open>Handlers\<close>

text \<open>\<open>calm v w\<close>: the state is sound, and since \<open>v\<close> neither the clock nor who is connected changed.
  \<open>ready v w\<close>: also the running transaction is sound.\<close>

definition calm :: "database \<Rightarrow> bool \<Rightarrow> settings \<Rightarrow> ('st, 'z) app_scheme \<Rightarrow> ('st, 'z) app_scheme \<Rightarrow> bool" where
  "calm d0 exact cfg v w \<longleftrightarrow> steady d0 exact cfg w \<and> w_now w = w_now v \<and> a_conns w = a_conns v \<and>
     links (registry (a_sockets w)) = links (registry (a_sockets v)) \<and> gone (a_sockets w) = gone (a_sockets v) \<and>
     (registry_ok (registry (a_sockets v)) \<longrightarrow> registry_ok (registry (a_sockets w)))"

definition ready :: "database \<Rightarrow> bool \<Rightarrow> settings \<Rightarrow> ('st, 'z) app_scheme \<Rightarrow> ('st, 'z) app_scheme \<Rightarrow> bool" where
  "ready d0 exact cfg v w \<longleftrightarrow> calm d0 exact cfg v w \<and> tx d0 exact cfg w"

lemma ready_calm [simp]: "ready d0 exact cfg v w \<Longrightarrow> calm d0 exact cfg v w"
  by (simp add: ready_def)

lemma ready_good: "ready d0 exact cfg v w \<Longrightarrow> good exact cfg w"
  by (auto simp: ready_def intro: tx_good)

lemma calm_limiter [simp]: "calm d0 exact cfg v (w\<lparr>a_limiter := l\<rparr>) = calm d0 exact cfg v w"
  and calm_jobs [simp]: "calm d0 exact cfg v (w\<lparr>a_jobs := js\<rparr>) = calm d0 exact cfg v w"
  and calm_store [simp]: "calm d0 exact cfg v (w\<lparr>w_store := st\<rparr>) = calm d0 exact cfg v w"
  and calm_db [simp]: "calm d0 exact cfg v (w\<lparr>w_db := d\<rparr>) = calm d0 exact cfg v w"
  and ready_limiter [simp]: "ready d0 exact cfg v (w\<lparr>a_limiter := l\<rparr>) = ready d0 exact cfg v w"
  and ready_jobs [simp]: "ready d0 exact cfg v (w\<lparr>a_jobs := js\<rparr>) = ready d0 exact cfg v w"
  and ready_store [simp]: "ready d0 exact cfg v (w\<lparr>w_store := st\<rparr>) = ready d0 exact cfg v w"
  by (simp_all add: ready_def calm_def)

lemma ready_commit [simp]: "ready d0 exact cfg v w \<Longrightarrow> ready d0 exact cfg v (w\<lparr>w_saved := w_db w\<rparr>)"
  by (simp add: ready_def calm_def tx_def)

lemma calm_broadcast:
  assumes "calm d0 exact cfg v w"
  shows "wp (on_sockets (broadcast c ev ex)) (\<lambda>_. calm d0 exact cfg v) (\<lambda>_. calm d0 exact cfg v) w"
  using assms unfolding wp_on_sockets wp_broadcast by (auto simp: calm_def registry_ok_touch)

lemma ready_limit_check:
  assumes "ready d0 exact cfg v w" and "\<And>t. ready d0 exact cfg v t \<Longrightarrow> w_db t = w_db w \<Longrightarrow> Q () t" and "\<And>e t. calm d0 exact cfg v t \<Longrightarrow> E e t"
  shows "wp (limit_check cfg' scope key limit) Q E w"
  by (rule limit_check_wp) (use assms in auto)

lemma calm_confined: "calm d0 exact cfg v w \<Longrightarrow> confined w t \<Longrightarrow> steady d0 exact cfg t \<Longrightarrow> calm d0 exact cfg v t"
  using confined_parts [of w t] by (simp add: calm_def)

lemma ready_service:
  assumes r: "ready d0 exact cfg v w" and m: "wp m Q E w" and conf: "keeps (confined w) m"
    and Q: "\<And>x t. Q x t \<Longrightarrow> good exact cfg t \<and> capped (online (a_conns w)) t \<and> evolved (w_seq w) (w_db w) t"
    and Q': "\<And>x t. Q x t \<Longrightarrow> confined w t \<Longrightarrow> ready d0 exact cfg v t \<Longrightarrow> Q' x t" and E': "\<And>e t. calm d0 exact cfg v t \<Longrightarrow> E' e t"
  shows "wp m Q' E' w"
proof -
  have c: "calm d0 exact cfg v w" "tx d0 exact cfg w" "steady d0 exact cfg w"
    using r by (simp_all add: ready_def calm_def)
  show ?thesis
    by (rule wp_mono [OF safe_service [OF m c(2,3) conf Q]])
      (auto simp: ready_def intro!: Q' E' calm_confined [OF c(1)])
qed

lemma ready_frame:
  assumes r: "ready d0 exact cfg v w" and m: "wp m Q E w" and conf: "keeps (confined w) m"
    and cap: "keeps (capped (online (a_conns w))) m" and ev: "keeps (evolved (w_seq w) (w_db w)) m"
    and Q: "\<And>x t. Q x t \<Longrightarrow> good exact cfg t"
    and Q': "\<And>x t. Q x t \<Longrightarrow> confined w t \<Longrightarrow> ready d0 exact cfg v t \<Longrightarrow> Q' x t" and E': "\<And>e t. calm d0 exact cfg v t \<Longrightarrow> E' e t"
  shows "wp m Q' E' w"
proof -
  have c: "calm d0 exact cfg v w" "tx d0 exact cfg w" "steady d0 exact cfg w"
    using r by (simp_all add: ready_def calm_def)
  show ?thesis
    by (rule wp_mono [OF safe_frame_service [OF m c(2,3) conf cap ev Q]])
      (auto simp: ready_def intro!: Q' E' calm_confined [OF c(1)])
qed

text \<open>One rule per step of a handler. Each takes \<open>ready\<close> as its major premise and gives it back.\<close>

lemma ready_of_sum:
  "ready d0 exact cfg v w \<Longrightarrow> (\<And>x. ready d0 exact cfg v w \<Longrightarrow> r = Inr x \<Longrightarrow> Q x w) \<Longrightarrow>
    (\<And>e. calm d0 exact cfg v w \<Longrightarrow> E e w) \<Longrightarrow> wp (of_sum r) Q E w"
  by (cases r) (simp_all add: wp_simps)

lemma ready_guard:
  "ready d0 exact cfg v w \<Longrightarrow> (ready d0 exact cfg v w \<Longrightarrow> b \<Longrightarrow> Q () w) \<Longrightarrow>
    (\<And>e. calm d0 exact cfg v w \<Longrightarrow> E e w) \<Longrightarrow> wp (guard b e) Q E w"
  by (simp add: wp_simps)

lemma ready_published:
  "ready d0 exact cfg v w \<Longrightarrow> (\<And>t. ready d0 exact cfg v t \<Longrightarrow> w_db t = w_db w \<Longrightarrow> Q () t) \<Longrightarrow> wp commit Q E w"
  by (simp add: wp_simps)

lemma ready_broadcast:
  assumes "ready d0 exact cfg v w" and "\<And>t. ready d0 exact cfg v t \<Longrightarrow> Q () t"
  shows "wp (on_sockets (broadcast c ev ex)) Q E w"
proof -
  have "ready d0 exact cfg v (w\<lparr>a_sockets := (a_sockets w)\<lparr>registry := touch_channel c (registry (a_sockets w)), outbox := ob\<rparr>\<rparr>)" for ob
    using assms(1) by (auto simp: ready_def calm_def registry_ok_touch)
  then show ?thesis using assms(2) unfolding wp_on_sockets wp_broadcast by simp
qed

lemma ready_now: "ready d0 exact cfg v w \<Longrightarrow> (ready d0 exact cfg v w \<Longrightarrow> Q (w_now w) w) \<Longrightarrow> wp utcnow Q E w"
  by (simp add: wp_utcnow)

lemma ready_orm_room: "ready d0 exact cfg v w \<Longrightarrow> (\<And>x. ready d0 exact cfg v w \<Longrightarrow> Q x w) \<Longrightarrow> wp (orm_room room) Q E w"
  by (simp add: orm_room_def wp_query)

lemma ready_room_by_token:
  assumes "ready d0 exact cfg v w" and "\<And>r. ready d0 exact cfg v w \<Longrightarrow> r \<in> set (rooms (w_db w)) \<Longrightarrow> Q r w"
    and "\<And>e. calm d0 exact cfg v w \<Longrightarrow> E e w"
  shows "wp (get_room_by_token cr tk) Q E w"
  by (rule get_room_by_token_wp) (use assms in auto)

lemma ready_member:
  assumes "ready d0 exact cfg v w"
    and "\<And>s r. ready d0 exact cfg v w \<Longrightarrow> s \<in> set (sessions (w_db w)) \<Longrightarrow> r \<in> set (rooms (w_db w)) \<Longrightarrow> Q (s, r) w"
    and "\<And>e. calm d0 exact cfg v w \<Longrightarrow> E e w"
  shows "wp (require_member cfg' cr req tk) Q E w"
  by (rule require_member_wp) (use assms in auto)

lemma ready_owner:
  assumes "ready d0 exact cfg v w"
    and "\<And>s r. ready d0 exact cfg v w \<Longrightarrow> s \<in> set (sessions (w_db w)) \<Longrightarrow> r \<in> set (rooms (w_db w)) \<Longrightarrow> s_role s = OWNER \<Longrightarrow> Q (s, r) w"
    and "\<And>e. calm d0 exact cfg v w \<Longrightarrow> E e w"
  shows "wp (require_room_owner cfg' cr req tk) Q E w"
  by (rule require_room_owner_wp) (use assms in auto)

lemma ready_ret: "ready d0 exact cfg v w \<Longrightarrow> (ready d0 exact cfg v w \<Longrightarrow> Q x w) \<Longrightarrow> wp (ret x) Q E w"
  by (simp add: wp_ret)

lemma ready_raise: "ready d0 exact cfg v w \<Longrightarrow> (calm d0 exact cfg v w \<Longrightarrow> E e w) \<Longrightarrow> wp (raise e) Q E w"
  by (simp add: wp_raise)

lemmas ready_steps = ready_limit_check ready_of_sum ready_guard ready_published ready_broadcast ready_now ready_orm_room
  ready_room_by_token ready_member ready_owner ready_ret ready_raise

text \<open>A handler is safe when, started in a transaction on a sound state, it leaves a sound state.\<close>

definition safe :: "database \<Rightarrow> bool \<Rightarrow> settings \<Rightarrow> ('st, 'z, 'a) api \<Rightarrow> bool" where
  "safe d0 exact cfg m \<longleftrightarrow> (\<forall>v. ready d0 exact cfg v v \<longrightarrow> wp m (\<lambda>_. calm d0 exact cfg v) (\<lambda>_. calm d0 exact cfg v) v)"

lemma safeI: "(\<And>v. ready d0 exact cfg v v \<Longrightarrow> wp m (\<lambda>_. calm d0 exact cfg v) (\<lambda>_. calm d0 exact cfg v) v) \<Longrightarrow> safe d0 exact cfg m"
  by (simp add: safe_def)

lemma safe_request:
  assumes "safe d0 exact cfg m" and "steady d0 exact cfg w"
  shows "wp (with_session m) (\<lambda>_. calm d0 exact cfg w) (\<lambda>_. calm d0 exact cfg w) w"
proof -
  have "ready d0 exact cfg (w\<lparr>w_db := w_saved w\<rparr>) (w\<lparr>w_db := w_saved w\<rparr>)"
    using assms(2) by (simp add: ready_def calm_def) (simp add: steady_def)
  moreover have "calm d0 exact cfg (w\<lparr>w_db := w_saved w\<rparr>) = calm d0 exact cfg w" by (simp add: calm_def fun_eq_iff)
  ultimately show ?thesis using assms(1) unfolding safe_def wp_with_session calm_db by metis
qed

end
