(* ===== verification/Api_Rooms.thy ===== *)
theory Api_Rooms
  imports Safety
begin

text \<open>
  \<open>api/rooms.py\<close>: the endpoints of a room. Each handler is the body of the route, its dependencies
  first in the order FastAPI resolves them, then the validation of the body. A handler returns its
  response and the cookies it sets; the endpoint runs it in a session of its own.
\<close>

section \<open>Helpers\<close>

definition ws_channel :: "room \<Rightarrow> string" where
  "ws_channel room = ''room:'' @ str_int (r_id room)"

definition refresh_session :: "settings \<Rightarrow> session_rec \<Rightarrow> ('st, 'z, session_rec) action" where
  "refresh_session cfg s = bind utcnow (\<lambda>now.
     let refresh = (\<lambda>t. t\<lparr>s_expires_at := now + seconds (session_ttl_seconds cfg), s_last_seen_at := now, s_updated_at := now\<rparr>) in
     bind (exec_rowcount (upd_sessions (\<lambda>t. s_id t = s_id s) refresh) (\<lambda>d. rowcount (\<lambda>t. s_id t = s_id s) (sessions d))) (\<lambda>n.
     seq (guard (n > 0) (Py StaleDataError)) (ret (refresh s))))"

text \<open>\<open>rnd\<close> and \<open>crnd\<close>: the random bytes of a session token and of a CSRF token.\<close>

definition establish_session ::
  "settings \<Rightarrow> crypto \<Rightarrow> bytes \<Rightarrow> bytes \<Rightarrow> room \<Rightarrow> 'j join_request_scheme \<Rightarrow> string option
   \<Rightarrow> ('st, 'z, (session_rec \<times> string) \<times> set_cookie list) action" where
  "establish_session cfg cr rnd crnd room body existing_session_token =
     bind (if truthy existing_session_token
           then get_by_token_hash (hash_token cr (the existing_session_token)) else ret None) (\<lambda>found.
     case found of
       Some existing \<Rightarrow>
         if s_room_id existing = r_id room
         then bind (refresh_session cfg existing) (\<lambda>s. ret ((s, the existing_session_token), []))
         else bind (join_room cfg cr rnd room (jr_display_name body) (jr_password body) (jr_owner_token body)) (\<lambda>(sess, token).
              ret ((sess, token), set_auth_cookies cfg cr crnd token))
     | None \<Rightarrow>
         bind (join_room cfg cr rnd room (jr_display_name body) (jr_password body) (jr_owner_token body)) (\<lambda>(sess, token).
         ret ((sess, token), set_auth_cookies cfg cr crnd token)))"

definition make_join_response :: "room \<Rightarrow> session_rec \<Rightarrow> string \<Rightarrow> string \<Rightarrow> join_response" where
  "make_join_response room sess token access_token = \<lparr>jp_access_token = access_token, jp_room = serialize_room room,
     jp_role = s_role sess, jp_display_name = s_display_name sess, jp_session_expires_at = s_expires_at sess,
     jp_ws_url = ''/ws/rooms/'' @ access_token @ ''?token='' @ token\<rparr>"

definition broadcast_settings :: "room \<Rightarrow> ('st, 'z, unit) api" where
  "broadcast_settings room = on_sockets (broadcast (ws_channel room) (RoomSettingsChanged (serialize_room room)) [])"

definition broadcast_expired :: "room \<Rightarrow> ('st, 'z, unit) api" where
  "broadcast_expired room = on_sockets (broadcast (ws_channel room) RoomExpiredEvent [])"

section \<open>Endpoints\<close>

definition api_create_room ::
  "settings \<Rightarrow> crypto \<Rightarrow> room_draws \<Rightarrow> bytes \<Rightarrow> bytes \<Rightarrow> bytes \<Rightarrow> request \<Rightarrow> room_create
   \<Rightarrow> ('st, 'z, room_created \<times> set_cookie list) api" where
  "api_create_room cfg cr draws salt rnd crnd req body =
     seq (of_sum (validate_csrf cfg cr req))
     (bind (of_sum (check_room_create body)) (\<lambda>body.
      seq (limit_check cfg ''create_room'' (client_ip req) (create_room_limit cfg))
      (bind (create_room cfg cr draws salt body) (\<lambda>(room, access_token, owner_token, code).
       bind (join_room cfg cr rnd room (Some ''Owner'') None (Some owner_token)) (\<lambda>(sess, token).
       seq commit
       (let base = rstrip_char (CHR ''/'') (base_url cfg) in
        ret (\<lparr>cd_room_code = code, cd_name = r_name room, cd_expires_at = r_expires_at room,
              cd_access_token = access_token, cd_share_url = base @ ''/r/'' @ access_token,
              cd_owner_url = base @ ''/r/'' @ access_token @ ''?owner='' @ owner_token,
              cd_password_required = truthy (r_password_hash room),
              cd_guest_upload_enabled = r_guest_upload_enabled room,
              cd_guest_download_enabled = r_guest_download_enabled room\<rparr>,
             set_auth_cookies cfg cr crnd token)))))))"

record room_page =
  rg_room :: room_view
  rg_password_required :: bool
  rg_remaining_seconds :: int
  rg_can_join :: bool

definition api_get_room :: "crypto \<Rightarrow> string \<Rightarrow> ('st, 'z, room_page) action" where
  "api_get_room cr room_token =
     bind (get_room_by_token cr room_token) (\<lambda>room.
     bind utcnow (\<lambda>now.
     ret \<lparr>rg_room = serialize_room room, rg_password_required = truthy (r_password_hash room),
          rg_remaining_seconds = remaining_seconds now room,
          rg_can_join = (r_status room = ACTIVE \<and> r_user_count room < r_max_users room)\<rparr>))"

definition api_join_room ::
  "settings \<Rightarrow> crypto \<Rightarrow> bytes \<Rightarrow> bytes \<Rightarrow> request \<Rightarrow> string \<Rightarrow> join_request
   \<Rightarrow> ('st, 'z, join_response \<times> set_cookie list) api" where
  "api_join_room cfg cr rnd crnd req room_token body =
     seq (of_sum (validate_csrf cfg cr req))
     (bind (of_sum (check_join body)) (\<lambda>body.
      seq (limit_check cfg ''join'' (client_ip req) (generic_limit cfg))
      (bind (get_room_by_token cr room_token) (\<lambda>room.
       bind (establish_session cfg cr rnd crnd room body (cookie req (session_cookie_name cfg))) (\<lambda>((sess, token), cookies).
       seq commit
       (bind (orm_room room) (\<lambda>room. ret (make_join_response room sess token room_token, cookies))))))))"

definition join_failed :: exc where
  "join_failed = init_error JoinFailed ''Room not found or has expired''"

definition hide_reason :: "exc \<Rightarrow> exc" where
  "hide_reason e = (case e of
     Drop c d \<Rightarrow> if is_instance c RoomFull then Drop c d else join_failed
   | Py x \<Rightarrow> Py x)"

definition api_join_by_code ::
  "settings \<Rightarrow> crypto \<Rightarrow> bytes \<Rightarrow> bytes \<Rightarrow> request \<Rightarrow> join_by_code_request
   \<Rightarrow> ('st, 'z, join_response \<times> set_cookie list) api" where
  "api_join_by_code cfg cr rnd crnd req body =
     seq (of_sum (validate_csrf cfg cr req))
     (bind (of_sum (check_join_by_code body)) (\<lambda>body.
      seq (limit_check cfg ''join_by_code'' (client_ip req) (join_by_code_limit cfg))
      (bind (get_room_by_code (jc_room_code body)) (\<lambda>found.
       bind (try_except
              (case found of
                 None \<Rightarrow> raise join_failed
               | Some room \<Rightarrow>
                   bind (establish_session cfg cr rnd crnd room body (cookie req (session_cookie_name cfg))) (\<lambda>r. ret (room, r)))
              (\<lambda>e. raise (hide_reason e)))
         (\<lambda>(room, (sess, token), cookies).
       seq commit
       (bind utcnow (\<lambda>now.
        bind (orm_room room) (\<lambda>room.
        let access_token = or_default (recover_access_token cfg cr now (Some room)) (r_room_code room)
        in ret (make_join_response room sess token access_token, cookies)))))))))"

definition api_patch_room ::
  "settings \<Rightarrow> crypto \<Rightarrow> bytes \<Rightarrow> request \<Rightarrow> string \<Rightarrow> room_patch \<Rightarrow> ('st, 'z, room_view) api" where
  "api_patch_room cfg cr salt req room_token body =
     bind (require_room_owner cfg cr req room_token) (\<lambda>(sess, room).
     seq (of_sum (validate_csrf cfg cr req))
     (bind (of_sum (check_room_patch body)) (\<lambda>body.
      bind (patch_room cr salt room body) (\<lambda>updated.
      seq commit
      (seq (broadcast_settings updated)
      (ret (serialize_room updated)))))))"

definition api_delete_room ::
  "settings \<Rightarrow> crypto \<Rightarrow> 'st storage_backend \<Rightarrow> request \<Rightarrow> string \<Rightarrow> ('st, 'z, bool) api" where
  "api_delete_room cfg cr bk req room_token =
     bind (require_room_owner cfg cr req room_token) (\<lambda>(sess, room).
     seq (of_sum (validate_csrf cfg cr req))
     (bind (force_delete_room bk room) (\<lambda>changed.
      seq commit
      (seq (broadcast_expired room)
      (ret True)))))"

section \<open>The endpoints are safe\<close>

lemma hide_reason_not_found: "is_instance c RoomFull \<or> hide_reason (Drop c d) = join_failed"
  by (simp add: hide_reason_def)

lemma refresh_session_ready:
  fixes w :: "('st, 'z) app_scheme"
  assumes r: "ready d0 exact cfg v w" and s: "s \<in> set (sessions (w_db w))" "w_now w < s_expires_at s"
    and Q: "\<And>t. ready d0 exact cfg v t \<Longrightarrow> Q (s\<lparr>s_expires_at := w_now w + seconds (session_ttl_seconds cfg),
        s_last_seen_at := w_now w, s_updated_at := w_now w\<rparr>) t"
    and E: "\<And>e t. calm d0 exact cfg v t \<Longrightarrow> E e t"
  shows "wp (refresh_session cfg s) Q E w"
proof -
  let ?f = "\<lambda>t. t\<lparr>s_expires_at := w_now w + seconds (session_ttl_seconds cfg), s_last_seen_at := w_now w, s_updated_at := w_now w\<rparr>"
  let ?d = "upd_sessions (\<lambda>t. s_id t = s_id s) ?f (w_db w)"
  have inv: "db_inv exact cfg (w_seq w) (w_db w)" using ready_good [OF r] by (simp add: good_def)
  have live: "w_now w < s_expires_at t" if "t \<in> set (sessions (w_db w))" "s_id t = s_id s" for t
    using distinct_key_unique [OF db_invD(2) [OF inv] that(1) s(1) that(2)] s(2) by simp
  have "wp (refresh_session cfg s) (\<lambda>x t. x = ?f s \<and> t = w\<lparr>w_db := ?d\<rparr>) (\<lambda>_ _. False) w"
    using s(1) by (simp add: refresh_session_def wp_simps Let_def) blast
  then show ?thesis
  proof (rule ready_service [OF r])
    show "keeps (confined w) (refresh_session cfg s)"
      unfolding refresh_session_def Let_def by blast
    show "Q x t" if "x = ?f s \<and> t = w\<lparr>w_db := ?d\<rparr>" and "ready d0 exact cfg v t" for x t
      using Q [OF that(2)] conjunct1 [OF that(1)] by (simp only:)
    show "E e t" if "calm d0 exact cfg v t" for e t by (rule E [OF that])
    fix x t
    assume t: "x = ?f s \<and> t = w\<lparr>w_db := ?d\<rparr>"
    have "db_inv exact cfg (w_seq w) ?d" by (rule db_inv_upd_sessions [OF inv]) simp
    moreover have "within_capacity (online (a_conns w)) (w_now w) ?d"
    proof (rule within_capacity_upd_sessions)
      show "within_capacity (online (a_conns w)) (w_now w) (w_db w)" using r by (simp add: ready_def tx_def db_ok_def)
    qed (simp add: live)
    moreover have "evolved (w_seq w) (w_db w) (w\<lparr>w_db := ?d\<rparr>)"
      by (rule evolved_upd_sessions) (simp_all add: evolved_def)
    ultimately show "good exact cfg t \<and> capped (online (a_conns w)) t \<and> evolved (w_seq w) (w_db w) t"
      using t by (simp add: capped_def)
  qed
qed

lemma join_room_ready:
  fixes w :: "('st, 'z) app_scheme"
  assumes r: "ready d0 exact cfg v w" and room: "room \<in> set (rooms (w_db w))"
    and Q: "\<And>x t. ready d0 exact cfg v t \<Longrightarrow> Q x t" and E: "\<And>e t. calm d0 exact cfg v t \<Longrightarrow> E e t"
  shows "wp (join_room cfg cr rnd room dn pw ot) Q E w"
proof (rule ready_service [OF r])
  show "wp (join_room cfg cr rnd room dn pw ot)
      (\<lambda>_ t. good exact cfg t \<and> capped (online (a_conns w)) t \<and> evolved (w_seq w) (w_db w) t) (\<lambda>_ _. True) w"
  proof -
    have "evolved (w_seq w) (w_db w) w" by (simp add: evolved_def)
    moreover have "capped (online (a_conns w)) w" using r by (auto simp: ready_def intro: tx_capped)
    ultimately show ?thesis
      by (intro wp_mono [OF wp_keeps [OF join_room_capped [OF ready_good [OF r] room] evolved.frame_room_services(2)]]) auto
  qed
  show "keeps (confined w) (join_room cfg cr rnd room dn pw ot)" by blast
qed (use Q E in auto)


lemma create_room_ready:
  fixes w :: "('st, 'z) app_scheme"
  assumes r: "ready d0 exact cfg v w" and c: "cfg_ok cfg"
    and Q: "\<And>room tk ot rc t. ready d0 exact cfg v t \<Longrightarrow> room \<in> set (rooms (w_db t)) \<Longrightarrow> Q (room, tk, ot, rc) t"
    and E: "\<And>e t. calm d0 exact cfg v t \<Longrightarrow> E e t"
  shows "wp (create_room cfg cr draws salt data) Q E w"
proof (rule ready_service [OF r])
  show "wp (create_room cfg cr draws salt data)
      (\<lambda>x t. fst x \<in> set (rooms (w_db t)) \<and> good exact cfg t \<and> capped (online (a_conns w)) t \<and> evolved (w_seq w) (w_db w) t)
      (\<lambda>_ _. True) w"
  proof -
    have "evolved (w_seq w) (w_db w) w" by (simp add: evolved_def)
    moreover have "capped (online (a_conns w)) w" using r by (auto simp: ready_def intro: tx_capped)
    ultimately show ?thesis
      by (intro wp_mono [OF wp_keeps [OF create_room_capped [OF ready_good [OF r] c] evolved.frame_room_services(1)]]) auto
  qed
  show "keeps (confined w) (create_room cfg cr draws salt data)" by blast
  show "Q x t" if "fst x \<in> set (rooms (w_db t)) \<and> good exact cfg t \<and> capped (online (a_conns w)) t \<and> evolved (w_seq w) (w_db w) t"
    and "ready d0 exact cfg v t" for x t
    using that Q [of t "fst x" "fst (snd x)" "fst (snd (snd x))" "snd (snd (snd x))"] by simp
qed (use E in auto)

lemma token_lookup_ready:
  assumes r: "ready d0 exact cfg v w"
    and "\<And>found. ready d0 exact cfg v w \<Longrightarrow> (\<And>s. found = Some s \<Longrightarrow> s \<in> set (sessions (w_db w)) \<and> w_now w < s_expires_at s) \<Longrightarrow> Q found w"
    and "\<And>e. calm d0 exact cfg v w \<Longrightarrow> E e w"
  shows "wp (get_by_token_hash h) Q E w"
  using assms by (auto simp: get_by_token_hash_def wp_simps split: sum.split dest!: scalar_sel intro!: assms(2))

lemma establish_session_ready:
  fixes w :: "('st, 'z) app_scheme"
  assumes r: "ready d0 exact cfg v w" and room: "room \<in> set (rooms (w_db w))"
    and Q: "\<And>x t. ready d0 exact cfg v t \<Longrightarrow> Q x t" and E: "\<And>e t. calm d0 exact cfg v t \<Longrightarrow> E e t"
  shows "wp (establish_session cfg cr rnd crnd room body existing) Q E w"
proof -
  let ?join = "bind (join_room cfg cr rnd room (jr_display_name body) (jr_password body) (jr_owner_token body)) (\<lambda>(sess, token).
     ret ((sess, token), set_auth_cookies cfg cr crnd token)) ::
     ('st, 'z app_ext, (session_rec \<times> string) \<times> set_cookie list) action"
  have join: "wp ?join Q E w"
    unfolding wp_bind by (rule join_room_ready [OF r room]) (auto simp: wp_ret intro: Q E)
  have reuse: "wp (bind (refresh_session cfg s) (\<lambda>s. ret ((s, the existing), []))) Q E w"
    if "s \<in> set (sessions (w_db w))" "w_now w < s_expires_at s" for s
    unfolding wp_bind by (rule refresh_session_ready [OF r that]) (auto simp: wp_ret intro: Q E)
  have "wp (if truthy existing then get_by_token_hash (hash_token cr (the existing)) else ret None)
      (\<lambda>found t. t = w \<and> (\<forall>s. found = Some s \<longrightarrow> s \<in> set (sessions (w_db w)) \<and> w_now w < s_expires_at s))
      (\<lambda>e. calm d0 exact cfg v) w"
    using r by (auto simp: wp_ret intro!: token_lookup_ready [OF r])
  then show ?thesis
    unfolding establish_session_def wp_bind [of "if _ then _ else _"]
    by (rule wp_mono) (use join reuse E in \<open>auto simp: wp_case_option split: option.split\<close>)
qed

lemma cleanup_room_ready:
  fixes w :: "('st, 'z) app_scheme"
  assumes r: "ready d0 exact cfg v w"
    and Q: "\<And>x t. ready d0 exact cfg v t \<Longrightarrow> Q x t" and E: "\<And>e t. calm d0 exact cfg v t \<Longrightarrow> E e t"
  shows "wp (cleanup_room bk room) Q E w"
proof (rule ready_service [OF r])
  note g = ready_good [OF r]
  have cap: "capped (online (a_conns w)) w" using r by (auto simp: ready_def intro: tx_capped)
  from wp_keeps [OF wp_conj [OF cleanup_room_good [OF g] cleanup_room_evolves [OF g]] capped.frame_cleanup cap]
  show "wp (cleanup_room bk room)
      (\<lambda>_ t. good exact cfg t \<and> capped (online (a_conns w)) t \<and> evolved (w_seq w) (w_db w) t) (\<lambda>_ _. True) w"
    by (rule wp_mono) simp_all
  show "keeps (confined w) (cleanup_room bk room)" by blast
qed (use Q E in auto)

lemma patch_room_ready:
  fixes w :: "('st, 'z) app_scheme"
  assumes r: "ready d0 exact cfg v w"
    and Q: "\<And>x t. ready d0 exact cfg v t \<Longrightarrow> Q x t" and E: "\<And>e t. calm d0 exact cfg v t \<Longrightarrow> E e t"
  shows "wp (patch_room cr salt room data) Q E w"
  by (rule ready_frame [OF r patch_room_good [OF ready_good [OF r]]]) (use Q E in blast)+

lemmas room_steps = ready_steps create_room_ready join_room_ready establish_session_ready cleanup_room_ready
  patch_room_ready ready_calm

lemma safe_create_room: "cfg_ok cfg \<Longrightarrow> safe d0 exact cfg (api_create_room cfg cr draws salt rnd crnd req body)"
  unfolding api_create_room_def Let_def
  by (rule safeI) (simp only: wp_seq wp_bind, (elim room_steps | clarsimp simp: wp_seq wp_bind)+)

lemma safe_get_room: "safe d0 exact cfg (api_get_room cr tk)"
  unfolding api_get_room_def
  by (rule safeI) (simp only: wp_seq wp_bind, (elim room_steps | simp)+)

lemma safe_join_room: "safe d0 exact cfg (api_join_room cfg cr rnd crnd req tk body)"
  unfolding api_join_room_def
  by (rule safeI) (simp only: wp_seq wp_bind, (elim room_steps | clarsimp simp: wp_seq wp_bind)+)

lemma safe_patch_room: "safe d0 exact cfg (api_patch_room cfg cr salt req tk body)"
  unfolding api_patch_room_def broadcast_settings_def
  by (rule safeI) (simp only: wp_seq wp_bind, (elim room_steps | clarsimp simp: wp_seq wp_bind)+)

lemma safe_delete_room: "safe d0 exact cfg (api_delete_room cfg cr bk req tk)"
  unfolding api_delete_room_def broadcast_expired_def force_delete_room_def
  by (rule safeI) (simp only: wp_seq wp_bind, (elim room_steps | clarsimp simp: wp_seq wp_bind)+)

lemma room_by_code_ready:
  assumes "ready d0 exact cfg v w"
    and "\<And>found. ready d0 exact cfg v w \<Longrightarrow> (\<And>r. found = Some r \<Longrightarrow> r \<in> set (rooms (w_db w))) \<Longrightarrow> Q found w"
    and "\<And>e. calm d0 exact cfg v w \<Longrightarrow> E e w"
  shows "wp (get_room_by_code rc) Q E w"
  using assms by (auto simp: get_room_by_code_def find_room_def wp_simps split: sum.split dest!: scalar_sel intro!: assms(2))

lemma safe_join_by_code: "safe d0 exact cfg (api_join_by_code cfg cr rnd crnd req body)"
  unfolding api_join_by_code_def
  by (rule safeI) (simp only: wp_seq wp_bind,
    (elim room_by_code_ready room_steps | clarsimp simp: wp_seq wp_bind wp_try wp_raise Let_def split: option.splits)+)

end
