(* ===== verification/Api_Files.thy ===== *)
theory Api_Files
  imports Api_Rooms
begin

text \<open>
  \<open>api/files.py\<close> and \<open>api/messages.py\<close>: direct upload, listing, download and deletion of files, and
  the chat history. Each is a member endpoint: the session of the cookie must belong to the room the
  token names.
\<close>

section \<open>Files\<close>

definition upload_chunks :: "bytes \<Rightarrow> stream" where
  "upload_chunks content = (chunks_of (256 * 1024) content, None)"

definition broadcast_file_uploaded :: "room \<Rightarrow> file_view \<Rightarrow> ('st, 'z, unit) api" where
  "broadcast_file_uploaded room view = on_sockets (broadcast (ws_channel room) (FileUploadCompleted view) [])"

definition broadcast_file_deleted :: "room \<Rightarrow> int \<Rightarrow> ('st, 'z, unit) api" where
  "broadcast_file_deleted room file_id = on_sockets (broadcast (ws_channel room) (FileDeleted file_id) [])"

definition broadcast_file_downloaded :: "room \<Rightarrow> int \<Rightarrow> int \<Rightarrow> ('st, 'z, unit) api" where
  "broadcast_file_downloaded room file_id download_count =
     on_sockets (broadcast (ws_channel room) (FileDownloaded file_id download_count) [])"

definition api_upload ::
  "settings \<Rightarrow> crypto \<Rightarrow> 'st storage_backend \<Rightarrow> string \<Rightarrow> request \<Rightarrow> string \<Rightarrow> string option \<Rightarrow> string option
   \<Rightarrow> bytes \<Rightarrow> ('st, 'z, file_view) api" where
  "api_upload cfg cr bk storage_key req room_token filename content_type content =
     bind (require_member cfg cr req room_token) (\<lambda>(sess, room).
     seq (of_sum (validate_csrf cfg cr req))
     (seq (limit_check cfg ''upload'' (client_host req) (upload_limit cfg))
     (bind (upload_file cfg bk storage_key room sess filename content_type (upload_chunks content)) (\<lambda>rec.
      seq commit
      (seq (broadcast_file_uploaded room (view_file rec (s_display_name sess)))
      (ret (view_file rec (s_display_name sess))))))))"

definition api_list_files ::
  "settings \<Rightarrow> crypto \<Rightarrow> request \<Rightarrow> string \<Rightarrow> ('st, 'z, file_list_response) action" where
  "api_list_files cfg cr req room_token =
     bind (require_member cfg cr req room_token) (\<lambda>(sess, room).
     bind (list_confirmed_files (r_id room)) (\<lambda>records.
     ret \<lparr>fl_files = map (\<lambda>r. view_file r None) records, fl_storage_used_bytes = r_storage_used_bytes room,
          fl_file_count = r_file_count room, fl_max_room_storage_bytes = max_room_storage_bytes cfg,
          fl_max_files_per_room = max_files_per_room cfg\<rparr>))"

text \<open>
  The \<open>Content-Disposition\<close> header. Inside the f-string (Python 3.12 or later) the literal
  \<open>'\\\"'\<close> is a backslash and a quote, and \<open>'\\n'\<close> a backslash and an \<open>n\<close>: \<open>replace2\<close> replaces those
  two-character sequences, from left to right.
\<close>

fun replace2 :: "char \<Rightarrow> char \<Rightarrow> string \<Rightarrow> string \<Rightarrow> string" where
  "replace2 a b new (c # d # rest) =
     (if c = a \<and> d = b then new @ replace2 a b new rest else c # replace2 a b new (d # rest))"
| "replace2 a b new s = s"

definition backslash :: char where
  "backslash = char_of (92 :: nat)"

definition dquote :: char where
  "dquote = char_of (34 :: nat)"

text \<open>\<open>urllib.parse.quote\<close>: the UTF-8 bytes, all but the safe ASCII ones as \<open>%XX\<close>.\<close>

definition hex_upper :: string where
  "hex_upper = ''0123456789ABCDEF''"

definition quote_safe :: "nat \<Rightarrow> bool" where
  "quote_safe n \<longleftrightarrow> 65 \<le> n \<and> n \<le> 90 \<or> 97 \<le> n \<and> n \<le> 122 \<or> 48 \<le> n \<and> n \<le> 57 \<or> n = 95 \<or> n = 46 \<or> n = 45 \<or>
     n = 126 \<or> n = 47"

definition quote_byte :: "8 word \<Rightarrow> string" where
  "quote_byte b = (let n = unat b in
     if quote_safe n then [char_of n] else [CHR ''%'', hex_upper ! (n div 16), hex_upper ! (n mod 16)])"

definition quote :: "string \<Rightarrow> string" where
  "quote s = concat (map quote_byte (utf8_encode s))"

definition content_disposition :: "string \<Rightarrow> string" where
  "content_disposition filename =
     ''attachment; filename='' @ dquote # replace2 backslash (CHR ''n'') [] (replace2 backslash dquote ''_'' filename)
       @ dquote # ''; filename*=UTF-8'' @ char_of (39 :: nat) # char_of (39 :: nat) # quote filename"

record file_response =
  dl_stream :: stream
  dl_media_type :: string
  dl_disposition :: string
  dl_length :: int

definition refresh_file :: "file_rec \<Rightarrow> ('st, 'z, file_rec) action" where
  "refresh_file rec = bind (get_file_by_id (f_id rec)) (\<lambda>found. case found of
     None \<Rightarrow> raise (Py InvalidRequestError) | Some r \<Rightarrow> ret r)"

definition api_download ::
  "settings \<Rightarrow> crypto \<Rightarrow> 'st storage_backend \<Rightarrow> request \<Rightarrow> string \<Rightarrow> int \<Rightarrow> ('st, 'z, file_response) api" where
  "api_download cfg cr bk req room_token file_id =
     bind (require_member cfg cr req room_token) (\<lambda>(sess, room).
     bind (download_file bk room sess file_id) (\<lambda>(rec, stream, n).
     seq commit
     (bind (create_audit_event (Some (r_id room)) ''FILE_DOWNLOADED'' (Some [(''file_id'', JInt (f_id rec))])) (\<lambda>_.
      seq commit
      (bind (refresh_file rec) (\<lambda>rec.
       seq (broadcast_file_downloaded room (f_id rec) (f_download_count rec))
       (ret \<lparr>dl_stream = stream,
             dl_media_type = or_default (f_content_type rec) ''application/octet-stream'',
             dl_disposition = content_disposition (f_original_filename rec), dl_length = n\<rparr>)))))))"

definition api_delete_file ::
  "settings \<Rightarrow> crypto \<Rightarrow> 'st storage_backend \<Rightarrow> request \<Rightarrow> string \<Rightarrow> int \<Rightarrow> ('st, 'z, file_view) api" where
  "api_delete_file cfg cr bk req room_token file_id =
     bind (require_member cfg cr req room_token) (\<lambda>(sess, room).
     seq (of_sum (validate_csrf cfg cr req))
     (bind (delete_file bk room sess file_id) (\<lambda>rec.
      seq commit
      (seq (broadcast_file_deleted room (f_id rec))
      (ret (view_file rec (s_display_name sess)))))))"

section \<open>Messages\<close>

definition api_list_messages ::
  "settings \<Rightarrow> crypto \<Rightarrow> request \<Rightarrow> string \<Rightarrow> ('st, 'z, message_view list) action" where
  "api_list_messages cfg cr req room_token =
     bind (require_member cfg cr req room_token) (\<lambda>(sess, room).
     bind (list_messages cfg (r_id room) None) (\<lambda>ms.
     ret (map view_message ms)))"

definition api_delete_message ::
  "settings \<Rightarrow> crypto \<Rightarrow> request \<Rightarrow> string \<Rightarrow> int \<Rightarrow> ('st, 'z, bool) api" where
  "api_delete_message cfg cr req room_token message_id =
     bind (require_member cfg cr req room_token) (\<lambda>(sess, room).
     seq (of_sum (validate_csrf cfg cr req))
     (bind (delete_message room sess message_id) (\<lambda>ok.
      seq commit
      (seq (if ok then on_sockets (broadcast (ws_channel room) (ChatMessageDeleted message_id) []) else ret ())
      (ret ok)))))"

section \<open>The endpoints are safe\<close>

lemma source_nonneg: "source cfg c rest = (data, n) \<Longrightarrow> 0 \<le> n"
  by (auto simp: source_def Let_def split: prod.splits dest!: counted_le)

lemma stage_upload_nonneg:
  "wp (stage_upload cfg bk fid key chunks) (\<lambda>(c, n) w'. 0 \<le> n \<and> (\<exists>st. w' = w\<lparr>w_store := st\<rparr>)) (\<lambda>_ _. True) w"
  by (auto simp: stage_upload_def wp_simps source_nonneg split: prod.split sum.split exc.split intro!: wp_any)

lemma upload_file_ready:
  fixes w :: "('st, 'z) app_scheme"
  assumes r: "ready d0 exact cfg v w" and room: "room \<in> set (rooms (w_db w))"
    and Q: "\<And>x t. ready d0 exact cfg v t \<Longrightarrow> Q x t" and E: "\<And>e t. calm d0 exact cfg v t \<Longrightarrow> E e t"
  shows "wp (upload_file cfg bk key room actor fn ct chunks) Q E w"
proof (rule ready_frame [OF r])
  show "wp (upload_file cfg bk key room actor fn ct chunks) (\<lambda>_. good exact cfg) (\<lambda>_ _. True) w"
    by (rule wp_mono [OF upload_file_wp [OF ready_good [OF r] room, where S = "\<lambda>_ _. True"]])
      (auto intro: stage_upload_nonneg)
qed (use Q E in blast)+

lemma download_file_ready:
  fixes w :: "('st, 'z) app_scheme"
  assumes r: "ready d0 exact cfg v w"
    and Q: "\<And>x t. ready d0 exact cfg v t \<Longrightarrow> Q x t" and E: "\<And>e t. calm d0 exact cfg v t \<Longrightarrow> E e t"
  shows "wp (download_file bk room actor i) Q E w"
proof (rule ready_frame [OF r])
  show "wp (download_file bk room actor i) (\<lambda>_. good exact cfg) (\<lambda>_ _. True) w"
    by (rule wp_mono [OF download_file_wp [OF ready_good [OF r]]]) auto
qed (use Q E in blast)+

lemma delete_file_ready:
  fixes w :: "('st, 'z) app_scheme"
  assumes r: "ready d0 exact cfg v w" and room: "room \<in> set (rooms (w_db w))"
    and Q: "\<And>x t. ready d0 exact cfg v t \<Longrightarrow> Q x t" and E: "\<And>e t. calm d0 exact cfg v t \<Longrightarrow> E e t"
  shows "wp (delete_file bk room actor i) Q E w"
proof (rule ready_frame [OF r])
  show "wp (delete_file bk room actor i) (\<lambda>_. good exact cfg) (\<lambda>_ _. True) w"
    by (rule wp_mono [OF delete_file_wp [OF ready_good [OF r] room, where S = "\<lambda>_ _. True"]]) auto
qed (use Q E in blast)+

lemma audit_ready:
  fixes w :: "('st, 'z) app_scheme"
  assumes r: "ready d0 exact cfg v w"
    and Q: "\<And>x t. ready d0 exact cfg v t \<Longrightarrow> Q x t" and E: "\<And>e t. calm d0 exact cfg v t \<Longrightarrow> E e t"
  shows "wp (create_audit_event ri ty md) Q E w"
proof (rule ready_frame [OF r])
  show "wp (create_audit_event ri ty md) (\<lambda>_. good exact cfg) (\<lambda>_ _. True) w"
    by (rule wp_mono [OF audit_wp [where cfg = cfg and exact = exact]]) (use ready_good [OF r] in auto)
qed (use Q E in blast)+

lemma delete_message_ready:
  fixes w :: "('st, 'z) app_scheme"
  assumes r: "ready d0 exact cfg v w"
    and Q: "\<And>x t. ready d0 exact cfg v t \<Longrightarrow> Q x t" and E: "\<And>e t. calm d0 exact cfg v t \<Longrightarrow> E e t"
  shows "wp (delete_message room actor i) Q E w"
proof (rule ready_frame [OF r])
  show "wp (delete_message room actor i) (\<lambda>_. good exact cfg) (\<lambda>_. good exact cfg) w"
    using keeps_good_delete_message ready_good [OF r] unfolding keeps_iff_wp by blast
qed (use Q E in blast)+

lemma file_by_id_ready:
  assumes "ready d0 exact cfg v w"
    and "\<And>found. ready d0 exact cfg v w \<Longrightarrow> (\<And>f. found = Some f \<Longrightarrow> f \<in> set (files (w_db w)) \<and> f_id f = i) \<Longrightarrow> Q found w"
    and "\<And>e. calm d0 exact cfg v w \<Longrightarrow> E e w"
  shows "wp (get_file_by_id i) Q E w"
  using assms by (auto simp: get_file_by_id_def wp_simps split: sum.split dest!: scalar_sel intro!: assms(2))

lemma refresh_file_ready:
  assumes r: "ready d0 exact cfg v w"
    and Q: "\<And>x. ready d0 exact cfg v w \<Longrightarrow> Q x w" and E: "\<And>e. calm d0 exact cfg v w \<Longrightarrow> E e w"
  shows "wp (refresh_file rec) Q E w"
  unfolding refresh_file_def wp_bind
  by (rule file_by_id_ready [OF r]) (use r Q E in \<open>auto simp: wp_simps split: option.split\<close>)

lemma list_files_ready:
  "ready d0 exact cfg v w \<Longrightarrow> (\<And>x. ready d0 exact cfg v w \<Longrightarrow> Q x w) \<Longrightarrow> wp (list_confirmed_files i) Q E w"
  by (simp add: list_confirmed_files_def wp_query)

lemma list_messages_ready:
  "ready d0 exact cfg v w \<Longrightarrow> (\<And>x. ready d0 exact cfg v w \<Longrightarrow> Q x w) \<Longrightarrow> wp (list_messages cfg' i l) Q E w"
  by (simp add: list_messages_def list_room_messages_def wp_query)

lemmas file_steps = room_steps upload_file_ready download_file_ready delete_file_ready audit_ready
  delete_message_ready refresh_file_ready list_files_ready list_messages_ready

lemma safe_upload: "safe d0 exact cfg (api_upload cfg cr bk key req tk fn ct content)"
  unfolding api_upload_def broadcast_file_uploaded_def
  by (rule safeI) (simp only: wp_seq wp_bind, (elim file_steps | clarsimp simp: wp_seq wp_bind)+)

lemma safe_list_files: "safe d0 exact cfg (api_list_files cfg cr req tk)"
  unfolding api_list_files_def
  by (rule safeI) (simp only: wp_seq wp_bind, (elim file_steps | clarsimp simp: wp_seq wp_bind)+)

lemma safe_download: "safe d0 exact cfg (api_download cfg cr bk req tk i)"
  unfolding api_download_def broadcast_file_downloaded_def
  by (rule safeI) (simp only: wp_seq wp_bind, (elim file_steps | clarsimp simp: wp_seq wp_bind)+)

lemma safe_delete_file: "safe d0 exact cfg (api_delete_file cfg cr bk req tk i)"
  unfolding api_delete_file_def broadcast_file_deleted_def
  by (rule safeI) (simp only: wp_seq wp_bind, (elim file_steps | clarsimp simp: wp_seq wp_bind)+)

lemma safe_list_messages: "safe d0 exact cfg (api_list_messages cfg cr req tk)"
  unfolding api_list_messages_def
  by (rule safeI) (simp only: wp_seq wp_bind, (elim file_steps | clarsimp simp: wp_seq wp_bind)+)

lemma safe_delete_message: "safe d0 exact cfg (api_delete_message cfg cr req tk i)"
  unfolding api_delete_message_def
  by (rule safeI) (simp only: wp_seq wp_bind, (elim file_steps | clarsimp simp: wp_seq wp_bind | intro conjI impI)+)

end
