(* ===== verification/Api_Uploads.thy ===== *)
theory Api_Uploads
  imports Api_Files
begin

text \<open>
  \<open>api/uploads.py\<close>: the resumable upload. A member opens an upload, sends its chunks in any order,
  asks for the status, completes or aborts it. The routes take the id of a file row; \<open>pending_session\<close>
  checks that the row belongs to the room, not who opened it nor that it is still pending.
\<close>

definition broadcast_progress :: "room \<Rightarrow> file_rec \<Rightarrow> ('st, 'z, unit) api" where
  "broadcast_progress room rec =
     (let expected = (case f_total_size_bytes rec of None \<Rightarrow> 0 | Some n \<Rightarrow> n) in
      if expected \<noteq> 0 \<and> f_status rec = PENDING
      then on_sockets (broadcast (ws_channel room)
             (FileUploadProgress (f_id rec) (f_size_bytes rec) expected (f_original_filename rec)) [])
      else ret ())"

definition pending_session :: "room \<Rightarrow> int \<Rightarrow> ('st, 'z, file_rec) action" where
  "pending_session room upload_id =
     bind (get_file_by_id upload_id) (\<lambda>found. case found of
       None \<Rightarrow> raise (init_error FileNotFound [])
     | Some rec \<Rightarrow> if f_room_id rec \<noteq> r_id room then raise (init_error FileNotFound []) else ret rec)"

definition api_create_upload ::
  "settings \<Rightarrow> crypto \<Rightarrow> string \<Rightarrow> request \<Rightarrow> string \<Rightarrow> upload_session_create
   \<Rightarrow> ('st, 'z, upload_session_created) api" where
  "api_create_upload cfg cr storage_key req room_token body =
     bind (require_member cfg cr req room_token) (\<lambda>(sess, room).
     seq (of_sum (validate_csrf cfg cr req))
     (bind (of_sum (check_upload_create body)) (\<lambda>body.
      seq (limit_check cfg ''upload'' (client_ip req) (upload_limit cfg))
      (bind (create_upload_session cfg storage_key room sess (Some (uc_filename body)) (uc_content_type body)
               (uc_total_size_bytes body) (uc_total_chunks body)) (\<lambda>rec.
       seq commit
       (ret \<lparr>uo_upload_id = f_id rec, uo_filename = f_original_filename rec,
             uo_total_size_bytes = (case f_total_size_bytes rec of None \<Rightarrow> 0 | Some n \<Rightarrow> n),
             uo_total_chunks = uc_total_chunks body, uo_chunk_size_bytes = upload_chunk_size_bytes cfg\<rparr>))))))"

definition api_upload_status ::
  "settings \<Rightarrow> crypto \<Rightarrow> request \<Rightarrow> string \<Rightarrow> int \<Rightarrow> ('st, 'z, upload_status) action" where
  "api_upload_status cfg cr req room_token upload_id =
     bind (require_member cfg cr req room_token) (\<lambda>(sess, room).
     bind (pending_session room upload_id) (\<lambda>rec.
     ret (session_status rec)))"

definition api_upload_chunk ::
  "settings \<Rightarrow> crypto \<Rightarrow> 'st storage_backend \<Rightarrow> request \<Rightarrow> string \<Rightarrow> int \<Rightarrow> int \<Rightarrow> bytes
   \<Rightarrow> ('st, 'z, upload_status) api" where
  "api_upload_chunk cfg cr bk req room_token upload_id index chunk =
     bind (require_member cfg cr req room_token) (\<lambda>(sess, room).
     seq (limit_check cfg ''upload'' (client_ip req) (upload_limit cfg))
     (bind (pending_session room upload_id) (\<lambda>rec.
      seq (guard (chunk \<noteq> []) (init_error DropRoomError ''Empty chunk''))
      (seq (guard (0 \<le> index \<and> index < 1000000) (init_error DropRoomError ''Chunk index out of bounds''))
      (bind (store_chunk cfg bk rec index chunk) (\<lambda>received.
       let rec = rec\<lparr>f_size_bytes := received\<rparr> in
       bind (create_audit_event (Some (r_id room)) ''UPLOAD_CHUNK'' (Some [(''file_id'', JInt (f_id rec)),
               (''chunk'', JInt index), (''bytes'', JInt (int (length chunk)))])) (\<lambda>_.
       seq commit
       (seq (broadcast_progress room rec)
       (ret (session_status rec))))))))))"

text \<open>The module's own \<open>_file_view\<close>.\<close>

definition uploads_file_view :: "file_rec \<Rightarrow> string option \<Rightarrow> file_view" where
  "uploads_file_view r uploaded_by_name = \<lparr>fv_id = f_id r, fv_original_filename = f_original_filename r,
     fv_content_type = f_content_type r, fv_size_bytes = f_size_bytes r, fv_status = f_status r,
     fv_download_count = f_download_count r, fv_uploaded_by_name = uploaded_by_name,
     fv_created_at = f_created_at r\<rparr>"

lemma same_file_view [simp]: "uploads_file_view = view_file"
  by (simp add: fun_eq_iff uploads_file_view_def view_file_def)

definition api_complete_upload ::
  "settings \<Rightarrow> crypto \<Rightarrow> 'st storage_backend \<Rightarrow> request \<Rightarrow> string \<Rightarrow> int \<Rightarrow> int \<Rightarrow> ('st, 'z, file_view) api" where
  "api_complete_upload cfg cr bk req room_token upload_id total_chunks =
     bind (require_member cfg cr req room_token) (\<lambda>(sess, room).
     seq (of_sum (validate_csrf cfg cr req))
     (bind (of_sum (check_upload_complete total_chunks)) (\<lambda>total_chunks.
      bind (pending_session room upload_id) (\<lambda>rec.
      bind (complete_upload_session cfg bk room sess rec total_chunks) (\<lambda>confirmed.
      seq commit
      (seq (broadcast_file_uploaded room (uploads_file_view confirmed (s_display_name sess)))
      (ret (uploads_file_view confirmed (s_display_name sess)))))))))"

definition api_abort_upload ::
  "settings \<Rightarrow> crypto \<Rightarrow> 'st storage_backend \<Rightarrow> request \<Rightarrow> string \<Rightarrow> int \<Rightarrow> ('st, 'z, bool) api" where
  "api_abort_upload cfg cr bk req room_token upload_id =
     bind (require_member cfg cr req room_token) (\<lambda>(sess, room).
     seq (of_sum (validate_csrf cfg cr req))
     (bind (pending_session room upload_id) (\<lambda>rec.
      bind (abort_upload_session bk room rec) (\<lambda>_.
      seq commit (ret True)))))"

section \<open>The endpoints are safe\<close>

lemma pending_session_ready:
  assumes r: "ready d0 exact cfg v w"
    and Q: "\<And>rec. ready d0 exact cfg v w \<Longrightarrow> rec \<in> set (files (w_db w)) \<Longrightarrow> f_room_id rec = r_id room \<Longrightarrow> f_id rec = i \<Longrightarrow> Q rec w"
    and E: "\<And>e. calm d0 exact cfg v w \<Longrightarrow> E e w"
  shows "wp (pending_session room i) Q E w"
  unfolding pending_session_def wp_bind
  by (rule file_by_id_ready [OF r]) (use r Q E in \<open>auto simp: wp_simps split: option.split\<close>)

lemma create_upload_ready:
  fixes w :: "('st, 'z) app_scheme"
  assumes r: "ready d0 exact cfg v w" and room: "room \<in> set (rooms (w_db w))"
    and Q: "\<And>x t. ready d0 exact cfg v t \<Longrightarrow> Q x t" and E: "\<And>e t. calm d0 exact cfg v t \<Longrightarrow> E e t"
  shows "wp (create_upload_session cfg key room actor fn ct n m) Q E w"
proof (rule ready_frame [OF r])
  show "wp (create_upload_session cfg key room actor fn ct n m) (\<lambda>_. good exact cfg) (\<lambda>_ _. True) w"
    by (rule wp_mono [OF create_upload_session_wp [OF ready_good [OF r] room]]) auto
qed (use Q E in blast)+

lemma store_chunk_ready:
  fixes w :: "('st, 'z) app_scheme"
  assumes r: "ready d0 exact cfg v w" and f: "rec \<in> set (files (w_db w))"
    and Q: "\<And>x t. ready d0 exact cfg v t \<Longrightarrow> Q x t" and E: "\<And>e t. calm d0 exact cfg v t \<Longrightarrow> E e t"
  shows "wp (store_chunk cfg bk rec i chunk) Q E w"
proof (rule ready_frame [OF r])
  show "wp (store_chunk cfg bk rec i chunk) (\<lambda>_. good exact cfg) (\<lambda>_ _. True) w"
    by (rule wp_mono [OF store_chunk_wp [OF ready_good [OF r] f, where S = "\<lambda>_ _. True"]]) auto
qed (use Q E in blast)+

lemma abort_upload_ready:
  fixes w :: "('st, 'z) app_scheme"
  assumes r: "ready d0 exact cfg v w" and f: "rec \<in> set (files (w_db w))" and e: "exact \<Longrightarrow> f_status rec \<noteq> CONFIRMED"
    and Q: "\<And>x t. ready d0 exact cfg v t \<Longrightarrow> Q x t" and E: "\<And>e t. calm d0 exact cfg v t \<Longrightarrow> E e t"
  shows "wp (abort_upload_session bk room rec) Q E w"
proof (rule ready_frame [OF r])
  show "wp (abort_upload_session bk room rec) (\<lambda>_. good exact cfg) (\<lambda>_ _. True) w"
    by (rule wp_mono [OF abort_upload_session_wp [OF ready_good [OF r] f e]]) auto
qed (use Q E in blast)+

lemma progress_ready:
  assumes r: "ready d0 exact cfg v w" and Q: "\<And>t. ready d0 exact cfg v t \<Longrightarrow> Q () t"
  shows "wp (broadcast_progress room rec) Q E w"
  using Q r by (auto simp: broadcast_progress_def Let_def wp_ret intro: ready_broadcast [OF r])

lemmas upload_steps = file_steps pending_session_ready create_upload_ready store_chunk_ready abort_upload_ready progress_ready

lemma safe_create_upload: "safe d0 exact cfg (api_create_upload cfg cr key req tk body)"
  unfolding api_create_upload_def
  by (rule safeI) (simp only: wp_seq wp_bind, (elim upload_steps | clarsimp simp: wp_seq wp_bind)+)

lemma safe_upload_status: "safe d0 exact cfg (api_upload_status cfg cr req tk i)"
  unfolding api_upload_status_def
  by (rule safeI) (simp only: wp_seq wp_bind, (elim upload_steps | clarsimp simp: wp_seq wp_bind)+)

lemma safe_upload_chunk: "safe d0 exact cfg (api_upload_chunk cfg cr bk req tk i n chunk)"
  unfolding api_upload_chunk_def Let_def
  by (rule safeI) (simp only: wp_seq wp_bind, (elim upload_steps | clarsimp simp: wp_seq wp_bind)+)

text \<open>An abort may remove a confirmed file without giving its quota back, so it is only safe for the
  invariant that does not ask for exact counters.\<close>

text \<open>An abort keeps the counters exact as long as the file is not a confirmed one.\<close>

lemma abort_ready:
  assumes r: "ready d0 exact cfg v v" and e: "exact \<Longrightarrow> \<forall>f \<in> set (files (w_db v)). f_id f = i \<longrightarrow> f_status f \<noteq> CONFIRMED"
  shows "wp (api_abort_upload cfg cr bk req tk i) (\<lambda>_. calm d0 exact cfg v) (\<lambda>_. calm d0 exact cfg v) v"
  unfolding api_abort_upload_def wp_bind
proof (rule ready_member [OF r])
  fix s room
  show "wp (case (s, room) of (sess, room) \<Rightarrow> seq (of_sum (validate_csrf cfg cr req))
      (bind (pending_session room i) (\<lambda>rec. bind (abort_upload_session bk room rec) (\<lambda>_. seq commit (ret True)))))
    (\<lambda>_. calm d0 exact cfg v) (\<lambda>_. calm d0 exact cfg v) v"
    unfolding prod.case wp_seq wp_bind
  proof (rule ready_of_sum [OF r], rule pending_session_ready [OF r])
    fix rec
    assume "rec \<in> set (files (w_db v))" and "f_id rec = i"
    then show "wp (abort_upload_session bk room rec) (\<lambda>_. wp commit (\<lambda>_. wp (ret True) (\<lambda>_. calm d0 exact cfg v) (\<lambda>_. calm d0 exact cfg v))
        (\<lambda>_. calm d0 exact cfg v)) (\<lambda>_. calm d0 exact cfg v) v"
      using e by (intro abort_upload_ready [OF r]) (auto simp: wp_commit wp_ret ready_calm)
  qed
qed

lemma safe_abort_upload: "safe d0 False cfg (api_abort_upload cfg cr bk req tk i)"
  by (rule safeI) (rule abort_ready, simp_all)

context object_store
begin

lemma complete_upload_ready:
  fixes w :: "('st, 'z) app_scheme"
  assumes r: "ready d0 exact cfg v w" and f: "rec \<in> set (files (w_db w))"
    and Q: "\<And>x t. ready d0 exact cfg v t \<Longrightarrow> Q x t" and E: "\<And>e t. calm d0 exact cfg v t \<Longrightarrow> E e t"
  shows "wp (complete_upload_session cfg bk room actor rec n) Q E w"
proof (rule ready_frame [OF r])
  show "wp (complete_upload_session cfg bk room actor rec n) (\<lambda>_. good exact cfg) (\<lambda>_ _. True) w"
    by (rule wp_mono [OF complete_upload_session_wp [OF ready_good [OF r] f]]) auto
qed (use Q E in blast)+

lemma safe_complete_upload:
  fixes d0 :: database
  shows "safe d0 exact cfg (api_complete_upload cfg cr bk req tk i n)"
  unfolding api_complete_upload_def broadcast_file_uploaded_def
  by (rule safeI) (simp only: wp_seq wp_bind, (elim complete_upload_ready upload_steps | clarsimp simp: wp_seq wp_bind)+)

end

end
