(* ===== verification/Websocket.thy ===== *)
theory Websocket
  imports Api_Uploads
begin

text \<open>
  \<open>api/websocket.py\<close>: the WebSocket of a room. The coroutine \<open>room_ws\<close> is split at its \<open>await\<close> of
  the next frame: \<open>ws_open\<close> is everything before the loop, \<open>ws_receive\<close> one turn of the loop, and
  \<open>ws_leave\<close> the \<open>finally\<close> block, which both run when an exception ends the connection. What the
  coroutine keeps in its locals between turns is the \<open>conn\<close> record.

  A connection has one database session for its whole life. It commits in every turn that changed
  something, so each turn sees the committed database. A statement that failed while it was flushed
  leaves the session unusable: the next use raises \<open>PendingRollbackError\<close> (\<open>flush_failed\<close>).
\<close>

section \<open>JSON values\<close>

definition vtruthy :: "jvalue \<Rightarrow> bool" where
  "vtruthy v = (case v of VNull \<Rightarrow> False | VBool b \<Rightarrow> b | VInt n \<Rightarrow> n \<noteq> 0 | VFloat q t \<Rightarrow> q \<noteq> 0
     | VStr s \<Rightarrow> s \<noteq> [] | VList vs \<Rightarrow> vs \<noteq> [] | VDict kv \<Rightarrow> kv \<noteq> [])"

definition vget :: "jvalue \<Rightarrow> string \<Rightarrow> jvalue \<Rightarrow> exc + jvalue" where
  "vget v key dflt = (case v of
     VDict kv \<Rightarrow> Inr (case map_of kv key of None \<Rightarrow> dflt | Some x \<Rightarrow> x)
   | _ \<Rightarrow> Inl (Py AttributeError))"

text \<open>\<open>repr\<close> and \<open>str\<close>.\<close>

definition apostrophe :: char where
  "apostrophe = char_of (39 :: nat)"

definition printable :: "nat \<Rightarrow> bool" where
  "printable n \<longleftrightarrow> 32 \<le> n \<and> n < 127 \<or> 161 \<le> n \<and> n \<noteq> 173"

definition repr_char :: "char \<Rightarrow> char \<Rightarrow> string" where
  "repr_char q c = (let n = code c in
     if c = q \<or> n = 92 then [backslash, c]
     else if n = 10 then [backslash, CHR ''n''] else if n = 13 then [backslash, CHR ''r'']
     else if n = 9 then [backslash, CHR ''t''] else if printable n then [c]
     else [backslash, CHR ''x'', hex_digits ! (n div 16), hex_digits ! (n mod 16)])"

definition repr_str :: "string \<Rightarrow> string" where
  "repr_str s = (let q = (if apostrophe \<in> set s \<and> dquote \<notin> set s then dquote else apostrophe)
     in q # concat (map (repr_char q) s) @ [q])"

fun repr :: "jvalue \<Rightarrow> string" where
  "repr VNull = ''None''"
| "repr (VBool b) = (if b then ''True'' else ''False'')"
| "repr (VInt n) = str_int n"
| "repr (VFloat q t) = t"
| "repr (VStr s) = repr_str s"
| "repr (VList vs) = ''['' @ join '', '' (map repr vs) @ '']''"
| "repr (VDict kv) = ''{'' @ join '', '' (map (\<lambda>(k, v). repr_str k @ '': '' @ repr v) kv) @ ''}''"

definition py_str :: "jvalue \<Rightarrow> string" where
  "py_str v = (case v of VStr s \<Rightarrow> s | _ \<Rightarrow> repr v)"

text \<open>\<open>int\<close>: of a string with surrounding space, a sign and single underscores between digits.\<close>

fun int_digits :: "string \<Rightarrow> string option" where
  "int_digits [] = None"
| "int_digits [c] = (if is_ascii_digit c then Some [c] else None)"
| "int_digits (c # d # rest) =
     (if \<not> is_ascii_digit c then None
      else map_option (Cons c) (int_digits (if d = CHR ''_'' then rest else d # rest)))"

definition int_of_str :: "string \<Rightarrow> int option" where
  "int_of_str s = (case strip s of
     [] \<Rightarrow> None
   | c # rest \<Rightarrow>
       if c = CHR ''-'' then map_option (\<lambda>ds. - int (undec ds)) (int_digits rest)
       else if c = CHR ''+'' then map_option (\<lambda>ds. int (undec ds)) (int_digits rest)
       else map_option (\<lambda>ds. int (undec ds)) (int_digits (c # rest)))"

definition py_int_of :: "jvalue \<Rightarrow> exc + int" where
  "py_int_of v = (case v of
     VBool b \<Rightarrow> Inr (if b then 1 else 0)
   | VInt n \<Rightarrow> Inr n
   | VFloat q t \<Rightarrow> Inr (if q < 0 then - \<lfloor>- q\<rfloor> else \<lfloor>q\<rfloor>)
   | VStr s \<Rightarrow> (case int_of_str s of None \<Rightarrow> Inl (Py ValueError) | Some n \<Rightarrow> Inr n)
   | _ \<Rightarrow> Inl (Py TypeError))"

section \<open>Opening a connection\<close>

record ws_request =
  wr_token :: "string option"
  wr_cookies :: "(string \<times> string) list"
  wr_room_token :: string

definition ws_auth :: "settings \<Rightarrow> crypto \<Rightarrow> ws_request \<Rightarrow> ('st, 'z, (session_rec \<times> room) option) action" where
  "ws_auth cfg cr req =
     (let token = (if truthy (wr_token req) then wr_token req else map_of (wr_cookies req) (session_cookie_name cfg)) in
      if \<not> truthy token then ret None
      else bind (get_by_token_hash (hash_token cr (the token))) (\<lambda>found.
           bind utcnow (\<lambda>now.
           case found of
             None \<Rightarrow> ret None
           | Some s \<Rightarrow>
               if has_expired now (Aware (s_expires_at s)) then ret None
               else if wr_room_token req = [] then ret None
               else bind (get_room_by_access_token cr (wr_room_token req)) (\<lambda>r. case r of
                      None \<Rightarrow> ret None
                    | Some room \<Rightarrow> if r_id room \<noteq> s_room_id s \<or> r_status room \<noteq> ACTIVE then ret None
                                  else ret (Some (s, room))))))"

fun connected_only :: "string \<Rightarrow> session_rec list \<Rightarrow> ('st, 'z, session_rec list) api" where
  "connected_only channel [] = ret []"
| "connected_only channel (s # rest) =
     bind (on_sockets (is_session_connected channel (s_id s))) (\<lambda>c.
     bind (connected_only channel rest) (\<lambda>others.
     ret (if c then s # others else others)))"

text \<open>The module's own \<open>_file_view\<close> and \<open>_message_view\<close>.\<close>

definition ws_file_view :: "file_rec \<Rightarrow> file_view" where
  "ws_file_view r = \<lparr>fv_id = f_id r, fv_original_filename = f_original_filename r,
     fv_content_type = f_content_type r, fv_size_bytes = f_size_bytes r, fv_status = f_status r,
     fv_download_count = f_download_count r, fv_uploaded_by_name = None, fv_created_at = f_created_at r\<rparr>"

definition ws_message_view :: "message \<Rightarrow> message_view" where
  "ws_message_view m = \<lparr>mv_id = m_id m, mv_display_name = m_display_name m, mv_body = m_body m,
     mv_created_at = m_created_at m\<rparr>"

lemma same_views [simp]: "ws_file_view r = view_file r None" "ws_message_view = view_message"
  by (simp_all add: fun_eq_iff ws_file_view_def view_file_def ws_message_view_def view_message_def)

definition send_state :: "settings \<Rightarrow> nat \<Rightarrow> session_rec \<Rightarrow> room \<Rightarrow> ('st, 'z, unit) api" where
  "send_state cfg ws s room =
     bind (list_confirmed_files (r_id room)) (\<lambda>recs.
     bind (get_active_sessions (r_id room)) (\<lambda>active.
     bind (list_messages cfg (r_id room) None) (\<lambda>ms.
     bind utcnow (\<lambda>now.
     let remaining = remaining_seconds now room in
     bind (connected_only (ws_channel room) active) (\<lambda>members.
     seq (on_sockets (send_json ws (RoomState
        \<lparr>st_room = \<lparr>sm_room_code = r_room_code room, sm_name = r_name room,
           sm_guest_upload_enabled = r_guest_upload_enabled room,
           sm_guest_download_enabled = r_guest_download_enabled room, sm_user_count = r_user_count room,
           sm_max_users = r_max_users room, sm_storage_used_bytes = r_storage_used_bytes room,
           sm_file_count = r_file_count room, sm_expires_at = r_expires_at room, sm_remaining_seconds = remaining\<rparr>,
         st_role = s_role s, st_me = (s_id s, s_display_name s),
         st_members = map (\<lambda>m. \<lparr>mb_session_id = s_id m, mb_display_name = s_display_name m, mb_role = s_role m\<rparr>) members,
         st_files = map ws_file_view recs, st_messages = map ws_message_view ms\<rparr>)))
     (if remaining < room_expiring_threshold_seconds cfg
      then on_sockets (send_json ws (RoomExpiring remaining)) else ret ()))))))"

definition drop_conn :: "nat \<Rightarrow> ('st, 'z, unit) api" where
  "drop_conn ws = modify (\<lambda>w. w\<lparr>a_conns := filter (\<lambda>c. c_ws c \<noteq> ws) (a_conns w)\<rparr>)"

definition add_conn :: "conn \<Rightarrow> ('st, 'z, unit) api" where
  "add_conn c = modify (\<lambda>w. w\<lparr>a_conns := a_conns w @ [c]\<rparr>)"

definition flush_failed :: "exc \<Rightarrow> bool" where
  "flush_failed e \<longleftrightarrow> e = Py IntegrityError \<or> e = Py DataError \<or> e = Py StaleDataError"

definition ws_leave :: "nat \<Rightarrow> session_rec \<Rightarrow> room \<Rightarrow> bool \<Rightarrow> ('st, 'z, unit) api" where
  "ws_leave ws s room broken =
     (let channel = ws_channel room in
      seq (drop_conn ws)
      (seq (on_sockets (disconnect channel (s_id s) ws))
      (bind (on_sockets (is_session_connected channel (s_id s))) (\<lambda>still.
       if still then ret ()
       else seq (on_sockets (broadcast channel (UserLeft (s_id s) (s_display_name s)) [s_id s]))
           (seq (guard (\<not> broken) (Py PendingRollbackError))
           (seq (decrement_user_count (r_id room))
           (seq (expire_session (s_id s)) commit)))))))"

datatype ws_result = Opened | Rejected int | Ended

definition ws_open :: "settings \<Rightarrow> crypto \<Rightarrow> nat \<Rightarrow> ws_request \<Rightarrow> ('st, 'z, ws_result) api" where
  "ws_open cfg cr ws req =
     bind (ws_auth cfg cr req) (\<lambda>auth. case auth of
       None \<Rightarrow> ret (Rejected 4401)
     | Some (s, room) \<Rightarrow>
         try_except
           (seq (on_sockets (connect (ws_channel room) (s_id s) ws))
           (seq (add_conn \<lparr>c_ws = ws, c_session = s, c_room = room\<rparr>)
           (seq (send_state cfg ws s room)
           (seq (on_sockets (broadcast (ws_channel room) (UserJoined (s_id s) (s_display_name s) (s_role s)) [s_id s]))
           (ret Opened)))))
           (\<lambda>e. seq (ws_leave ws s room (flush_failed e)) (ret Ended)))"

section \<open>Messages\<close>

definition send_error :: "nat \<Rightarrow> string \<Rightarrow> jvalue \<Rightarrow> ('st, 'z, unit) api" where
  "send_error ws err_code detail = try_except (on_sockets (send_json ws (ErrorEvent err_code detail))) (\<lambda>_. ret ())"

definition chat_send :: "settings \<Rightarrow> conn \<Rightarrow> jvalue \<Rightarrow> ('st, 'z, unit) api" where
  "chat_send cfg c payload =
     (let room = c_room c; s = c_session c in
      bind (try_except
             (seq (limit_check cfg (''chat:'' @ str_int (r_id room)) (''s'' @ str_int (s_id s)) (chat_limit cfg)) (ret True))
             (\<lambda>e. case e of
                Drop cl d \<Rightarrow> if is_instance cl RateLimited
                  then seq (send_error (c_ws c) ''CHAT_RATE_LIMITED'' (VStr ''Too many messages; slow down'')) (ret False)
                  else raise (Drop cl d)
              | Py x \<Rightarrow> raise (Py x)))
        (\<lambda>admitted.
       if \<not> admitted then ret ()
       else
         bind (try_except
                (bind (of_sum (vget payload ''body'' (VStr []))) (\<lambda>body.
                 bind (send_message cfg room s (py_str body)) (\<lambda>msg.
                 seq commit
                 (bind (create_audit_event (Some (r_id room)) ''MESSAGE_SENT'' None) (\<lambda>_.
                 seq commit (ret (Some msg)))))))
                (\<lambda>e. case e of
                   Drop cl d \<Rightarrow> seq (send_error (c_ws c) (error_code cl) (VStr d)) (ret None)
                 | Py x \<Rightarrow> raise (Py x)))
           (\<lambda>sent. case sent of
              None \<Rightarrow> ret ()
            | Some msg \<Rightarrow> on_sockets (broadcast (ws_channel room) (ChatMessageSent (ws_message_view msg)) []))))"

text \<open>The driver refuses to bind an integer that the column cannot hold.\<close>

definition int4 :: "int \<Rightarrow> bool" where
  "int4 n \<longleftrightarrow> - (2 ^ 31) \<le> n \<and> n < 2 ^ 31"

definition chat_delete :: "conn \<Rightarrow> jvalue \<Rightarrow> ('st, 'z, unit) api" where
  "chat_delete c payload =
     (let room = c_room c; s = c_session c in
      bind (try_except
             (bind (of_sum (vget payload ''messageId'' (VInt 0))) (\<lambda>v.
              bind (of_sum (py_int_of v)) (\<lambda>message_id.
              seq (guard (int4 message_id) (Py DBAPIError))
              (bind (delete_message room s message_id) (\<lambda>ok.
              seq commit (ret (if ok then Some message_id else None)))))))
             (\<lambda>e. case e of
                Drop cl d \<Rightarrow> seq (send_error (c_ws c) (error_code cl) (VStr d)) (ret None)
              | Py x \<Rightarrow> raise (Py x)))
        (\<lambda>deleted. case deleted of
           None \<Rightarrow> ret ()
         | Some message_id \<Rightarrow> on_sockets (broadcast (ws_channel room) (ChatMessageDeleted message_id) [])))"

definition handle_message :: "settings \<Rightarrow> conn \<Rightarrow> (string \<times> jvalue) list \<Rightarrow> ('st, 'z, unit) api" where
  "handle_message cfg c data =
     (let msg_type = (case map_of data ''type'' of None \<Rightarrow> VNull | Some v \<Rightarrow> v);
          payload = (case map_of data ''payload'' of None \<Rightarrow> VDict [] | Some p \<Rightarrow> if vtruthy p then p else VDict []) in
      if msg_type = VStr ''PING'' then on_sockets (send_json (c_ws c) Pong)
      else if msg_type = VStr ''CHAT_SEND'' then chat_send cfg c payload
      else if msg_type = VStr ''CHAT_DELETE'' then chat_delete c payload
      else send_error (c_ws c) ''UNKNOWN_MESSAGE_TYPE'' (if vtruthy msg_type then msg_type else VStr []))"

text \<open>What \<open>receive_json\<close> yields: a value, a text that is not JSON, or the end of the connection.\<close>

datatype ws_frame = Frame jvalue | Malformed | Hangup

definition ws_turn :: "settings \<Rightarrow> conn \<Rightarrow> ws_frame \<Rightarrow> ('st, 'z, unit) api" where
  "ws_turn cfg c frame = (case frame of
     Hangup \<Rightarrow> raise (Py WebSocketDisconnect)
   | Malformed \<Rightarrow> raise (Py ValueError)
   | Frame v \<Rightarrow> (case v of
       VDict data \<Rightarrow> if map_of data ''type'' \<noteq> None then handle_message cfg c data else ret ()
     | _ \<Rightarrow> ret ()))"

definition ws_receive :: "settings \<Rightarrow> nat \<Rightarrow> ws_frame \<Rightarrow> ('st, 'z, unit) api" where
  "ws_receive cfg ws frame =
     bind (gets (\<lambda>w. find (\<lambda>c. c_ws c = ws) (a_conns w))) (\<lambda>found. case found of
       None \<Rightarrow> ret ()
     | Some c \<Rightarrow> try_except (ws_turn cfg c frame) (\<lambda>e. ws_leave ws (c_session c) (c_room c) (flush_failed e)))"

end
