(* ===== verification/Connections.thy ===== *)
theory Connections
  imports Websocket
begin

text \<open>
  The WebSocket endpoint keeps the invariant. \<open>socks_ok\<close> ties the registry to the open connections:
  the links of the registry are exactly the connections, and two connections of one session are in
  the same room. With it, a session is online exactly when the registry says so, and the seat of a
  session is given back exactly when its last connection ends.
\<close>

definition conn_link :: "conn \<Rightarrow> string \<times> int \<times> nat" where
  "conn_link c = (ws_channel (c_room c), s_id (c_session c), c_ws c)"

definition conns_agree :: "conn list \<Rightarrow> bool" where
  "conns_agree cs \<longleftrightarrow> (\<forall>c \<in> set cs. \<forall>c' \<in> set cs. s_id (c_session c) = s_id (c_session c') \<longrightarrow>
     r_id (c_room c) = r_id (c_room c'))"

definition socks_ok :: "('st, 'z) app_scheme \<Rightarrow> bool" where
  "socks_ok w \<longleftrightarrow> registry_ok (registry (a_sockets w)) \<and> links (registry (a_sockets w)) = conn_link ` set (a_conns w) \<and>
     distinct (map c_ws (a_conns w)) \<and> conns_agree (a_conns w)"

definition sound :: "database \<Rightarrow> bool \<Rightarrow> settings \<Rightarrow> ('st, 'z) app_scheme \<Rightarrow> bool" where
  "sound d0 exact cfg w \<longleftrightarrow> steady d0 exact cfg w \<and> socks_ok w"

lemma socks_ok_updates [simp]:
  "socks_ok (w\<lparr>w_db := d\<rparr>) = socks_ok w" "socks_ok (w\<lparr>w_saved := d\<rparr>) = socks_ok w"
  by (simp_all add: socks_ok_def)

lemma sound_db [simp]: "sound d0 exact cfg (w\<lparr>w_db := d\<rparr>) = sound d0 exact cfg w"
  by (simp add: sound_def)

lemma calm_socks: "calm d0 exact cfg v w \<Longrightarrow> socks_ok v \<Longrightarrow> socks_ok w"
  by (simp add: calm_def socks_ok_def)

lemma calm_sound: "calm d0 exact cfg v w \<Longrightarrow> socks_ok v \<Longrightarrow> sound d0 exact cfg w"
  by (simp add: sound_def calm_socks) (simp add: calm_def)

lemma confined_same_db:
  fixes w t :: "('st, 'z) app_scheme"
  assumes "ready d0 exact cfg v w" and "confined w t" and "w_db t = w_db w"
  shows "ready d0 exact cfg v t"
proof -
  note parts = confined_parts [OF assms(2)]
  have c: "calm d0 exact cfg v w" and "tx d0 exact cfg w" using assms(1) by (simp_all add: ready_def)
  then have ok: "db_inv exact cfg (w_seq w) (w_db w)" "within_capacity (online (a_conns w)) (w_now w) (w_db w)"
      "\<And>k. k \<in> set (a_conns w) \<Longrightarrow> conn_ok (w_seq w) (w_db w) k" "rooms_evolve d0 (w_db w)"
    by (simp_all add: tx_def db_ok_def)
  have "tx d0 exact cfg t"
    unfolding tx_def db_ok_def parts assms(3)
    by (intro conjI ballI db_inv_mono [OF ok(1) parts(5)] ok(2,4) conn_ok_mono [OF ok(3) parts(5)])
  moreover have "steady d0 exact cfg w" using c by (simp add: calm_def)
  ultimately show ?thesis
    using calm_confined [OF c assms(2) steady_confined [OF _ assms(2)]] unfolding ready_def by blast
qed

section \<open>Turns\<close>

lemma audit_safe:
  fixes w :: "('st, 'z) app_scheme"
  assumes r: "ready d0 exact cfg v w"
  shows "wp (create_audit_event ri ty md) (\<lambda>_. ready d0 exact cfg v) (\<lambda>_. ready d0 exact cfg v) w"
proof -
  have "wp (create_audit_event ri ty md) (\<lambda>_. ready d0 exact cfg v) (\<lambda>_ _. True) w" by (rule audit_ready [OF r]) simp_all
  moreover from wp_confined [OF audit_wp [where cfg = cfg and exact = exact] confined.frame_repositories(2)]
  have "wp (create_audit_event ri ty md) (\<lambda>_ _. True) (\<lambda>_. ready d0 exact cfg v) w"
    by (rule wp_mono) (auto intro: confined_same_db [OF r])
  ultimately show ?thesis by (auto dest: wp_conj elim: wp_mono)
qed

text \<open>A session that still exists has an open room; one that does not can no longer send.\<close>

lemma session_room_open:
  assumes "db_inv exact cfg sq d" and "has_session sid i d"
  shows "open_room i d"
proof -
  from assms(2) obtain s where s: "s \<in> set (sessions d)" "s_room_id s = i" by (auto simp: has_session_def)
  moreover have "s_room_id ` set (sessions d) \<subseteq> r_id ` set (rooms d)"
    using assms(1) by (simp add: db_inv_def tables_ok_def refs_ok_def)
  ultimately obtain r where r: "r \<in> set (rooms d)" "r_id r = i" by (metis image_iff image_subset_iff)
  have "r_status r \<noteq> DELETED"
  proof
    assume "r_status r = DELETED"
    then have "wiped (r_id r) d" using assms(1) r(1) by (simp add: db_inv_def room_ok_def)
    with s r(2) show False by (auto simp: wiped_def)
  qed
  with r show ?thesis by (rule open_roomI)
qed

lemma send_message_safe:
  fixes w :: "('st, 'z) app_scheme"
  assumes r: "ready d0 exact cfg v w" and c: "c \<in> set (a_conns w)"
  shows "wp (send_message cfg (c_room c) (c_session c) body) (\<lambda>_. ready d0 exact cfg v) (\<lambda>_. ready d0 exact cfg v) w"
proof (cases "has_session (s_id (c_session c)) (r_id (c_room c)) (w_db w)")
  case True
  have inv: "db_inv exact cfg (w_seq w) (w_db w)" using ready_good [OF r] by (simp add: good_def)
  note m = send_message_wp [OF ready_good [OF r] session_room_open [OF inv True], of "c_session c" body]
  have "wp (send_message cfg (c_room c) (c_session c) body) (\<lambda>_. ready d0 exact cfg v) (\<lambda>_ _. True) w"
    by (rule ready_frame [OF r m]) auto
  moreover from wp_confined [OF m confined.frame_messages(1)]
  have "wp (send_message cfg (c_room c) (c_session c) body) (\<lambda>_ _. True) (\<lambda>_. ready d0 exact cfg v) w"
    by (rule wp_mono) (auto intro: confined_same_db [OF r])
  ultimately show ?thesis by (auto dest: wp_conj elim: wp_mono)
next
  case False
  have "conn_ok (w_seq w) (w_db w) c" using r c by (simp add: ready_def tx_def db_ok_def)
  with False have "s_id (c_session c) \<notin> s_id ` set (sessions (w_db w))" by (auto simp: conn_ok_def has_session_def)
  then have "wp (insert_message m) (\<lambda>_ _. False) (\<lambda>_ t. w_db t = w_db w) w" if "m_sender_session_id m = Some (s_id (c_session c))" for m
    using that by (simp add: wp_def insert_message_def Let_def)
  then have "wp (send_message cfg (c_room c) (c_session c) body) (\<lambda>_ _. False) (\<lambda>_ t. w_db t = w_db w) w"
    by (simp add: send_message_def create_message_def wp_bind wp_of_sum wp_utcnow split: sum.split)
  from wp_confined [OF this confined.frame_messages(1)] show ?thesis
    by (rule wp_mono) (auto intro: confined_same_db [OF r])
qed

lemma delete_message_safe:
  fixes w :: "('st, 'z) app_scheme"
  assumes r: "ready d0 exact cfg v w"
  shows "wp (delete_message room actor i) (\<lambda>_. ready d0 exact cfg v) (\<lambda>_. ready d0 exact cfg v) w"
proof -
  have "wp (delete_message room actor i) (\<lambda>_. ready d0 exact cfg v) (\<lambda>_ _. True) w" by (rule delete_message_ready [OF r]) simp_all
  moreover have "wp (delete_message room actor i) (\<lambda>_ _. True) (\<lambda>_ t. t = w) w"
    by (simp add: delete_message_def repo_delete_message_def wp_simps)
  ultimately show ?thesis using r by (auto dest: wp_conj elim: wp_mono)
qed

lemma ready_sockets:
  "ready d0 exact cfg v w \<Longrightarrow> ready d0 exact cfg v (w\<lparr>a_sockets := (a_sockets w)\<lparr>outbox := ob\<rparr>\<rparr>)"
  by (simp add: ready_def calm_def)

lemma send_json_safe:
  "ready d0 exact cfg v w \<Longrightarrow> wp (on_sockets (send_json ws ev)) (\<lambda>_. ready d0 exact cfg v) (\<lambda>_. ready d0 exact cfg v) w"
  by (simp add: wp_simps ready_sockets)

lemma send_error_safe:
  "ready d0 exact cfg v w \<Longrightarrow> wp (send_error ws err_code d) (\<lambda>_. ready d0 exact cfg v) (\<lambda>_. ready d0 exact cfg v) w"
  unfolding send_error_def wp_try by (rule wp_mono [OF send_json_safe]) (simp_all add: wp_ret)

lemma broadcast_safe:
  "ready d0 exact cfg v w \<Longrightarrow> wp (on_sockets (broadcast ch ev ex)) (\<lambda>_. ready d0 exact cfg v) (\<lambda>_. ready d0 exact cfg v) w"
  by (rule ready_broadcast)

lemma limit_check_safe:
  "ready d0 exact cfg v w \<Longrightarrow> wp (limit_check cfg' sc key l) (\<lambda>_. ready d0 exact cfg v) (\<lambda>_. ready d0 exact cfg v) w"
  by (rule limit_check_wp) simp_all

lemma commit_safe:
  "ready d0 exact cfg v w \<Longrightarrow> wp commit (\<lambda>_. ready d0 exact cfg v) (\<lambda>_. ready d0 exact cfg v) w"
  by (simp add: wp_commit)

text \<open>\<open>harmless\<close>: from a sound transaction to a sound transaction, raising or not.\<close>

definition harmless :: "database \<Rightarrow> bool \<Rightarrow> settings \<Rightarrow> conn \<Rightarrow> ('st, 'z, 'a) api \<Rightarrow> bool" where
  "harmless d0 exact cfg c m \<longleftrightarrow> (\<forall>v w. ready d0 exact cfg v w \<longrightarrow> c \<in> set (a_conns w) \<longrightarrow>
     wp m (\<lambda>_. ready d0 exact cfg v) (\<lambda>_. ready d0 exact cfg v) w)"

lemma ready_conns: "ready d0 exact cfg v w \<Longrightarrow> a_conns w = a_conns v"
  by (simp add: ready_def calm_def)

lemma harmless_bind:
  fixes m :: "('st, 'z, 'a) api"
  assumes "harmless d0 exact cfg c m" and "\<And>x. harmless d0 exact cfg c (f x)"
  shows "harmless d0 exact cfg c (bind m f)"
  unfolding harmless_def wp_bind
proof (intro allI impI)
  fix v w :: "('st, 'z) app_scheme"
  assume r: "ready d0 exact cfg v w" and c: "c \<in> set (a_conns w)"
  have "wp m (\<lambda>_. ready d0 exact cfg v) (\<lambda>_. ready d0 exact cfg v) w" using assms(1) r c by (simp add: harmless_def)
  then show "wp m (\<lambda>x. wp (f x) (\<lambda>_. ready d0 exact cfg v) (\<lambda>_. ready d0 exact cfg v)) (\<lambda>_. ready d0 exact cfg v) w"
  proof (rule wp_mono)
    fix x t
    assume t: "ready d0 exact cfg v t"
    with c r have "c \<in> set (a_conns t)" by (simp add: ready_conns)
    with t show "wp (f x) (\<lambda>_. ready d0 exact cfg v) (\<lambda>_. ready d0 exact cfg v) t"
      using assms(2) [of x] by (simp add: harmless_def)
  qed
qed

lemma harmless_try:
  fixes m :: "('st, 'z, 'a) api"
  assumes "harmless d0 exact cfg c m" and "\<And>e. harmless d0 exact cfg c (h e)"
  shows "harmless d0 exact cfg c (try_except m h)"
  unfolding harmless_def wp_try
proof (intro allI impI)
  fix v w :: "('st, 'z) app_scheme"
  assume r: "ready d0 exact cfg v w" and c: "c \<in> set (a_conns w)"
  have "wp m (\<lambda>_. ready d0 exact cfg v) (\<lambda>_. ready d0 exact cfg v) w" using assms(1) r c by (simp add: harmless_def)
  then show "wp m (\<lambda>_. ready d0 exact cfg v) (\<lambda>e. wp (h e) (\<lambda>_. ready d0 exact cfg v) (\<lambda>_. ready d0 exact cfg v)) w"
  proof (rule wp_mono)
    fix e t
    assume t: "ready d0 exact cfg v t"
    with c r have "c \<in> set (a_conns t)" by (simp add: ready_conns)
    with t show "wp (h e) (\<lambda>_. ready d0 exact cfg v) (\<lambda>_. ready d0 exact cfg v) t"
      using assms(2) [of e] by (simp add: harmless_def)
  qed
qed

lemma harmless_seq: "harmless d0 exact cfg c m \<Longrightarrow> harmless d0 exact cfg c n \<Longrightarrow> harmless d0 exact cfg c (seq m n)"
  unfolding seq_def by (rule harmless_bind)

lemma harmless_leaf:
  "harmless d0 exact cfg c (ret x)" "harmless d0 exact cfg c (raise e)" "harmless d0 exact cfg c (of_sum r)"
  "harmless d0 exact cfg c commit" "harmless d0 exact cfg c (limit_check cfg' sc key l)"
  "harmless d0 exact cfg c (send_error ws err_code d)" "harmless d0 exact cfg c (on_sockets (send_json ws ev))"
  "harmless d0 exact cfg c (on_sockets (broadcast ch ev ex))" "harmless d0 exact cfg c (create_audit_event ri ty md)"
  "harmless d0 exact cfg c (delete_message room actor i)" "harmless d0 exact cfg c (guard b e)"
  "harmless d0 exact cfg c (send_message cfg (c_room c) (c_session c) body)"
  by (simp_all add: harmless_def wp_ret wp_raise wp_of_sum wp_guard commit_safe limit_check_safe send_error_safe send_json_safe
      broadcast_safe audit_safe delete_message_safe send_message_safe split: sum.split)

lemmas harmless_intros = harmless_bind harmless_try harmless_seq harmless_leaf

lemma harmless_chat_send: "harmless d0 exact cfg c (chat_send cfg c payload)"
  unfolding chat_send_def Let_def
  by (intro harmless_intros | (split exc.split option.split if_split; intro conjI allI impI))+

lemma harmless_chat_delete: "harmless d0 exact cfg c (chat_delete c payload)"
  unfolding chat_delete_def Let_def
  by (intro harmless_intros | (split exc.split option.split if_split; intro conjI allI impI))+

lemma harmless_handle: "harmless d0 exact cfg c (handle_message cfg c data)"
  unfolding handle_message_def Let_def by (simp add: harmless_leaf harmless_chat_send harmless_chat_delete)

lemma harmless_turn: "harmless d0 exact cfg c (ws_turn cfg c frame)"
  by (simp add: ws_turn_def harmless_leaf harmless_handle split: ws_frame.split jvalue.split)


section \<open>Leaving\<close>

text \<open>What the \<open>finally\<close> block does to the database when the last connection of \<open>c\<close>'s session ended.\<close>

definition left_db :: "int \<Rightarrow> int \<Rightarrow> int \<Rightarrow> database \<Rightarrow> database" where
  "left_db now sid i d = upd_sessions (\<lambda>s. s_id s = sid) (\<lambda>s. s\<lparr>s_expires_at := now, s_last_seen_at := now, s_updated_at := now\<rparr>)
     (upd_rooms (\<lambda>r. r_id r = i \<and> 0 < r_user_count r) (\<lambda>r. r\<lparr>r_user_count := r_user_count r - 1, r_updated_at := now\<rparr>) d)"

lemma left_db_wp:
  "wp (decrement_user_count i) (\<lambda>_. wp (expire_session sid) (\<lambda>_. wp commit Q E) E') E'' w
     = Q () (w\<lparr>w_db := left_db (w_now w) sid i (w_db w), w_saved := left_db (w_now w) sid i (w_db w)\<rparr>)"
  by (simp add: wp_simps decrement_user_count_def expire_session_def left_db_def)

lemma left_db_good: "db_inv exact cfg sq d \<Longrightarrow> db_inv exact cfg sq (left_db now sid i d)"
proof -
  assume inv: "db_inv exact cfg sq d"
  let ?w = "\<lparr>w_now = now, w_db = d, w_saved = d, w_seq = sq, w_store = ()\<rparr>"
  have "good exact cfg ?w" using inv by (simp add: good_def)
  then have "wp (decrement_user_count i) (\<lambda>_. good exact cfg) (\<lambda>_. good exact cfg) ?w"
    by (rule keeps_iff_wp [THEN iffD1, OF keeps_good_decrement, rule_format])
  then show ?thesis
    unfolding left_db_def by (intro db_inv_upd_sessions) (simp_all add: decrement_user_count_def wp_simps good_def)
qed

lemma left_db_evolved: "evolved sq d (w\<lparr>w_db := left_db now sid i d\<rparr>)" if "session_seq sq \<le> session_seq (w_seq w)" for w :: "('st, 'z) world_scheme"
proof -
  have "evolved sq d (w\<lparr>w_db := d\<rparr>)" using that by (simp add: evolved_def)
  then have "evolved sq d ((w\<lparr>w_db := d\<rparr>)\<lparr>w_db := upd_rooms (\<lambda>r. r_id r = i \<and> 0 < r_user_count r)
      (\<lambda>r. r\<lparr>r_user_count := r_user_count r - 1, r_updated_at := now\<rparr>) (w_db (w\<lparr>w_db := d\<rparr>))\<rparr>)"
    by (rule evolved_upd_rooms) (simp add: room_evolves_def)
  from evolved_upd_sessions [OF this, of "\<lambda>s. s\<lparr>s_expires_at := now, s_last_seen_at := now, s_updated_at := now\<rparr>" "\<lambda>s. s_id s = sid"]
  show ?thesis by (simp add: left_db_def)
qed

lemma online_iff: "online cs j \<longleftrightarrow> (\<exists>c \<in> set cs. s_id (c_session c) = j)"
  by (auto simp: online_def)

text \<open>A room that is deleted has no session, so the count of a room that has gone is all that changes.\<close>

lemma left_db_capacity:
  assumes cap: "within_capacity conn now d" and inv: "db_inv exact cfg sq d"
    and c: "conn_ok sq' d c" and was: "\<And>s. s \<in> set (sessions d) \<Longrightarrow> s_id s = s_id (c_session c) \<Longrightarrow> now < s_expires_at s \<or> conn (s_id s)"
    and conn': "\<And>j. conn' j \<longleftrightarrow> conn j \<and> j \<noteq> s_id (c_session c)"
  shows "within_capacity conn' now (left_db now (s_id (c_session c)) (r_id (c_room c)) d)"
proof (cases "has_session (s_id (c_session c)) (r_id (c_room c)) d")
  case True
  then obtain s where s: "s \<in> set (sessions d)" "s_id s = s_id (c_session c)" "s_room_id s = r_id (c_room c)"
    by (auto simp: has_session_def)
  show ?thesis
    by (rule within_capacity_leave [OF cap db_invD(2) [OF inv] s(1,3) was [OF s(1,2)]])
      (simp_all add: conn' s(2) left_db_def)
next
  case False
  let ?f = "\<lambda>r. r\<lparr>r_user_count := r_user_count r - 1, r_updated_at := now\<rparr>"
  have del: "is_deleted (r_id (c_room c)) d" using c False by (simp add: conn_ok_def)
  have none: "s_id s \<noteq> s_id (c_session c)" if "s \<in> set (sessions d)" for s
    using that c False by (auto simp: conn_ok_def has_session_def)
  then have same: "sessions (left_db now (s_id (c_session c)) (r_id (c_room c)) d) = sessions d"
    by (simp add: left_db_def upd_def cong: map_cong)
  show ?thesis
  proof (rule within_capacity_transfer [OF cap])
    fix i
    have "seats conn' now i (left_db now (s_id (c_session c)) (r_id (c_room c)) d) = seats conn' now i d"
      by (rule seats_cong [OF same])
    also have "\<dots> \<le> seats conn now i d" by (rule seats_mono) (auto simp: seated_def conn')
    finally show "seats conn' now i (left_db now (s_id (c_session c)) (r_id (c_room c)) d) \<le> seats conn now i d" .
  next
    fix r
    assume r: "r \<in> set (rooms (left_db now (s_id (c_session c)) (r_id (c_room c)) d))" "r_status r \<noteq> DELETED"
    then obtain r0 where r0: "r0 \<in> set (rooms d)" "r = (if r_id r0 = r_id (c_room c) \<and> 0 < r_user_count r0 then ?f r0 else r0)"
      by (auto simp: left_db_def set_upd)
    have "r_id r0 = r_id (c_room c) \<Longrightarrow> r_status r0 = DELETED"
      using del room_by_id [OF inv] r0(1) by (metis is_deleted_def)
    with r0 r(2) show "\<exists>r0 \<in> set (rooms d). r_id r0 = r_id r \<and> r_status r0 \<noteq> DELETED \<and> r_user_count r0 \<le> r_user_count r"
      by (intro bexI [of _ r0]) (auto split: if_splits)
  qed
qed

lemma left_db_ok:
  fixes w w1 :: "('st, 'z) app_scheme"
  assumes ok: "db_ok d0 exact cfg w d" and c: "conn_ok (w_seq w) d c"
    and was: "\<And>s. s \<in> set (sessions d) \<Longrightarrow> s_id s = s_id (c_session c) \<Longrightarrow> w_now w < s_expires_at s \<or> online (a_conns w) (s_id s)"
    and w1: "w_seq w1 = w_seq w" "w_now w1 = w_now w" "set (a_conns w1) \<subseteq> set (a_conns w)"
      "\<And>j. online (a_conns w1) j \<longleftrightarrow> online (a_conns w) j \<and> j \<noteq> s_id (c_session c)"
  shows "db_ok d0 exact cfg w1 (left_db (w_now w1) (s_id (c_session c)) (r_id (c_room c)) d)"
proof -
  let ?d = "left_db (w_now w) (s_id (c_session c)) (r_id (c_room c)) d"
  have inv: "db_inv exact cfg (w_seq w) d" and cap: "within_capacity (online (a_conns w)) (w_now w) d"
    and conns: "\<And>k. k \<in> set (a_conns w) \<Longrightarrow> conn_ok (w_seq w) d k" and ev: "rooms_evolve d0 d"
    using ok by (simp_all add: db_ok_def)
  have e: "evolved (w_seq w) d (w\<lparr>w_db := ?d\<rparr>)" by (rule left_db_evolved) simp
  have "conn_ok (w_seq w) ?d k" if "k \<in> set (a_conns w1)" for k
    using conn_ok_evolves [OF conns e] that w1(3) by auto
  moreover have "rooms_evolve d0 ?d" using rooms_evolve_trans [OF ev] e by (simp add: evolved_def)
  ultimately show ?thesis
    unfolding db_ok_def w1(1,2) using left_db_good [OF inv] left_db_capacity [OF cap inv c was w1(4)] by blast
qed

lemma db_ok_fewer:
  fixes w w1 :: "('st, 'z) app_scheme"
  assumes ok: "db_ok d0 exact cfg w d" and w1: "w_seq w1 = w_seq w" "w_now w1 = w_now w" "set (a_conns w1) \<subseteq> set (a_conns w)"
  shows "db_ok d0 exact cfg w1 d"
proof -
  have on: "online (a_conns w1) j \<Longrightarrow> online (a_conns w) j" for j using w1(3) by (auto simp: online_iff)
  have "within_capacity (online (a_conns w)) (w_now w) d" using ok by (simp add: db_ok_def)
  then have "within_capacity (online (a_conns w1)) (w_now w) d"
    by (rule within_capacity_sessions) (use on in \<open>auto simp: seated_def intro!: seats_mono\<close>)
  then show ?thesis using ok w1 by (auto simp: db_ok_def)
qed

definition may_leave :: "conn \<Rightarrow> ('st, 'z) app_scheme \<Rightarrow> bool" where
  "may_leave c w \<longleftrightarrow> conn_ok (w_seq w) (w_db w) c \<and>
     (\<forall>k \<in> set (a_conns w). s_id (c_session k) = s_id (c_session c) \<longrightarrow> r_id (c_room k) = r_id (c_room c)) \<and>
     (c \<in> set (a_conns w) \<or> c_ws c \<notin> c_ws ` set (a_conns w) \<and>
       (\<forall>s \<in> set (sessions (w_db w)). s_id s = s_id (c_session c) \<longrightarrow> w_now w < s_expires_at s))"

abbreviation others :: "conn \<Rightarrow> conn list \<Rightarrow> conn list" where
  "others c cs \<equiv> filter (\<lambda>k. c_ws k \<noteq> c_ws c) cs"

lemma links_without:
  assumes "socks_ok w" and "c \<in> set (a_conns w) \<or> c_ws c \<notin> c_ws ` set (a_conns w)"
  shows "links (remove_socket (ws_channel (c_room c)) (s_id (c_session c)) (c_ws c) (registry (a_sockets w)))
    = conn_link ` set (others c (a_conns w))"
proof -
  have dist: "distinct (map c_ws (a_conns w))" and l: "links (registry (a_sockets w)) = conn_link ` set (a_conns w)"
    using assms(1) by (simp_all add: socks_ok_def)
  have "c_ws k \<noteq> c_ws c" if "k \<in> set (a_conns w)" "conn_link k \<noteq> conn_link c" for k
    using distinct_key_unique [OF dist that(1), of c] assms(2) that by (metis imageI)
  then have "conn_link ` set (a_conns w) - {conn_link c} = conn_link ` set (others c (a_conns w))"
    by (auto simp: conn_link_def)
  then show ?thesis by (simp add: links_remove l conn_link_def)
qed

lemma socks_ok_without:
  fixes w :: "('st, 'z) app_scheme"
  assumes ok: "socks_ok w" and c: "c \<in> set (a_conns w) \<or> c_ws c \<notin> c_ws ` set (a_conns w)"
    and reg: "links (registry s) = links (remove_socket (ws_channel (c_room c)) (s_id (c_session c)) (c_ws c) (registry (a_sockets w)))"
      "registry_ok (registry s)"
  shows "socks_ok (w\<lparr>a_conns := others c (a_conns w), a_sockets := s\<rparr>)"
  using ok reg links_without [OF ok c] by (auto simp: socks_ok_def conns_agree_def intro: distinct_map_filter)

lemma connected_without:
  assumes "socks_ok w" and "c \<in> set (a_conns w) \<or> c_ws c \<notin> c_ws ` set (a_conns w)"
    and agree: "\<And>k. k \<in> set (a_conns w) \<Longrightarrow> s_id (c_session k) = s_id (c_session c) \<Longrightarrow> r_id (c_room k) = r_id (c_room c)"
  shows "connected (ws_channel (c_room c)) (s_id (c_session c))
      (remove_socket (ws_channel (c_room c)) (s_id (c_session c)) (c_ws c) (registry (a_sockets w)))
    \<longleftrightarrow> online (others c (a_conns w)) (s_id (c_session c))"
proof -
  have ch: "ws_channel (c_room k) = ws_channel (c_room c)" if "k \<in> set (others c (a_conns w))" "s_id (c_session k) = s_id (c_session c)" for k
    using agree [of k] that by (simp add: ws_channel_def)
  have "(\<exists>v. (ws_channel (c_room c), s_id (c_session c), v) \<in> conn_link ` set cs) \<longleftrightarrow>
      (\<exists>k \<in> set cs. ws_channel (c_room k) = ws_channel (c_room c) \<and> s_id (c_session k) = s_id (c_session c))" for cs
    unfolding conn_link_def image_iff by (metis prod.inject)
  with ch show ?thesis
    unfolding hub.online_iff links_without [OF assms(1,2)] online_iff by blast
qed

lemma online_without: 
  assumes "\<not> online (others c cs) (s_id (c_session c))" and dist: "distinct (map c_ws cs)"
    and mem: "c \<in> set cs \<or> c_ws c \<notin> c_ws ` set cs"
  shows "online (others c cs) j \<longleftrightarrow> online cs j \<and> j \<noteq> s_id (c_session c)"
proof -
  have "s_id (c_session k) = s_id (c_session c)" if "k \<in> set cs" "c_ws k = c_ws c" for k
    using distinct_key_unique [OF dist that(1), of c] mem that by (metis imageI)
  with assms(1) show ?thesis by (auto simp: online_iff)
qed

lemma ws_leave_sound:
  fixes w :: "('st, 'z) app_scheme"
  assumes tx: "tx d0 exact cfg w" and steady: "steady d0 exact cfg w" and socks: "socks_ok w" and c: "may_leave c w"
  shows "wp (ws_leave (c_ws c) (c_session c) (c_room c) broken) (\<lambda>_. sound d0 exact cfg) (\<lambda>_. sound d0 exact cfg) w"
proof -
  let ?sid = "s_id (c_session c)" and ?ch = "ws_channel (c_room c)" and ?cs = "others c (a_conns w)"
  let ?reg = "remove_socket ?ch ?sid (c_ws c) (registry (a_sockets w))"
  let ?w = "\<lambda>s. w\<lparr>a_conns := ?cs, a_sockets := s\<rparr>"
  have mem: "c \<in> set (a_conns w) \<or> c_ws c \<notin> c_ws ` set (a_conns w)" and ok: "conn_ok (w_seq w) (w_db w) c"
    and agree: "\<And>k. k \<in> set (a_conns w) \<Longrightarrow> s_id (c_session k) = ?sid \<Longrightarrow> r_id (c_room k) = r_id (c_room c)"
    using c by (auto simp: may_leave_def)
  have reg: "registry_ok (registry (a_sockets w))" "distinct (map c_ws (a_conns w))" using socks by (simp_all add: socks_ok_def)
  have still: "connected ?ch ?sid ?reg \<longleftrightarrow> online ?cs ?sid" by (rule connected_without [OF socks mem agree])
  have sockets: "socks_ok (?w s)" if "registry s = touch_channel ?ch ?reg \<or> registry s = touch_channel ?ch (touch_channel ?ch ?reg)" for s
    using that by (intro socks_ok_without [OF socks mem]) (auto intro!: registry_ok_touch registry_ok_remove reg(1))
  have calm: "steady d0 exact cfg (w\<lparr>a_conns := ?cs\<rparr>)"
    unfolding steady_def by (rule db_ok_fewer [where w = w]) (use steady in \<open>auto simp: steady_def\<close>)
  have left: "db_ok d0 exact cfg (?w s) (left_db (w_now w) ?sid (r_id (c_room c)) (w_db w))" if off: "\<not> online ?cs ?sid" for s
  proof -
    have "db_ok d0 exact cfg (?w s) (left_db (w_now (?w s)) ?sid (r_id (c_room c)) (w_db w))"
    proof (rule left_db_ok [OF _ ok])
      show "db_ok d0 exact cfg w (w_db w)" using tx by (simp add: tx_def)
      show "w_now w < s_expires_at t \<or> online (a_conns w) (s_id t)" if "t \<in> set (sessions (w_db w))" "s_id t = ?sid" for t
        using c that by (auto simp: may_leave_def online_iff)
      show "online (a_conns (?w s)) j \<longleftrightarrow> online (a_conns w) j \<and> j \<noteq> ?sid" for j
        using online_without [OF off reg(2) mem] by simp
    qed auto
    then show ?thesis by simp
  qed
  show ?thesis
    by (simp add: ws_leave_def Let_def drop_conn_def wp_simps left_db_wp still sound_def sockets calm left)
qed


section \<open>One turn\<close>

lemma may_leave_member: "ready d0 exact cfg v w \<Longrightarrow> socks_ok w \<Longrightarrow> c \<in> set (a_conns w) \<Longrightarrow> may_leave c w"
  unfolding may_leave_def ready_def tx_def db_ok_def socks_ok_def conns_agree_def by blast

lemma harmless_then_leave:
  fixes m :: "('st, 'z, 'a) api"
  assumes m: "harmless d0 exact cfg c m" and r: "ready d0 exact cfg w w" and socks: "socks_ok w" and c: "c \<in> set (a_conns w)"
  shows "wp (try_except m (\<lambda>e. seq (ws_leave (c_ws c) (c_session c) (c_room c) (flush_failed e)) (ret x)))
    (\<lambda>_. sound d0 exact cfg) (\<lambda>_. sound d0 exact cfg) w"
proof -
  have "wp m (\<lambda>_. ready d0 exact cfg w) (\<lambda>_. ready d0 exact cfg w) w" using m r c by (simp add: harmless_def)
  moreover have "sound d0 exact cfg t" if "ready d0 exact cfg w t" for t
    using that by (intro calm_sound [OF _ socks] ready_calm)
  moreover have "wp (ws_leave (c_ws c) (c_session c) (c_room c) b) (\<lambda>_. sound d0 exact cfg) (\<lambda>_. sound d0 exact cfg) t"
    if "ready d0 exact cfg w t" for t b
  proof (rule ws_leave_sound)
    have t: "calm d0 exact cfg w t" "socks_ok t" by (rule ready_calm [OF that], rule calm_socks [OF ready_calm [OF that] socks])
    then show "tx d0 exact cfg t" "steady d0 exact cfg t" "socks_ok t" using that by (simp_all add: ready_def calm_def)
    show "may_leave c t" using may_leave_member [OF that t(2)] c ready_conns [OF that] by simp
  qed
  ultimately show ?thesis
    unfolding wp_try wp_seq wp_ret by (auto elim!: wp_mono)
qed

lemma seq_ret_unit: "seq m (ret ()) = m"
  by (auto simp: seq_def bind_def ret_def fun_eq_iff split: prod.split sum.split)

lemma ws_receive_sound:
  fixes w :: "('st, 'z) app_scheme"
  assumes r: "ready d0 exact cfg w w" and socks: "socks_ok w"
  shows "wp (ws_receive cfg ws fr) (\<lambda>_. sound d0 exact cfg) (\<lambda>_. sound d0 exact cfg) w"
proof (cases "find (\<lambda>c. c_ws c = ws) (a_conns w)")
  case None
  then show ?thesis using calm_sound [OF ready_calm [OF r] socks] by (simp add: ws_receive_def wp_simps)
next
  case (Some c)
  then have c: "c \<in> set (a_conns w)" "c_ws c = ws" by (auto simp: find_Some_iff)
  show ?thesis
    using harmless_then_leave [OF harmless_turn r socks c(1), where x = "()"] Some c(2)
    by (simp add: ws_receive_def wp_bind wp_gets seq_ret_unit)
qed

section \<open>A new connection\<close>

lemma harmless_reads:
  "harmless d0 exact cfg c (list_confirmed_files i)" "harmless d0 exact cfg c (get_active_sessions i)"
  "harmless d0 exact cfg c (list_messages cfg' i l)" "harmless d0 exact cfg c utcnow"
  "harmless d0 exact cfg c (on_sockets (is_session_connected ch sid))"
  by (auto simp: harmless_def list_confirmed_files_def get_active_sessions_def list_messages_def list_room_messages_def
      wp_simps ready_def calm_def registry_ok_touch split: option.split)

lemma harmless_connected_only: "harmless d0 exact cfg c (connected_only ch ss)"
  by (induction ss) (auto intro!: harmless_bind simp: harmless_leaf harmless_reads)

lemma harmless_send_state: "harmless d0 exact cfg c (send_state cfg' ws s room)"
  unfolding send_state_def Let_def
  by (intro harmless_bind harmless_seq harmless_reads harmless_connected_only harmless_leaf | (split if_split; intro conjI impI))+

text \<open>What the handshake established: a live session of an active room.\<close>

definition admits :: "session_rec \<Rightarrow> room \<Rightarrow> ('st, 'z) app_scheme \<Rightarrow> bool" where
  "admits s room w \<longleftrightarrow> s \<in> set (sessions (w_db w)) \<and> w_now w < s_expires_at s \<and> room \<in> set (rooms (w_db w)) \<and>
     s_room_id s = r_id room \<and> r_status room = ACTIVE"

lemma ws_auth_wp:
  assumes "\<And>s room. admits s room w \<Longrightarrow> r_access_token_hash room = hash_token cr (wr_room_token req) \<Longrightarrow> Q (Some (s, room)) w"
    and "Q None w" and "\<And>e. E e w"
  shows "wp (ws_auth cfg cr req) Q E w"
  using assms
  by (auto simp: ws_auth_def Let_def get_by_token_hash_def get_room_by_access_token_def find_room_def wp_simps has_expired_def
      ensure_aware_def admits_def split: sum.split option.split datetime.split dest!: scalar_sel)

lemma admits_conn_ok:
  assumes inv: "db_inv exact cfg (w_seq w) (w_db w)" and a: "admits s room w"
  shows "conn_ok (w_seq w) (w_db w) \<lparr>c_ws = ws, c_session = s, c_room = room\<rparr>"
proof -
  have "s_id s < session_seq (w_seq w)" using inv a by (auto simp: db_inv_def tables_ok_def keys_ok_def admits_def)
  moreover have "t = s" if "t \<in> set (sessions (w_db w))" "s_id t = s_id s" for t
    using distinct_key_unique [OF db_invD(2) [OF inv] that(1) _ that(2)] a by (simp add: admits_def)
  ultimately show ?thesis using a by (auto simp: conn_ok_def admits_def has_session_def)
qed

lemma admits_agree:
  assumes "db_ok d0 exact cfg w (w_db w)" and a: "admits s room w" and "k \<in> set (a_conns w)" "s_id (c_session k) = s_id s"
  shows "r_id (c_room k) = r_id room"
proof -
  have "conn_ok (w_seq w) (w_db w) k" using assms(1,3) by (simp add: db_ok_def)
  then show ?thesis using a assms(4) by (auto simp: conn_ok_def admits_def)
qed

text \<open>Its connection takes no further seat.\<close>

lemma db_ok_admitted:
  fixes w w1 :: "('st, 'z) app_scheme"
  assumes ok: "db_ok d0 exact cfg w (w_db w)" and a: "admits s room w"
    and w1: "w_seq w1 = w_seq w" "w_now w1 = w_now w" "a_conns w1 = a_conns w @ [\<lparr>c_ws = ws, c_session = s, c_room = room\<rparr>]"
  shows "db_ok d0 exact cfg w1 (w_db w)"
proof -
  have inv: "db_inv exact cfg (w_seq w) (w_db w)" and cap: "within_capacity (online (a_conns w)) (w_now w) (w_db w)"
    using ok by (simp_all add: db_ok_def)
  have uniq: "t = s" if "t \<in> set (sessions (w_db w))" "s_id t = s_id s" for t
    using distinct_key_unique [OF db_invD(2) [OF inv] that(1) _ that(2)] a by (simp add: admits_def)
  have on: "online (a_conns w1) j \<longleftrightarrow> online (a_conns w) j \<or> j = s_id s" for j by (auto simp: online_iff w1(3))
  have "seats (online (a_conns w1)) (w_now w) i (w_db w) \<le> seats (online (a_conns w)) (w_now w) i (w_db w)" for i
    by (rule seats_mono) (use uniq a in \<open>auto simp: seated_def on admits_def\<close>)
  then have "within_capacity (online (a_conns w1)) (w_now w) (w_db w)" by (intro within_capacity_sessions [OF cap]) simp
  with ok admits_conn_ok [OF inv a, of ws] show ?thesis by (auto simp: db_ok_def w1)
qed

lemma conns_agree_snoc:
  assumes "conns_agree cs" and "\<And>k. k \<in> set cs \<Longrightarrow> s_id (c_session k) = s_id (c_session c) \<Longrightarrow> r_id (c_room k) = r_id (c_room c)"
  shows "conns_agree (cs @ [c])"
  unfolding conns_agree_def
proof (intro ballI impI)
  fix k k'
  assume k: "k \<in> set (cs @ [c])" "k' \<in> set (cs @ [c])" and eq: "s_id (c_session k) = s_id (c_session k')"
  show "r_id (c_room k) = r_id (c_room k')"
  proof (cases "k \<in> set cs \<and> k' \<in> set cs")
    case True
    then show ?thesis using assms(1) eq unfolding conns_agree_def by blast
  next
    case False
    then have "k = c \<or> k' = c" using k by auto
    then show ?thesis using k eq assms(2) [of k] assms(2) [of k'] by auto
  qed
qed

lemma socks_ok_admitted:
  fixes w :: "('st, 'z) app_scheme"
  assumes ok: "socks_ok w" and db: "db_ok d0 exact cfg w (w_db w)" and a: "admits s room w" and fresh: "ws \<notin> c_ws ` set (a_conns w)"
  shows "socks_ok (w\<lparr>a_sockets := (a_sockets w)\<lparr>registry := add_socket (ws_channel room) (s_id s) ws (registry (a_sockets w))\<rparr>,
      a_conns := a_conns w @ [\<lparr>c_ws = ws, c_session = s, c_room = room\<rparr>]\<rparr>)"
proof -
  have "conns_agree (a_conns w @ [\<lparr>c_ws = ws, c_session = s, c_room = room\<rparr>])"
    by (rule conns_agree_snoc) (use ok admits_agree [OF db a] in \<open>simp_all add: socks_ok_def\<close>)
  then show ?thesis using ok fresh by (simp add: socks_ok_def links_add conn_link_def registry_ok_add)
qed

lemma ws_open_sound:
  fixes w :: "('st, 'z) app_scheme"
  assumes r: "ready d0 exact cfg w w" and same: "w_db w = w_saved w" and socks: "socks_ok w" and fresh: "ws \<notin> c_ws ` set (a_conns w)"
  shows "wp (ws_open cfg cr ws req) (\<lambda>_. sound d0 exact cfg) (\<lambda>_. sound d0 exact cfg) w"
  unfolding ws_open_def wp_bind
proof (rule ws_auth_wp)
  have db: "db_ok d0 exact cfg w (w_db w)" and st: "steady d0 exact cfg w" using r by (simp_all add: ready_def tx_def calm_def)
  have snd: "sound d0 exact cfg w" by (rule calm_sound [OF ready_calm [OF r] socks])
  show "wp (case None of None \<Rightarrow> ret (Rejected 4401) | Some x \<Rightarrow> f x) (\<lambda>_. sound d0 exact cfg) (\<lambda>_. sound d0 exact cfg) w" for f
    using snd by (simp add: wp_ret)
  show "sound d0 exact cfg w" by (rule snd)
  fix s room
  assume a: "admits s room w"
  let ?c = "\<lparr>c_ws = ws, c_session = s, c_room = room\<rparr>"
  let ?w = "w\<lparr>a_sockets := (a_sockets w)\<lparr>registry := add_socket (ws_channel room) (s_id s) ws (registry (a_sockets w))\<rparr>,
      a_conns := a_conns w @ [?c]\<rparr>"
  let ?S = "\<lambda>_. sound d0 exact cfg"
  let ?greet = "seq (send_state cfg ws s room)
    (seq (on_sockets (broadcast (ws_channel room) (UserJoined (s_id s) (s_display_name s) (s_role s)) [s_id s])) (ret Opened))"
  have refused: "wp (ws_leave ws s room b) ?S ?S w" for b
  proof -
    have inv: "db_inv exact cfg (w_seq w) (w_db w)" using db by (simp add: db_ok_def)
    have "w_now w < s_expires_at t" if "t \<in> set (sessions (w_db w))" "s_id t = s_id s" for t
      using distinct_key_unique [OF db_invD(2) [OF inv] that(1) _ that(2)] a by (simp add: admits_def)
    then have "may_leave ?c w"
      using fresh admits_agree [OF db a] admits_conn_ok [OF inv a] by (simp add: may_leave_def)
    from ws_leave_sound [OF _ st socks this] r show ?thesis by (simp add: ready_def)
  qed
  have ok: "db_ok d0 exact cfg ?w (w_db w)" by (rule db_ok_admitted [OF db a]) simp_all
  then have "ready d0 exact cfg ?w ?w" by (simp add: ready_def calm_def tx_def) (simp add: steady_def same [symmetric])
  moreover have "harmless d0 exact cfg ?c ?greet" by (intro harmless_seq harmless_send_state harmless_leaf)
  ultimately have "wp (try_except ?greet (\<lambda>e. seq (ws_leave ws s room (flush_failed e)) (ret Ended))) ?S ?S ?w"
    using harmless_then_leave [of d0 exact cfg ?c ?greet ?w Ended] socks_ok_admitted [OF socks db a fresh] by simp
  with refused show "wp (case Some (s, room) of None \<Rightarrow> ret (Rejected 4401)
      | Some (s, room) \<Rightarrow> try_except
           (seq (on_sockets (connect (ws_channel room) (s_id s) ws))
           (seq (add_conn \<lparr>c_ws = ws, c_session = s, c_room = room\<rparr>)
           (seq (send_state cfg ws s room)
           (seq (on_sockets (broadcast (ws_channel room) (UserJoined (s_id s) (s_display_name s) (s_role s)) [s_id s]))
           (ret Opened)))))
           (\<lambda>e. seq (ws_leave ws s room (flush_failed e)) (ret Ended))) ?S ?S w"
    by (simp add: wp_try wp_seq wp_on_sockets wp_connect add_conn_def wp_modify wp_ret)
qed

end
