(* ===== verification/Job_Queue.thy ===== *)
theory Job_Queue
  imports Models "HOL-Library.Multiset"
begin

text \<open>
  \<open>jobs/queue.py\<close>: the retry loop of one job, and the worker pool over an \<open>asyncio.Queue\<close>.

  The pool is a state machine. One step is what runs between two \<open>await\<close>s: a client's \<open>enqueue\<close>, a
  worker's \<open>get\<close>, one attempt of a handler, the end of a backoff; \<open>Other\<close> is whatever the rest of the
  program does to the application's state. \<open>unfinished\<close> is the counter behind
  \<open>Queue.join\<close>: \<open>put_nowait\<close> adds one, \<open>task_done\<close> takes one off. The fields \<open>q_enqueued\<close>, \<open>q_taken\<close>,
  \<open>q_done\<close> and \<open>q_ended\<close> (how many sentinels were taken) record the history and are read by no
  operation.
\<close>

section \<open>Jobs\<close>

record job =
  j_id :: string
  j_type :: string
  j_payload :: json_dict
  j_max_attempts :: int
  j_attempt :: int

type_synonym 's job_handler = "json_dict \<Rightarrow> ('s, exc, unit) prog"
type_synonym 's handlers = "string \<rightharpoonup> 's job_handler"

record queue_config =
  workers_count :: nat
  max_attempts :: int
  backoff_base :: rat
  backoff_max :: rat

text \<open>\<open>a or b\<close> on optional numbers: both \<open>None\<close> and zero take the default.\<close>

definition or_num :: "'n :: zero option \<Rightarrow> 'n \<Rightarrow> 'n" where
  "or_num x d = (case x of None \<Rightarrow> d | Some n \<Rightarrow> if n \<noteq> 0 then n else d)"

definition queue_init :: "settings \<Rightarrow> nat option \<Rightarrow> int option \<Rightarrow> rat option \<Rightarrow> rat option \<Rightarrow> queue_config" where
  "queue_init cfg workers max_att base mx = \<lparr>workers_count = or_num workers (job_workers cfg),
     max_attempts = or_num max_att (job_max_attempts cfg),
     backoff_base = or_num base (job_backoff_base_seconds cfg),
     backoff_max = or_num mx (job_backoff_max_seconds cfg)\<rparr>"

definition register :: "string \<Rightarrow> 's job_handler \<Rightarrow> 's handlers \<Rightarrow> 's handlers" where
  "register job_type handler hs = hs(job_type \<mapsto> handler)"

definition make_job :: "queue_config \<Rightarrow> string \<Rightarrow> string \<Rightarrow> json_dict option \<Rightarrow> int option \<Rightarrow> job" where
  "make_job qc jid job_type payload max_att = \<lparr>j_id = jid, j_type = job_type,
     j_payload = (case payload of None \<Rightarrow> [] | Some p \<Rightarrow> p),
     j_max_attempts = or_num max_att (max_attempts qc), j_attempt = 0\<rparr>"

section \<open>The retry loop\<close>

datatype job_log = NoHandler string | FailedPermanently string string int | Retrying int rat

definition backoff :: "queue_config \<Rightarrow> int \<Rightarrow> rat" where
  "backoff qc attempt = min (backoff_base qc * 2 ^ nat (attempt - 1)) (backoff_max qc)"

text \<open>One turn of the \<open>while\<close> loop: the handler's effect, and whether the job is done, failed for
  good, or sleeps before the next attempt.\<close>

datatype attempt_result = Succeeded | GaveUp job_log | Again job_log

definition attempt_once :: "queue_config \<Rightarrow> 's job_handler \<Rightarrow> job \<Rightarrow> 's \<Rightarrow> job \<times> attempt_result \<times> 's" where
  "attempt_once qc handler job s =
     (let job' = job\<lparr>j_attempt := j_attempt job + 1\<rparr> in
      case handler (j_payload job) s of
        (Inr u, t) \<Rightarrow> (job', Succeeded, t)
      | (Inl e, t) \<Rightarrow>
          if j_attempt job' \<ge> j_max_attempts job' then (job', GaveUp (FailedPermanently (j_id job') (j_type job') (j_attempt job')), t)
          else (job', Again (Retrying (j_attempt job') (backoff qc (j_attempt job'))), t))"

function run_attempts :: "queue_config \<Rightarrow> 's job_handler \<Rightarrow> job \<Rightarrow> 's \<Rightarrow> job \<times> job_log list \<times> 's" where
  "run_attempts qc handler job s =
     (if j_attempt job < j_max_attempts job then
        (case attempt_once qc handler job s of
          (job', Succeeded, t) \<Rightarrow> (job', [], t)
        | (job', GaveUp l, t) \<Rightarrow> (job', [l], t)
        | (job', Again l, t) \<Rightarrow> (let (j, ls, u) = run_attempts qc handler job' t in (j, l # ls, u)))
      else (job, [], s))"
  by pat_completeness auto
termination
  by (relation "measure (\<lambda>(qc, h, job, s). nat (j_max_attempts job - j_attempt job))")
    (auto simp: attempt_once_def Let_def split: prod.splits sum.splits if_splits)

declare run_attempts.simps [simp del]

definition run_with_retries :: "queue_config \<Rightarrow> 's handlers \<Rightarrow> job \<Rightarrow> 's \<Rightarrow> job \<times> job_log list \<times> 's" where
  "run_with_retries qc hs job s = (case hs (j_type job) of
     None \<Rightarrow> (job, [NoHandler (j_type job)], s)
   | Some handler \<Rightarrow> run_attempts qc handler job s)"

section \<open>The pool\<close>

datatype worker = Idle | Running job | Sleeping job | Stopped

record 's pool =
  q_items :: "job option list"
  q_unfinished :: int
  q_workers :: "worker list"
  q_app :: 's
  q_enqueued :: "job list"
  q_taken :: "job list"
  q_done :: "job list"
  q_ended :: nat

definition pool_init :: "'s \<Rightarrow> 's pool" where
  "pool_init s = \<lparr>q_items = [], q_unfinished = 0, q_workers = [], q_app = s,
     q_enqueued = [], q_taken = [], q_done = [], q_ended = 0\<rparr>"

definition enqueue :: "job \<Rightarrow> 's pool \<Rightarrow> 's pool" where
  "enqueue job q = q\<lparr>q_items := q_items q @ [Some job], q_unfinished := q_unfinished q + 1,
     q_enqueued := q_enqueued q @ [job]\<rparr>"

definition start :: "queue_config \<Rightarrow> 's pool \<Rightarrow> 's pool" where
  "start qc q = (if q_workers q \<noteq> [] then q else q\<lparr>q_workers := replicate (workers_count qc) Idle\<rparr>)"

text \<open>\<open>stop\<close> first puts one sentinel per worker, and clears the list once every worker has ended.\<close>

definition stop_put :: "'s pool \<Rightarrow> 's pool" where
  "stop_put q = q\<lparr>q_items := q_items q @ replicate (length (q_workers q)) None,
     q_unfinished := q_unfinished q + int (length (q_workers q))\<rparr>"

definition stop_clear :: "'s pool \<Rightarrow> 's pool option" where
  "stop_clear q = (if list_all (\<lambda>w. w = Stopped) (q_workers q) then Some (q\<lparr>q_workers := []\<rparr>) else None)"

definition join_returns :: "'s pool \<Rightarrow> bool" where
  "join_returns q \<longleftrightarrow> q_unfinished q = 0"

text \<open>\<open>get\<close> of worker \<open>i\<close>: a sentinel ends it, without \<open>task_done\<close>.\<close>

definition worker_get :: "nat \<Rightarrow> 's pool \<Rightarrow> 's pool option" where
  "worker_get i q =
     (if i < length (q_workers q) \<and> q_workers q ! i = Idle then
        (case q_items q of
          [] \<Rightarrow> None
        | None # rest \<Rightarrow> Some (q\<lparr>q_items := rest, q_workers := (q_workers q)[i := Stopped],
                                 q_ended := q_ended q + 1\<rparr>)
        | Some job # rest \<Rightarrow> Some (q\<lparr>q_items := rest, q_workers := (q_workers q)[i := Running job],
                                     q_taken := q_taken q @ [job]\<rparr>))
      else None)"

definition task_done :: "nat \<Rightarrow> job \<Rightarrow> 's pool \<Rightarrow> 's pool" where
  "task_done i job q = q\<lparr>q_workers := (q_workers q)[i := Idle], q_unfinished := q_unfinished q - 1,
     q_done := q_done q @ [job]\<rparr>"

text \<open>Worker \<open>i\<close> runs its job up to the next \<open>await asyncio.sleep\<close> or to its end.\<close>

definition worker_run :: "queue_config \<Rightarrow> 's handlers \<Rightarrow> nat \<Rightarrow> 's pool \<Rightarrow> 's pool option" where
  "worker_run qc hs i q =
     (if i < length (q_workers q) then
        (case q_workers q ! i of
          Running job \<Rightarrow>
            (case hs (j_type job) of
              None \<Rightarrow> Some (task_done i job q)
            | Some handler \<Rightarrow>
                if j_attempt job < j_max_attempts job then
                  (case attempt_once qc handler job (q_app q) of
                    (job', Again l, t) \<Rightarrow> Some (q\<lparr>q_workers := (q_workers q)[i := Sleeping job'], q_app := t\<rparr>)
                  | (job', _, t) \<Rightarrow> Some (task_done i job' (q\<lparr>q_app := t\<rparr>)))
                else Some (task_done i job q))
        | _ \<Rightarrow> None)
      else None)"

definition worker_wake :: "nat \<Rightarrow> 's pool \<Rightarrow> 's pool option" where
  "worker_wake i q =
     (if i < length (q_workers q) then
        (case q_workers q ! i of Sleeping job \<Rightarrow> Some (q\<lparr>q_workers := (q_workers q)[i := Running job]\<rparr>) | _ \<Rightarrow> None)
      else None)"

inductive qstep :: "queue_config \<Rightarrow> 's handlers \<Rightarrow> 's pool \<Rightarrow> 's pool \<Rightarrow> bool" for qc hs where
  Enqueue: "qstep qc hs q (enqueue (make_job qc jid ty p m) q)"
| Start: "qstep qc hs q (start qc q)"
| StopPut: "qstep qc hs q (stop_put q)"
| StopClear: "stop_clear q = Some q' \<Longrightarrow> qstep qc hs q q'"
| Get: "worker_get i q = Some q' \<Longrightarrow> qstep qc hs q q'"
| Run: "worker_run qc hs i q = Some q' \<Longrightarrow> qstep qc hs q q'"
| Wake: "worker_wake i q = Some q' \<Longrightarrow> qstep qc hs q q'"
| Other: "qstep qc hs q (q\<lparr>q_app := s\<rparr>)"

inductive qreach :: "queue_config \<Rightarrow> 's handlers \<Rightarrow> 's pool \<Rightarrow> bool" for qc hs where
  Init: "qreach qc hs (pool_init s)"
| Step: "qreach qc hs q \<Longrightarrow> qstep qc hs q q' \<Longrightarrow> qreach qc hs q'"


section \<open>What the retry loop does\<close>

text \<open>The state after the handler ran \<open>n\<close> times, whatever each run returned.\<close>

fun calls :: "'s job_handler \<Rightarrow> json_dict \<Rightarrow> nat \<Rightarrow> 's \<Rightarrow> 's" where
  "calls h p 0 s = s"
| "calls h p (Suc n) s = calls h p n (snd (h p s))"

definition fails :: "'s job_handler \<Rightarrow> json_dict \<Rightarrow> 's \<Rightarrow> bool" where
  "fails h p s \<longleftrightarrow> isl (fst (h p s))"

definition retries :: "queue_config \<Rightarrow> int \<Rightarrow> nat \<Rightarrow> job_log list" where
  "retries qc a n = map (\<lambda>k. Retrying (a + int k) (backoff qc (a + int k))) [1..<n]"

lemma retries_Suc: "1 \<le> n \<Longrightarrow> retries qc a (Suc n) = Retrying (a + 1) (backoff qc (a + 1)) # retries qc (a + 1) n"
proof -
  assume n: "1 \<le> n"
  have "[1..<Suc n] = 1 # map Suc [1..<n]" using n by (simp add: upt_conv_Cons map_Suc_upt)
  then show ?thesis by (simp add: retries_def add.assoc)
qed

text \<open>The loop runs the handler \<open>n\<close> times, between once and the attempts left; all runs but the last
  failed, with one backoff after each; either the last run succeeded, or the attempts are used up.\<close>

lemma run_attempts_spec:
  assumes "run_attempts qc h job s = (j, ls, t)" and "j_attempt job < j_max_attempts job"
  shows "\<exists>n. 1 \<le> n \<and> int n \<le> j_max_attempts job - j_attempt job \<and>
    j = job\<lparr>j_attempt := j_attempt job + int n\<rparr> \<and> t = calls h (j_payload job) n s \<and>
    (\<forall>k < n - 1. fails h (j_payload job) (calls h (j_payload job) k s)) \<and>
    (if fails h (j_payload job) (calls h (j_payload job) (n - 1) s)
     then int n = j_max_attempts job - j_attempt job \<and>
       ls = retries qc (j_attempt job) n @ [FailedPermanently (j_id job) (j_type job) (j_max_attempts job)]
     else ls = retries qc (j_attempt job) n)"
  using assms
proof (induction qc h job s arbitrary: j ls t rule: run_attempts.induct)
  case (1 qc h job s)
  let ?a = "j_attempt job" and ?m = "j_max_attempts job" and ?p = "j_payload job"
  let ?job = "job\<lparr>j_attempt := ?a + 1\<rparr>"
  note run = 1(2) [unfolded run_attempts.simps [of qc h job s] if_P [OF 1(3)]]
  show ?case
  proof (cases "h ?p s")
    case (Pair r s')
    show ?thesis
    proof (cases r)
      case (Inr u)
      with Pair run have "j = ?job" "ls = []" "t = s'" by (simp_all add: attempt_once_def Let_def)
      with Pair Inr 1(3) show ?thesis by (intro exI [of _ 1]) (simp add: fails_def retries_def)
    next
      case (Inl e)
      show ?thesis
      proof (cases "?a + 1 \<ge> ?m")
        case True
        with Pair Inl run have "j = ?job" "ls = [FailedPermanently (j_id job) (j_type job) (?a + 1)]" "t = s'"
          by (simp_all add: attempt_once_def Let_def)
        moreover have "?a + 1 = ?m" using True 1(3) by simp
        ultimately show ?thesis using Pair Inl by (intro exI [of _ 1]) (simp add: fails_def retries_def)
      next
        case False
        let ?l = "Retrying (?a + 1) (backoff qc (?a + 1))"
        have once: "attempt_once qc h job s = (?job, Again ?l, s')"
          using Pair Inl False by (simp add: attempt_once_def Let_def)
        obtain ls' where rec: "run_attempts qc h ?job s' = (j, ls', t)" and ls: "ls = ?l # ls'"
          using run once by (auto split: prod.splits)
        have "j_attempt ?job < j_max_attempts ?job" using False by simp
        from 1(1) [OF 1(3) once [symmetric] refl refl rec this] obtain n where n: "1 \<le> n" "int n \<le> ?m - (?a + 1)"
          "j = ?job\<lparr>j_attempt := ?a + 1 + int n\<rparr>" "t = calls h ?p n s'"
          "\<forall>k < n - 1. fails h ?p (calls h ?p k s')"
          "if fails h ?p (calls h ?p (n - 1) s')
           then int n = ?m - (?a + 1) \<and> ls' = retries qc (?a + 1) n @ [FailedPermanently (j_id job) (j_type job) ?m]
           else ls' = retries qc (?a + 1) n" by auto
        have first: "fails h ?p s" "snd (h ?p s) = s'" using Pair Inl by (simp_all add: fails_def)
        have fail: "\<forall>k < Suc n - 1. fails h ?p (calls h ?p k s)"
        proof (intro allI impI)
          fix k assume "k < Suc n - 1"
          then show "fails h ?p (calls h ?p k s)" using n(5) first by (cases k) simp_all
        qed
        have last: "calls h ?p (Suc n - 1) s = calls h ?p (n - 1) s'" using n(1) first(2) by (cases n) simp_all
        have all: "calls h ?p (Suc n) s = calls h ?p n s'" using first(2) by simp
        have j: "j = job\<lparr>j_attempt := ?a + int (Suc n)\<rparr>" using n(3) by simp
        note rs = retries_Suc [OF n(1), of qc ?a, symmetric]
        have res: "if fails h ?p (calls h ?p (Suc n - 1) s)
          then int (Suc n) = ?m - ?a \<and> ls = retries qc ?a (Suc n) @ [FailedPermanently (j_id job) (j_type job) ?m]
          else ls = retries qc ?a (Suc n)"
          unfolding last
          using n(6) by (cases "fails h ?p (calls h ?p (n - 1) s')") (simp_all add: ls rs)
        show ?thesis
          by (rule exI [of _ "Suc n"], intro conjI fail res j) (use n(2,4) all in simp_all)
      qed
    qed
  qed
qed

definition slept :: "job_log \<Rightarrow> rat" where
  "slept l = (case l of Retrying a d \<Rightarrow> d | _ \<Rightarrow> 0)"

lemma backoff_le: "backoff qc a \<le> backoff_max qc"
  by (simp add: backoff_def)

lemma backoff_mono:
  assumes "0 \<le> backoff_base qc" and "a \<le> b"
  shows "backoff qc a \<le> backoff qc b"
proof -
  have "nat (a - 1) \<le> nat (b - 1)" using assms(2) by simp
  then have "(2 :: rat) ^ nat (a - 1) \<le> 2 ^ nat (b - 1)" by (intro power_increasing) simp_all
  then have "backoff_base qc * 2 ^ nat (a - 1) \<le> backoff_base qc * 2 ^ nat (b - 1)"
    using assms(1) by (intro mult_left_mono)
  then show ?thesis by (auto simp: backoff_def min_def)
qed

lemma slept_retries: "sum_list (map slept (retries qc a n)) \<le> of_nat (n - 1) * backoff_max qc"
proof -
  have "sum_list (map slept (retries qc a n)) = sum_list (map (\<lambda>k. backoff qc (a + int k)) [1..<n])"
    by (simp add: retries_def slept_def comp_def)
  also have "\<dots> \<le> sum_list (map (\<lambda>k. backoff_max qc) [1..<n])"
    by (intro sum_list_mono backoff_le)
  also have "\<dots> = of_nat (n - 1) * backoff_max qc" by (simp only: sum_list_triv length_upt)
  finally show ?thesis .
qed


section \<open>Invariants of the pool\<close>

definition worker_jobs :: "worker \<Rightarrow> job list" where
  "worker_jobs w = (case w of Running j \<Rightarrow> [j] | Sleeping j \<Rightarrow> [j] | _ \<Rightarrow> [])"

lemma worker_jobs_simps [simp]:
  "worker_jobs (Running j) = [j]" "worker_jobs (Sleeping j) = [j]" "worker_jobs Idle = []" "worker_jobs Stopped = []"
  by (simp_all add: worker_jobs_def)

definition busy_jobs :: "'s pool \<Rightarrow> job list" where
  "busy_jobs q = concat (map worker_jobs (q_workers q))"

definition queued_jobs :: "'s pool \<Rightarrow> job list" where
  "queued_jobs q = concat (map (\<lambda>x. case x of None \<Rightarrow> [] | Some j \<Rightarrow> [j]) (q_items q))"

text \<open>A job without its attempt counter: what stays the same while it is retried.\<close>

definition fresh_job :: "job \<Rightarrow> job" where
  "fresh_job j = j\<lparr>j_attempt := 0\<rparr>"

lemma fresh_job_attempt [simp]: "fresh_job (j\<lparr>j_attempt := n\<rparr>) = fresh_job j"
  by (simp add: fresh_job_def)

lemma fresh_attempt_once: "attempt_once qc h j s = (j', r, t) \<Longrightarrow> fresh_job j' = fresh_job j \<and>
    j_attempt j' = j_attempt j + 1 \<and> j_max_attempts j' = j_max_attempts j"
  by (auto simp: attempt_once_def Let_def split: prod.splits sum.splits if_splits)

lemma mset_update_jobs:
  assumes "i < length ws"
  shows "mset (concat (map worker_jobs (ws[i := w]))) + mset (worker_jobs (ws ! i)) = mset (concat (map worker_jobs ws)) + mset (worker_jobs w)"
  using assms
proof (induction ws arbitrary: i)
  case (Cons x ws)
  then show ?case by (cases i) (auto simp: ac_simps)
qed simp

text \<open>Jobs are taken in the order they were put; no job is lost or run twice; the counter of
  \<open>join\<close> is what waits, what runs and the sentinels already taken; no job is attempted more often
  than it may be.\<close>

definition pool_inv :: "'s pool \<Rightarrow> bool" where
  "pool_inv q \<longleftrightarrow> q_enqueued q = q_taken q @ queued_jobs q \<and>
     mset (map fresh_job (q_taken q)) = mset (map fresh_job (q_done q)) + mset (map fresh_job (busy_jobs q)) \<and>
     q_unfinished q = int (length (q_items q)) + int (length (busy_jobs q)) + int (q_ended q) \<and>
     (\<forall>j \<in> set (q_done q) \<union> set (busy_jobs q) \<union> set (queued_jobs q). 0 \<le> j_attempt j \<and> j_attempt j \<le> max 0 (j_max_attempts j))"

lemma pool_inv_init: "pool_inv (pool_init s)"
  by (simp add: pool_inv_def pool_init_def busy_jobs_def queued_jobs_def)

lemma pool_inv_enqueue: "pool_inv q \<Longrightarrow> pool_inv (enqueue (make_job qc jid ty p m) q)"
  by (auto simp: pool_inv_def enqueue_def busy_jobs_def queued_jobs_def make_job_def)

lemma busy_replicate_Idle [simp]: "concat (map worker_jobs (replicate n Idle)) = []"
  by (induction n) auto

lemma queued_replicate_None [simp]:
  "concat (map (\<lambda>x. case x of None \<Rightarrow> [] | Some j \<Rightarrow> [j]) (replicate n None)) = []"
  by (induction n) auto

lemma pool_inv_start: "pool_inv q \<Longrightarrow> pool_inv (start qc q)"
  by (auto simp: pool_inv_def start_def busy_jobs_def queued_jobs_def)

lemma pool_inv_stop_put: "pool_inv q \<Longrightarrow> pool_inv (stop_put q)"
  by (auto simp: pool_inv_def stop_put_def busy_jobs_def queued_jobs_def)

lemma pool_inv_stop_clear: "pool_inv q \<Longrightarrow> stop_clear q = Some q' \<Longrightarrow> pool_inv q'"
proof -
  have "list_all (\<lambda>w. w = Stopped) ws \<Longrightarrow> concat (map worker_jobs ws) = []" for ws
    by (induction ws) auto
  then show "pool_inv q \<Longrightarrow> stop_clear q = Some q' \<Longrightarrow> pool_inv q'"
    by (auto simp: pool_inv_def stop_clear_def busy_jobs_def queued_jobs_def split: if_splits)
qed

lemma busy_upd:
  assumes "i < length (q_workers q)"
  shows "mset (map f (concat (map worker_jobs ((q_workers q)[i := w])))) + mset (map f (worker_jobs (q_workers q ! i)))
      = mset (map f (busy_jobs q)) + mset (map f (worker_jobs w))"
    and "length (concat (map worker_jobs ((q_workers q)[i := w]))) + length (worker_jobs (q_workers q ! i))
      = length (busy_jobs q) + length (worker_jobs w)"
    and "set (concat (map worker_jobs ((q_workers q)[i := w]))) \<subseteq> set (busy_jobs q) \<union> set (worker_jobs w)"
proof -
  note m = mset_update_jobs [OF assms, of w, folded busy_jobs_def]
  show "mset (map f (concat (map worker_jobs ((q_workers q)[i := w])))) + mset (map f (worker_jobs (q_workers q ! i)))
      = mset (map f (busy_jobs q)) + mset (map f (worker_jobs w))"
    using arg_cong [OF m, of "image_mset f"] by (simp add: mset_map)
  show "length (concat (map worker_jobs ((q_workers q)[i := w]))) + length (worker_jobs (q_workers q ! i))
      = length (busy_jobs q) + length (worker_jobs w)"
    using arg_cong [OF m, of size] by simp
  have "set (concat (map worker_jobs ((q_workers q)[i := w]))) \<subseteq> set_mset (mset (busy_jobs q) + mset (worker_jobs w))"
    unfolding m [symmetric] by simp
  then show "set (concat (map worker_jobs ((q_workers q)[i := w]))) \<subseteq> set (busy_jobs q) \<union> set (worker_jobs w)" by simp
qed


lemma pool_inv_get:
  assumes inv: "pool_inv q" and get: "worker_get i q = Some q'"
  shows "pool_inv q'"
proof -
  from get have i: "i < length (q_workers q)" "q_workers q ! i = Idle" by (auto simp: worker_get_def split: if_splits)
  obtain x rest where items: "q_items q = x # rest" using get i by (auto simp: worker_get_def split: list.splits)
  show ?thesis
  proof (cases x)
    case None
    have "q' = q\<lparr>q_items := rest, q_workers := (q_workers q)[i := Stopped], q_ended := q_ended q + 1\<rparr>"
      using get i items None by (simp add: worker_get_def)
    with inv items None busy_upd [OF i(1), where w = Stopped] busy_upd(1) [OF i(1), where w = Stopped and f = fresh_job] show ?thesis
      by (auto simp: pool_inv_def queued_jobs_def busy_jobs_def i)
  next
    case (Some job)
    have "q' = q\<lparr>q_items := rest, q_workers := (q_workers q)[i := Running job], q_taken := q_taken q @ [job]\<rparr>"
      using get i items Some by (simp add: worker_get_def)
    with inv items Some busy_upd [OF i(1), where w = "Running job"] busy_upd(1) [OF i(1), where w = "Running job" and f = fresh_job]
    show ?thesis by (auto simp: pool_inv_def queued_jobs_def busy_jobs_def i)
  qed
qed

lemma pool_inv_task_done:
  assumes inv: "pool_inv q" and i: "i < length (q_workers q)" "q_workers q ! i = Running job"
    and j: "fresh_job job' = fresh_job job" "0 \<le> j_attempt job'" "j_attempt job' \<le> max 0 (j_max_attempts job')"
  shows "pool_inv (task_done i job' q)"
proof -
  have "mset (map fresh_job (concat (map worker_jobs ((q_workers q)[i := Idle])))) + {#fresh_job job'#} = mset (map fresh_job (busy_jobs q))"
    using busy_upd(1) [OF i(1), where w = Idle and f = fresh_job] i(2) j(1) by simp
  moreover have "length (concat (map worker_jobs ((q_workers q)[i := Idle]))) + 1 = length (busy_jobs q)"
    using busy_upd(2) [OF i(1), where w = Idle] i(2) by simp
  ultimately show ?thesis
    using inv j(2,3) busy_upd(3) [OF i(1), where w = Idle]
    by (auto simp: pool_inv_def task_done_def queued_jobs_def busy_jobs_def)
qed

lemma pool_inv_app [simp]: "pool_inv (q\<lparr>q_app := s\<rparr>) = pool_inv q"
  by (simp add: pool_inv_def busy_jobs_def queued_jobs_def)

lemma pool_inv_replace:
  assumes inv: "pool_inv q" and i: "i < length (q_workers q)" "worker_jobs (q_workers q ! i) = [job]"
    and w: "worker_jobs w = [job']" "fresh_job job' = fresh_job job" "0 \<le> j_attempt job'" "j_attempt job' \<le> max 0 (j_max_attempts job')"
  shows "pool_inv (q\<lparr>q_workers := (q_workers q)[i := w]\<rparr>)"
proof -
  have "mset (map fresh_job (concat (map worker_jobs ((q_workers q)[i := w])))) = mset (map fresh_job (busy_jobs q))"
    using busy_upd(1) [OF i(1), where w = w and f = fresh_job] i(2) w(1,2) by simp
  moreover have "length (concat (map worker_jobs ((q_workers q)[i := w]))) = length (busy_jobs q)"
    using busy_upd(2) [OF i(1), where w = w] i(2) w(1) by simp
  ultimately show ?thesis
    using inv w busy_upd(3) [OF i(1), where w = w]
    by (auto simp: pool_inv_def queued_jobs_def busy_jobs_def)
qed

lemma busy_member: "i < length (q_workers q) \<Longrightarrow> worker_jobs (q_workers q ! i) = [job] \<Longrightarrow> job \<in> set (busy_jobs q)"
  unfolding busy_jobs_def by (metis UN_I list.set_intros(1) nth_mem set_concat set_map image_eqI)

lemma pool_inv_run:
  assumes inv: "pool_inv q" and run: "worker_run qc hs i q = Some q'"
  shows "pool_inv q'"
proof -
  from run obtain job where i: "i < length (q_workers q)" "q_workers q ! i = Running job"
    by (auto simp: worker_run_def split: if_splits worker.splits)
  have job: "0 \<le> j_attempt job" "j_attempt job \<le> max 0 (j_max_attempts job)"
    using inv busy_member [OF i(1), of job] i(2) by (auto simp: pool_inv_def)
  show ?thesis
  proof (cases "\<exists>h. hs (j_type job) = Some h \<and> j_attempt job < j_max_attempts job")
    case False
    then have "q' = task_done i job q" using run i by (auto simp: worker_run_def split: option.splits if_splits)
    with pool_inv_task_done [OF inv i refl job] show ?thesis by simp
  next
    case True
    then obtain h where h: "hs (j_type job) = Some h" "j_attempt job < j_max_attempts job" by blast
    obtain job' r t where once: "attempt_once qc h job (q_app q) = (job', r, t)" by (metis prod_cases3)
    note f = fresh_attempt_once [OF once]
    have att: "0 \<le> j_attempt job'" "j_attempt job' \<le> max 0 (j_max_attempts job')" using f job h(2) by auto
    show ?thesis
    proof (cases r)
      case (Again l)
      then have "q' = (q\<lparr>q_workers := (q_workers q)[i := Sleeping job']\<rparr>)\<lparr>q_app := t\<rparr>"
        using run i h once by (simp add: worker_run_def)
      with pool_inv_replace [OF inv i(1), of job "Sleeping job'" job'] f att i(2) show ?thesis by simp
    next
      case Succeeded
      then have "q' = task_done i job' (q\<lparr>q_app := t\<rparr>)" using run i h once by (simp add: worker_run_def)
      moreover have "pool_inv (q\<lparr>q_app := t\<rparr>)" using inv by simp
      ultimately show ?thesis using pool_inv_task_done [of "q\<lparr>q_app := t\<rparr>" i job job'] f att i by simp
    next
      case (GaveUp l)
      then have "q' = task_done i job' (q\<lparr>q_app := t\<rparr>)" using run i h once by (simp add: worker_run_def)
      moreover have "pool_inv (q\<lparr>q_app := t\<rparr>)" using inv by simp
      ultimately show ?thesis using pool_inv_task_done [of "q\<lparr>q_app := t\<rparr>" i job job'] f att i by simp
    qed
  qed
qed

lemma pool_inv_wake: "pool_inv q \<Longrightarrow> worker_wake i q = Some q' \<Longrightarrow> pool_inv q'"
proof -
  assume inv: "pool_inv q" and wake: "worker_wake i q = Some q'"
  from wake obtain job where i: "i < length (q_workers q)" "q_workers q ! i = Sleeping job"
    and q': "q' = q\<lparr>q_workers := (q_workers q)[i := Running job]\<rparr>"
    by (auto simp: worker_wake_def split: if_splits worker.splits)
  have "0 \<le> j_attempt job" "j_attempt job \<le> max 0 (j_max_attempts job)"
    using inv busy_member [OF i(1), of job] i(2) by (auto simp: pool_inv_def)
  then show "pool_inv q'" unfolding q' using pool_inv_replace [OF inv i(1), of job "Running job" job] i(2) by simp
qed

inductive_cases qstepE: "qstep qc hs q q'"

lemma pool_inv_step:
  assumes "pool_inv q" and "qstep qc hs q q'"
  shows "pool_inv q'"
  using assms(2,1)
proof (cases rule: qstep.cases)
  case (Other s)
  with assms(1) show ?thesis by simp
qed (blast intro: pool_inv_enqueue pool_inv_start pool_inv_stop_put pool_inv_stop_clear
      pool_inv_get pool_inv_run pool_inv_wake)+

lemma pool_inv_reach: "qreach qc hs q \<Longrightarrow> pool_inv q"
  by (induction rule: qreach.induct) (auto intro: pool_inv_init pool_inv_step)

text \<open>Once a sentinel has been taken, the counter stays above zero.\<close>

lemma ended_ops [simp]:
  "q_ended (enqueue j q) = q_ended q" "q_ended (start qc q) = q_ended q" "q_ended (stop_put q) = q_ended q"
  "q_ended (task_done i j q) = q_ended q"
  by (simp_all add: enqueue_def start_def stop_put_def task_done_def)

lemma ended_get: "worker_get i q = Some q' \<Longrightarrow> q_ended q \<le> q_ended q'"
  by (auto simp: worker_get_def split: if_splits list.splits option.splits)

lemma ended_clear: "stop_clear q = Some q' \<Longrightarrow> q_ended q' = q_ended q"
  by (auto simp: stop_clear_def split: if_splits)

lemma ended_wake: "worker_wake i q = Some q' \<Longrightarrow> q_ended q' = q_ended q"
  by (auto simp: worker_wake_def split: if_splits worker.splits)

lemma ended_run: "worker_run qc hs i q = Some q' \<Longrightarrow> q_ended q' = q_ended q"
  unfolding worker_run_def by (auto split: if_splits worker.splits option.splits prod.splits attempt_result.splits)

lemma ended_mono: "qstep qc hs q q' \<Longrightarrow> q_ended q \<le> q_ended q'"
  by (erule qstepE) (auto dest: ended_get ended_clear ended_wake ended_run)


section \<open>The workers drain the queue\<close>

inductive wstep :: "queue_config \<Rightarrow> 's handlers \<Rightarrow> 's pool \<Rightarrow> 's pool \<Rightarrow> bool" for qc hs where
  WGet: "worker_get i q = Some q' \<Longrightarrow> wstep qc hs q q'"
| WRun: "worker_run qc hs i q = Some q' \<Longrightarrow> wstep qc hs q q'"
| WWake: "worker_wake i q = Some q' \<Longrightarrow> wstep qc hs q q'"

text \<open>Upper bounds on the steps a worker or an entry of the queue can still cause.\<close>

definition job_load :: "job \<Rightarrow> nat" where
  "job_load j = 2 * nat (j_max_attempts j - j_attempt j)"

fun worker_load :: "worker \<Rightarrow> nat" where
  "worker_load (Running j) = job_load j + 1"
| "worker_load (Sleeping j) = job_load j + 2"
| "worker_load Idle = 0"
| "worker_load Stopped = 0"

fun item_load :: "job option \<Rightarrow> nat" where
  "item_load None = 1"
| "item_load (Some j) = job_load j + 2"

definition load :: "'s pool \<Rightarrow> nat" where
  "load q = sum_list (map item_load (q_items q)) + sum_list (map worker_load (q_workers q))"

lemma sum_list_update:
  fixes f :: "'a \<Rightarrow> nat"
  shows "i < length xs \<Longrightarrow> sum_list (map f (xs[i := x])) + f (xs ! i) = sum_list (map f xs) + f x"
proof (induction xs arbitrary: i)
  case (Cons y ys)
  then show ?case by (cases i) auto
qed simp

lemma load_get:
  assumes "worker_get i q = Some q'"
  shows "load q' < load q"
proof -
  have i: "i < length (q_workers q)" "q_workers q ! i = Idle" using assms by (auto simp: worker_get_def split: if_splits)
  note upd = sum_list_update [OF i(1), of worker_load]
  show ?thesis
    using assms i upd [of Stopped] upd [of "Running j" for j]
    by (auto simp: worker_get_def load_def split: list.splits option.splits)
qed

lemma load_task_done:
  assumes "i < length (q_workers q)" "q_workers q ! i = Running job"
  shows "load (task_done i j q) < load q"
  using sum_list_update [OF assms(1), of worker_load Idle] assms(2) by (simp add: task_done_def load_def)

lemma load_run:
  assumes run: "worker_run qc hs i q = Some q'"
  shows "load q' < load q"
proof -
  from run obtain job where i: "i < length (q_workers q)" "q_workers q ! i = Running job"
    by (auto simp: worker_run_def split: if_splits worker.splits)
  have td: "load (task_done i j (q\<lparr>q_app := t\<rparr>)) < load q" for j t
    using load_task_done [of i "q\<lparr>q_app := t\<rparr>" job j] i by (simp add: load_def)
  show ?thesis
  proof (cases "\<exists>h. hs (j_type job) = Some h \<and> j_attempt job < j_max_attempts job")
    case False
    then have "q' = task_done i job q" using run i by (auto simp: worker_run_def split: option.splits if_splits)
    with load_task_done [OF i] show ?thesis by simp
  next
    case True
    then obtain h where h: "hs (j_type job) = Some h" "j_attempt job < j_max_attempts job" by blast
    obtain job' r t where once: "attempt_once qc h job (q_app q) = (job', r, t)" by (metis prod_cases3)
    have "job_load job' + 2 = job_load job"
      using fresh_attempt_once [OF once] h(2) by (simp add: job_load_def)
    then have "load (q\<lparr>q_workers := (q_workers q)[i := Sleeping job'], q_app := t\<rparr>) < load q"
      using sum_list_update [OF i(1), of worker_load "Sleeping job'"] i(2) by (simp add: load_def)
    with run i h once td show ?thesis by (cases r) (auto simp: worker_run_def)
  qed
qed

lemma load_wake:
  assumes wake: "worker_wake i q = Some q'"
  shows "load q' < load q"
proof -
  from wake obtain job where "i < length (q_workers q)" "q_workers q ! i = Sleeping job"
    and "q' = q\<lparr>q_workers := (q_workers q)[i := Running job]\<rparr>"
    by (auto simp: worker_wake_def split: if_splits worker.splits)
  with sum_list_update [of i "q_workers q" worker_load "Running job"] show ?thesis by (simp add: load_def)
qed

lemma load_wstep: "wstep qc hs q q' \<Longrightarrow> load q' < load q"
  by (erule wstep.cases) (auto dest: load_get load_run load_wake)

lemma wstep_bound: "(wstep qc hs ^^ n) q q' \<Longrightarrow> n + load q' \<le> load q"
proof (induction n arbitrary: q')
  case (Suc n)
  then obtain p where "(wstep qc hs ^^ n) q p" "wstep qc hs p q'" by auto
  with Suc.IH [of p] load_wstep [of qc hs p q'] show ?case by simp
qed simp

lemma wstep_enabled:
  assumes "w \<in> set (q_workers q)" and "w \<noteq> Stopped" and "w \<noteq> Idle \<or> q_items q \<noteq> []"
  shows "\<exists>q'. wstep qc hs q q'"
proof -
  from assms(1) obtain i where i: "i < length (q_workers q)" "q_workers q ! i = w" by (auto simp: in_set_conv_nth)
  show ?thesis
  proof (cases w)
    case Idle
    with assms(3) obtain x rest where "q_items q = x # rest" by (cases "q_items q") auto
    with i Idle have "\<exists>q'. worker_get i q = Some q'" by (auto simp: worker_get_def split: option.split)
    then show ?thesis by (blast intro: WGet)
  next
    case (Running job)
    have "\<exists>q'. worker_run qc hs i q = Some q'"
      using i Running by (auto simp: worker_run_def split: option.split prod.split attempt_result.split)
    then show ?thesis by (blast intro: WRun)
  next
    case (Sleeping job)
    with i have "\<exists>q'. worker_wake i q = Some q'" by (simp add: worker_wake_def)
    then show ?thesis by (blast intro: WWake)
  qed (use assms(2) in simp)
qed

text \<open>When the workers cannot move and one of them has not ended, everything has been worked off.\<close>

lemma wstep_stuck:
  assumes "\<And>q'. \<not> wstep qc hs q q'" and "w \<in> set (q_workers q)" and "w \<noteq> Stopped"
  shows "q_items q = [] \<and> busy_jobs q = []"
proof -
  have "q_items q = []" "w = Idle" using wstep_enabled [OF assms(2,3)] assms(1) by blast+
  moreover have "worker_jobs v = []" if "v \<in> set (q_workers q)" for v
    using wstep_enabled [OF that] assms(1) by (cases v) fastforce+
  ultimately show ?thesis by (auto simp: busy_jobs_def)
qed

end
