(* ===== verification/Job_Handlers.thy ===== *)
theory Job_Handlers
  imports Api_Uploads Job_Queue
begin

text \<open>
  \<open>jobs/handlers.py\<close>, \<open>cleanup/scheduler.py\<close> and the life of the background workers (\<open>main.py\<close>).

  A handler gets the payload of its job, opens a database session of its own and commits in it. The
  scheduler only looks: it turns what it finds into jobs. The queue hands them to the handlers
  (\<open>Job_Queue\<close>); here \<open>a_jobs\<close> records what was enqueued, oldest first.
\<close>

section \<open>Payloads\<close>

definition payload_get :: "json_dict \<Rightarrow> string \<Rightarrow> json" where
  "payload_get payload key = (case map_of payload key of None \<Rightarrow> JNull | Some v \<Rightarrow> v)"

text \<open>A value bound to an integer column.\<close>

definition bind_int :: "json \<Rightarrow> exc + int" where
  "bind_int v = (case v of JInt n \<Rightarrow> Inr n | _ \<Rightarrow> Inl (Py DataError))"

definition json_str :: "json \<Rightarrow> string" where
  "json_str v = (case v of JNull \<Rightarrow> ''None'' | JInt n \<Rightarrow> str_int n | JStr s \<Rightarrow> s)"

definition json_truthy :: "json \<Rightarrow> bool" where
  "json_truthy v = (case v of JNull \<Rightarrow> False | JInt n \<Rightarrow> n \<noteq> 0 | JStr s \<Rightarrow> s \<noteq> [])"

text \<open>A storage key that is not a string makes the backend raise.\<close>

definition storage_delete :: "'st storage_backend \<Rightarrow> json \<Rightarrow> ('st, 'z, unit) action" where
  "storage_delete bk v = (case v of JStr k \<Rightarrow> on_store (delete_object bk k) | _ \<Rightarrow> raise (Py TypeError))"

section \<open>Handlers\<close>

definition run_room_cleanup :: "'st storage_backend \<Rightarrow> json_dict \<Rightarrow> ('st, 'z, unit) api" where
  "run_room_cleanup bk payload =
     (let room_id = payload_get payload ''room_id'' in
      if room_id = JNull then ret ()
      else with_session
        (bind (of_sum (bind_int room_id)) (\<lambda>i.
         bind (get_room_by_id i) (\<lambda>found. case found of
           None \<Rightarrow> ret ()
         | Some room \<Rightarrow>
             if r_status room = DELETED then ret ()
             else bind (cleanup_room bk room) (\<lambda>changed.
               seq commit
               (if changed then on_sockets (broadcast (ws_channel room) RoomExpiredEvent []) else ret ()))))))"

definition delete_file_object :: "'st storage_backend \<Rightarrow> json_dict \<Rightarrow> ('st, 'z, unit) api" where
  "delete_file_object bk payload =
     (let storage_key = payload_get payload ''storage_key'' in
      if json_truthy storage_key then storage_delete bk storage_key else ret ())"

definition expire_upload_session :: "'st storage_backend \<Rightarrow> json_dict \<Rightarrow> ('st, 'z, unit) api" where
  "expire_upload_session bk payload =
     (let file_id = payload_get payload ''file_id'' in
      if file_id = JNull then ret ()
      else with_session
        (bind (of_sum (bind_int file_id)) (\<lambda>i.
         bind (get_file_by_id i) (\<lambda>found. case found of
           None \<Rightarrow> ret ()
         | Some rec \<Rightarrow>
             if f_status rec \<noteq> PENDING then ret ()
             else bind (cleanup_upload_parts bk rec) (\<lambda>_.
               seq (on_store (delete_object bk (f_storage_key rec)))
               (seq (exec (del_files (\<lambda>f. f_id f = f_id rec)))
               commit))))))"

definition send_room_expiration_event :: "json_dict \<Rightarrow> ('st, 'z, unit) api" where
  "send_room_expiration_event payload =
     (let room_id = payload_get payload ''room_id'' in
      if room_id \<noteq> JNull then on_sockets (broadcast (''room:'' @ json_str room_id) RoomExpiredEvent []) else ret ())"

definition cleanup_orphaned_object :: "'st storage_backend \<Rightarrow> json_dict \<Rightarrow> ('st, 'z, unit) api" where
  "cleanup_orphaned_object bk payload =
     (let storage_key = payload_get payload ''storage_key'' in
      if json_truthy storage_key then storage_delete bk storage_key else ret ())"

text \<open>The call of \<open>create_audit_event\<close> is not awaited: its coroutine never runs, and the commit that
  follows has nothing to commit.\<close>

definition generate_audit_event :: "json_dict \<Rightarrow> ('st, 'z, unit) api" where
  "generate_audit_event payload = with_session commit"

definition JOB_ROOM_CLEANUP :: string where "JOB_ROOM_CLEANUP = ''ROOM_CLEANUP''"
definition JOB_DELETE_FILE_OBJECT :: string where "JOB_DELETE_FILE_OBJECT = ''DELETE_FILE_OBJECT''"
definition JOB_EXPIRE_UPLOAD_SESSION :: string where "JOB_EXPIRE_UPLOAD_SESSION = ''EXPIRE_UPLOAD_SESSION''"
definition JOB_SEND_ROOM_EXPIRATION_EVENT :: string where "JOB_SEND_ROOM_EXPIRATION_EVENT = ''SEND_ROOM_EXPIRATION_EVENT''"
definition JOB_CLEANUP_ORPHANED_OBJECT :: string where "JOB_CLEANUP_ORPHANED_OBJECT = ''CLEANUP_ORPHANED_OBJECT''"
definition JOB_GENERATE_AUDIT_EVENT :: string where "JOB_GENERATE_AUDIT_EVENT = ''GENERATE_AUDIT_EVENT''"

lemmas job_types = JOB_ROOM_CLEANUP_def JOB_DELETE_FILE_OBJECT_def JOB_EXPIRE_UPLOAD_SESSION_def
  JOB_SEND_ROOM_EXPIRATION_EVENT_def JOB_CLEANUP_ORPHANED_OBJECT_def JOB_GENERATE_AUDIT_EVENT_def

definition register_default_handlers ::
  "'st storage_backend \<Rightarrow> (('st, 'z) app_scheme) handlers \<Rightarrow> (('st, 'z) app_scheme) handlers" where
  "register_default_handlers bk hs0 =
     (let hs1 = register JOB_ROOM_CLEANUP (run_room_cleanup bk) hs0;
          hs2 = register JOB_DELETE_FILE_OBJECT (delete_file_object bk) hs1;
          hs3 = register JOB_EXPIRE_UPLOAD_SESSION (expire_upload_session bk) hs2;
          hs4 = register JOB_SEND_ROOM_EXPIRATION_EVENT send_room_expiration_event hs3;
          hs5 = register JOB_CLEANUP_ORPHANED_OBJECT (cleanup_orphaned_object bk) hs4
      in register JOB_GENERATE_AUDIT_EVENT generate_audit_event hs5)"

section \<open>The scheduler\<close>

definition enqueue_job :: "string \<Rightarrow> json_dict \<Rightarrow> ('st, 'z, unit) api" where
  "enqueue_job job_type payload = modify (\<lambda>w. w\<lparr>a_jobs := a_jobs w @ [(job_type, payload)]\<rparr>)"

definition scan_database :: "'st storage_backend \<Rightarrow> ('st, 'z, string list) api" where
  "scan_database bk =
     bind utcnow (\<lambda>now.
     bind list_rooms_pending_cleanup (\<lambda>expired.
     seq (for_each expired (\<lambda>room. enqueue_job JOB_ROOM_CLEANUP [(''room_id'', JInt (r_id room))]))
     (bind list_deleted_records (\<lambda>deleted.
      seq (for_each deleted (\<lambda>rec.
        bind (gets (\<lambda>w. object_exists bk (f_storage_key rec) (w_store w))) (\<lambda>there.
        if there then enqueue_job JOB_DELETE_FILE_OBJECT [(''storage_key'', JStr (f_storage_key rec))] else ret ())))
      (bind (list_stale_pending (now - hours 24)) (\<lambda>stale.
       seq (for_each stale (\<lambda>rec. enqueue_job JOB_EXPIRE_UPLOAD_SESSION [(''file_id'', JInt (f_id rec))]))
       list_all_storage_keys))))))"

definition orphans :: "settings \<Rightarrow> string list \<Rightarrow> string list \<Rightarrow> string list" where
  "orphans cfg keys known = take (job_orphan_sweep_limit cfg) (sort (remdups (filter (\<lambda>k. k \<notin> set known) keys)))"

text \<open>Queries and the two read operations of the store always answer here (the backends catch their own
  exceptions there), so the \<open>except\<close> branch, which logs and returns, is only taken by a failing
  connection to the database, which is not modelled.\<close>

definition scan_once :: "settings \<Rightarrow> 'st storage_backend \<Rightarrow> ('st, 'z, unit) api" where
  "scan_once cfg bk =
     try_except
       (bind (with_session (scan_database bk)) (\<lambda>known.
        bind (gets (\<lambda>w. list_keys bk [] (w_store w))) (\<lambda>keys.
        for_each (orphans cfg keys known) (\<lambda>key. enqueue_job JOB_CLEANUP_ORPHANED_OBJECT [(''storage_key'', JStr key)]))))
       (\<lambda>_. ret ())"

text \<open>The background task: whether it exists, and whether it was asked to stop.\<close>

record scheduler =
  sc_task :: bool
  sc_stop :: bool

definition scheduler_init :: scheduler where
  "scheduler_init = \<lparr>sc_task = False, sc_stop = False\<rparr>"

definition scheduler_start :: "scheduler \<Rightarrow> scheduler" where
  "scheduler_start sc = (if sc_task sc then sc else sc\<lparr>sc_stop := False, sc_task := True\<rparr>)"

definition scheduler_stop :: "scheduler \<Rightarrow> scheduler" where
  "scheduler_stop sc = sc\<lparr>sc_stop := True, sc_task := False\<rparr>"

text \<open>One turn of the loop of \<open>run\<close>; the result says whether it goes round again.\<close>

definition scheduler_turn :: "settings \<Rightarrow> 'st storage_backend \<Rightarrow> scheduler \<Rightarrow> ('st, 'z, bool) api" where
  "scheduler_turn cfg bk sc =
     (if sc_stop sc then ret False else seq (try_except (scan_once cfg bk) (\<lambda>_. ret ())) (ret True))"

text \<open>The lifespan of the application, around what it serves.\<close>

definition lifespan_startup ::
  "settings \<Rightarrow> 'st storage_backend \<Rightarrow> queue_config \<Rightarrow> (('st, 'z) app_scheme) handlers \<times> ('st, 'z) app_scheme pool \<times> scheduler
   \<Rightarrow> (('st, 'z) app_scheme) handlers \<times> ('st, 'z) app_scheme pool \<times> scheduler" where
  "lifespan_startup cfg bk qc state = (case state of (hs, q, sc) \<Rightarrow>
     let hs' = register_default_handlers bk hs in
     if environment cfg \<noteq> ''test'' then (hs', start qc q, scheduler_start sc) else (hs', q, sc))"

definition lifespan_shutdown :: "settings \<Rightarrow> 's pool \<times> scheduler \<Rightarrow> 's pool \<times> scheduler" where
  "lifespan_shutdown cfg state = (case state of (q, sc) \<Rightarrow>
     if environment cfg \<noteq> ''test'' then (stop_put q, scheduler_stop sc) else (q, sc))"

section \<open>What the handlers do\<close>

lemma register_default_handlers_map:
  "register_default_handlers bk hs = hs(JOB_ROOM_CLEANUP \<mapsto> run_room_cleanup bk, JOB_DELETE_FILE_OBJECT \<mapsto> delete_file_object bk,
     JOB_EXPIRE_UPLOAD_SESSION \<mapsto> expire_upload_session bk, JOB_SEND_ROOM_EXPIRATION_EVENT \<mapsto> send_room_expiration_event,
     JOB_CLEANUP_ORPHANED_OBJECT \<mapsto> cleanup_orphaned_object bk, JOB_GENERATE_AUDIT_EVENT \<mapsto> generate_audit_event)"
  by (simp add: register_default_handlers_def register_def)


section \<open>They keep the invariant\<close>

text \<open>\<open>background\<close>: from a sound state to a sound state, with a session of its own if it needs one.\<close>

definition background :: "database \<Rightarrow> bool \<Rightarrow> settings \<Rightarrow> ('st, 'z, 'a) api \<Rightarrow> bool" where
  "background d0 exact cfg m \<longleftrightarrow> (\<forall>w. steady d0 exact cfg w \<longrightarrow> wp m (\<lambda>_. calm d0 exact cfg w) (\<lambda>_. calm d0 exact cfg w) w)"

lemma calm_self: "steady d0 exact cfg w \<Longrightarrow> calm d0 exact cfg w w"
  by (simp add: calm_def)

lemma calm_trans: "calm d0 exact cfg u v \<Longrightarrow> calm d0 exact cfg v w \<Longrightarrow> calm d0 exact cfg u w"
  by (simp add: calm_def)

lemma calm_steady: "calm d0 exact cfg v w \<Longrightarrow> steady d0 exact cfg w"
  by (simp add: calm_def)

lemma background_safe: "safe d0 exact cfg m \<Longrightarrow> background d0 exact cfg (with_session m)"
  by (simp add: background_def safe_request)

lemma background_ret: "background d0 exact cfg (ret x)"
  by (simp add: background_def wp_ret calm_self)

lemma background_raise: "background d0 exact cfg (raise e)"
  by (simp add: background_def wp_raise calm_self)

lemma background_gets: "background d0 exact cfg (gets f)"
  by (simp add: background_def wp_gets calm_self)

lemma background_store: "background d0 exact cfg (on_store p)"
  by (simp add: background_def wp_on_store calm_self wp_any)

lemma background_broadcast: "background d0 exact cfg (on_sockets (broadcast c ev ex))"
  by (simp add: background_def calm_broadcast calm_self)

lemma background_enqueue: "background d0 exact cfg (enqueue_job ty p)"
  by (simp add: background_def enqueue_job_def wp_modify calm_self)

lemma background_bind:
  fixes m :: "('st, 'z, 'a) api"
  assumes "background d0 exact cfg m" and "\<And>x. background d0 exact cfg (f x)"
  shows "background d0 exact cfg (bind m f)"
  unfolding background_def wp_bind
proof (intro allI impI)
  fix w :: "('st, 'z) app_scheme"
  assume w: "steady d0 exact cfg w"
  have "wp m (\<lambda>_. calm d0 exact cfg w) (\<lambda>_. calm d0 exact cfg w) w" using assms(1) w by (simp add: background_def)
  then show "wp m (\<lambda>x. wp (f x) (\<lambda>_. calm d0 exact cfg w) (\<lambda>_. calm d0 exact cfg w)) (\<lambda>_. calm d0 exact cfg w) w"
  proof (rule wp_mono)
    fix x t
    assume t: "calm d0 exact cfg w t"
    have "wp (f x) (\<lambda>_. calm d0 exact cfg t) (\<lambda>_. calm d0 exact cfg t) t"
      using assms(2) [of x] calm_steady [OF t] by (simp add: background_def)
    then show "wp (f x) (\<lambda>_. calm d0 exact cfg w) (\<lambda>_. calm d0 exact cfg w) t"
      by (rule wp_mono) (auto intro: calm_trans [OF t])
  qed
qed

lemma background_try:
  fixes m :: "('st, 'z, 'a) api"
  assumes "background d0 exact cfg m" and "\<And>e. background d0 exact cfg (h e)"
  shows "background d0 exact cfg (try_except m h)"
  unfolding background_def wp_try
proof (intro allI impI)
  fix w :: "('st, 'z) app_scheme"
  assume w: "steady d0 exact cfg w"
  have "wp m (\<lambda>_. calm d0 exact cfg w) (\<lambda>_. calm d0 exact cfg w) w" using assms(1) w by (simp add: background_def)
  then show "wp m (\<lambda>_. calm d0 exact cfg w) (\<lambda>e. wp (h e) (\<lambda>_. calm d0 exact cfg w) (\<lambda>_. calm d0 exact cfg w)) w"
  proof (rule wp_mono)
    fix e t
    assume t: "calm d0 exact cfg w t"
    have "wp (h e) (\<lambda>_. calm d0 exact cfg t) (\<lambda>_. calm d0 exact cfg t) t"
      using assms(2) [of e] calm_steady [OF t] by (simp add: background_def)
    then show "wp (h e) (\<lambda>_. calm d0 exact cfg w) (\<lambda>_. calm d0 exact cfg w) t"
      by (rule wp_mono) (auto intro: calm_trans [OF t])
  qed
qed

lemma background_seq: "background d0 exact cfg m \<Longrightarrow> background d0 exact cfg n \<Longrightarrow> background d0 exact cfg (seq m n)"
  unfolding seq_def by (rule background_bind)

lemma background_each: "(\<And>x. background d0 exact cfg (f x)) \<Longrightarrow> background d0 exact cfg (for_each xs f)"
  by (induction xs) (simp_all add: background_ret background_seq)

lemmas background_intros = background_ret background_raise background_gets background_store background_broadcast
  background_enqueue background_bind background_try background_seq background_each

lemma room_by_id_ready:
  assumes "ready d0 exact cfg v w" and "\<And>found. ready d0 exact cfg v w \<Longrightarrow> Q found w" and "\<And>e. calm d0 exact cfg v w \<Longrightarrow> E e w"
  shows "wp (get_room_by_id i) Q E w"
  using assms by (simp add: get_room_by_id_def find_room_def wp_simps split: sum.split)

lemma room_cleanup_background: "background d0 exact cfg (run_room_cleanup bk p)"
proof -
  have "safe d0 exact cfg (bind (of_sum (bind_int v)) (\<lambda>i.
         bind (get_room_by_id i) (\<lambda>found. case found of
           None \<Rightarrow> ret ()
         | Some room \<Rightarrow>
             if r_status room = DELETED then ret ()
             else bind (cleanup_room bk room) (\<lambda>changed.
               seq commit
               (if changed then on_sockets (broadcast (ws_channel room) RoomExpiredEvent []) else ret ())))))" for v
    by (rule safeI) (simp only: wp_seq wp_bind,
      (elim room_by_id_ready room_steps | intro conjI allI impI | clarsimp simp: wp_seq wp_bind split: option.splits if_splits)+)
  then show ?thesis
    unfolding run_room_cleanup_def Let_def by (split if_split) (intro conjI impI background_ret background_safe)
qed


lemma expire_upload_ready:
  fixes w :: "('st, 'z) app_scheme"
  assumes r: "ready d0 exact cfg v w" and f: "rec \<in> set (files (w_db w))" "f_status rec = PENDING"
    and Q: "\<And>x t. ready d0 exact cfg v t \<Longrightarrow> Q x t" and E: "\<And>e t. calm d0 exact cfg v t \<Longrightarrow> E e t"
  shows "wp (bind (cleanup_upload_parts bk rec) (\<lambda>_. seq (on_store (delete_object bk (f_storage_key rec)))
               (exec (del_files (\<lambda>f. f_id f = f_id rec))))) Q E w"
proof (rule ready_frame [OF r])
  have "db_inv exact cfg (w_seq w) (w_db w)" using ready_good [OF r] by (simp add: good_def)
  from db_inv_abort [OF this f(1)] f(2)
  have "db_inv exact cfg (w_seq w) (del_files (\<lambda>t. f_id t = f_id rec) (w_db w))" by simp
  then show "wp (bind (cleanup_upload_parts bk rec) (\<lambda>_. seq (on_store (delete_object bk (f_storage_key rec)))
               (exec (del_files (\<lambda>f. f_id f = f_id rec))))) (\<lambda>_. good exact cfg) (\<lambda>_ _. True) w"
    unfolding cleanup_upload_parts_def wp_bind wp_seq wp_gets wp_ret
    by (intro wp_mono [OF delete_all_frame]) (auto simp: wp_on_store wp_exec good_def intro!: wp_any)
qed (use Q E in \<open>auto simp: cleanup_upload_parts_def\<close>)

lemma expire_upload_committed:
  fixes w :: "('st, 'z) app_scheme"
  assumes r: "ready d0 exact cfg v w" and f: "rec \<in> set (files (w_db w))" "f_status rec = PENDING"
    and Q: "\<And>x t. ready d0 exact cfg v t \<Longrightarrow> Q x t" and E: "\<And>e t. calm d0 exact cfg v t \<Longrightarrow> E e t"
  shows "wp (bind (cleanup_upload_parts bk rec) (\<lambda>_. seq (on_store (delete_object bk (f_storage_key rec)))
               (seq (exec (del_files (\<lambda>f. f_id f = f_id rec))) commit))) Q E w"
proof -
  have "wp (bind (cleanup_upload_parts bk rec) (\<lambda>_. seq (on_store (delete_object bk (f_storage_key rec)))
               (exec (del_files (\<lambda>f. f_id f = f_id rec))))) (\<lambda>_. wp commit Q E) E w"
    by (rule expire_upload_ready [OF r f]) (auto intro: ready_published Q E)
  then show ?thesis by (simp only: wp_bind wp_seq)
qed

lemma expire_upload_background: "background d0 exact cfg (expire_upload_session bk p)"
proof -
  have "safe d0 exact cfg
        (bind (of_sum (bind_int v)) (\<lambda>i.
         bind (get_file_by_id i) (\<lambda>found. case found of
           None \<Rightarrow> ret ()
         | Some rec \<Rightarrow>
             if f_status rec \<noteq> PENDING then ret ()
             else bind (cleanup_upload_parts bk rec) (\<lambda>_.
               seq (on_store (delete_object bk (f_storage_key rec)))
               (seq (exec (del_files (\<lambda>f. f_id f = f_id rec)))
               commit)))))" for v
    by (rule safeI) (simp only: wp_bind [of "of_sum _"] wp_bind [of "get_file_by_id _"],
        (elim file_by_id_ready expire_upload_committed room_steps | intro conjI allI impI | clarsimp split: option.splits if_splits)+)
  then show ?thesis
    unfolding expire_upload_session_def Let_def by (split if_split) (intro conjI impI background_ret background_safe)
qed

lemma handlers_background:
  "background d0 exact cfg (delete_file_object bk p)" "background d0 exact cfg (send_room_expiration_event p)"
  "background d0 exact cfg (cleanup_orphaned_object bk p)" "background d0 exact cfg (generate_audit_event p)"
proof -
  have "safe d0 exact cfg commit" by (rule safeI) (simp add: wp_commit)
  then show "background d0 exact cfg (generate_audit_event p)" unfolding generate_audit_event_def by (rule background_safe)
qed (auto simp: delete_file_object_def send_room_expiration_event_def cleanup_orphaned_object_def storage_delete_def Let_def
    intro!: background_intros split: json.split)

text \<open>So does every handler the application registers.\<close>

lemma registered_background:
  assumes "register_default_handlers bk Map.empty ty = Some h"
  shows "background d0 exact cfg (h p)"
  using assms by (auto simp: register_default_handlers_map room_cleanup_background expire_upload_background handlers_background
      split: if_splits)

section \<open>What the scan enqueues\<close>

definition scan_jobs :: "settings \<Rightarrow> 'st storage_backend \<Rightarrow> int \<Rightarrow> database \<Rightarrow> 'st \<Rightarrow> (string \<times> json_dict) list" where
  "scan_jobs cfg bk now d st =
     map (\<lambda>r. (JOB_ROOM_CLEANUP, [(''room_id'', JInt (r_id r))]))
       (take 100 (sel (\<lambda>r. (r_status r = ACTIVE \<or> r_status r = EXPIRED) \<and> r_expires_at r \<le> now) (rooms d))) @
     map (\<lambda>f. (JOB_DELETE_FILE_OBJECT, [(''storage_key'', JStr (f_storage_key f))]))
       (filter (\<lambda>f. object_exists bk (f_storage_key f) st) (take 500 (sel (\<lambda>f. f_status f = FILE_DELETED) (files d)))) @
     map (\<lambda>f. (JOB_EXPIRE_UPLOAD_SESSION, [(''file_id'', JInt (f_id f))]))
       (take 500 (sel (\<lambda>f. f_status f = PENDING \<and> f_created_at f < now - hours 24) (files d))) @
     map (\<lambda>k. (JOB_CLEANUP_ORPHANED_OBJECT, [(''storage_key'', JStr k)]))
       (orphans cfg (list_keys bk [] st) (map f_storage_key (files d)))"

lemma enqueue_each:
  "for_each xs (\<lambda>x. enqueue_job ty (p x)) w = (Inr (), w\<lparr>a_jobs := a_jobs w @ map (\<lambda>x. (ty, p x)) xs\<rparr>)"
  by (induction xs arbitrary: w) (simp_all add: ret_def seq_def bind_def enqueue_job_def modify_def)

lemma enqueue_existing:
  "for_each recs (\<lambda>rec. bind (gets (\<lambda>w. object_exists bk (f_storage_key rec) (w_store w))) (\<lambda>there.
        if there then enqueue_job ty (p rec) else ret ())) w
    = (Inr (), w\<lparr>a_jobs := a_jobs w @ map (\<lambda>x. (ty, p x)) (filter (\<lambda>f. object_exists bk (f_storage_key f) (w_store w)) recs)\<rparr>)"
  by (induction recs arbitrary: w) (simp_all add: ret_def seq_def bind_def gets_def enqueue_job_def modify_def)

lemma scan_once_eq:
  "scan_once cfg bk w = (Inr (), w\<lparr>w_db := w_saved w,
     a_jobs := a_jobs w @ scan_jobs cfg bk (w_now w) (w_saved w) (w_store w)\<rparr>)"
  by (simp add: scan_once_def scan_database_def try_except_def with_session_def bind_def seq_def gets_def utcnow_def
      list_rooms_pending_cleanup_def list_deleted_records_def list_stale_pending_def list_all_storage_keys_def query_def
      enqueue_each enqueue_existing scan_jobs_def Let_def)

lemma scan_background: "background d0 exact cfg (scan_once cfg' bk)"
  by (simp add: background_def wp_def scan_once_eq calm_self)

text \<open>An object is swept as an orphan only if no row has its key, and every such object is, up to the limit.\<close>

lemma set_orphans:
  "set (orphans cfg keys known) \<subseteq> set keys - set known"
  "length (remdups (filter (\<lambda>k. k \<notin> set known) keys)) \<le> job_orphan_sweep_limit cfg \<Longrightarrow>
     set (orphans cfg keys known) = set keys - set known"
  unfolding orphans_def by (auto dest!: in_set_takeD)

text \<open>
  What is due, said without the queries: rooms past their expiry, objects of deleted files, uploads
  pending for more than a day, and objects that belong to no file. \<open>backlog\<close> counts the rows or
  objects a batch is drawn from, \<open>batch_limit\<close> is the size of the batch. Which rows a \<open>SELECT\<close> with
  a \<open>LIMIT\<close> and no \<open>ORDER BY\<close> picks does not matter to any of this.
\<close>

inductive due :: "(string \<Rightarrow> bytes option) \<Rightarrow> int \<Rightarrow> database \<Rightarrow> string \<Rightarrow> json_dict \<Rightarrow> bool" for objects now d where
  Expired: "r \<in> set (rooms d) \<Longrightarrow> r_status r = ACTIVE \<or> r_status r = EXPIRED \<Longrightarrow> r_expires_at r \<le> now \<Longrightarrow>
    due objects now d JOB_ROOM_CLEANUP [(''room_id'', JInt (r_id r))]"
| Deleted: "f \<in> set (files d) \<Longrightarrow> f_status f = FILE_DELETED \<Longrightarrow> objects (f_storage_key f) \<noteq> None \<Longrightarrow>
    due objects now d JOB_DELETE_FILE_OBJECT [(''storage_key'', JStr (f_storage_key f))]"
| Stale: "f \<in> set (files d) \<Longrightarrow> f_status f = PENDING \<Longrightarrow> f_created_at f < now - hours 24 \<Longrightarrow>
    due objects now d JOB_EXPIRE_UPLOAD_SESSION [(''file_id'', JInt (f_id f))]"
| Orphan: "objects k \<noteq> None \<Longrightarrow> \<forall>f \<in> set (files d). f_storage_key f \<noteq> k \<Longrightarrow>
    due objects now d JOB_CLEANUP_ORPHANED_OBJECT [(''storage_key'', JStr k)]"

definition backlog :: "(string \<Rightarrow> bytes option) \<Rightarrow> int \<Rightarrow> database \<Rightarrow> string \<Rightarrow> nat" where
  "backlog objects now d ty =
     (if ty = JOB_ROOM_CLEANUP then rowcount (\<lambda>r. (r_status r = ACTIVE \<or> r_status r = EXPIRED) \<and> r_expires_at r \<le> now) (rooms d)
      else if ty = JOB_DELETE_FILE_OBJECT then rowcount (\<lambda>f. f_status f = FILE_DELETED) (files d)
      else if ty = JOB_EXPIRE_UPLOAD_SESSION then rowcount (\<lambda>f. f_status f = PENDING \<and> f_created_at f < now - hours 24) (files d)
      else card {k. objects k \<noteq> None \<and> (\<forall>f \<in> set (files d). f_storage_key f \<noteq> k)})"

definition batch_limit :: "settings \<Rightarrow> string \<Rightarrow> nat" where
  "batch_limit cfg ty =
     (if ty = JOB_ROOM_CLEANUP then 100
      else if ty = JOB_DELETE_FILE_OBJECT \<or> ty = JOB_EXPIRE_UPLOAD_SESSION then 500
      else job_orphan_sweep_limit cfg)"

lemma job_types_distinct:
  "JOB_ROOM_CLEANUP \<noteq> JOB_DELETE_FILE_OBJECT" "JOB_ROOM_CLEANUP \<noteq> JOB_EXPIRE_UPLOAD_SESSION"
  "JOB_ROOM_CLEANUP \<noteq> JOB_CLEANUP_ORPHANED_OBJECT" "JOB_DELETE_FILE_OBJECT \<noteq> JOB_EXPIRE_UPLOAD_SESSION"
  "JOB_DELETE_FILE_OBJECT \<noteq> JOB_CLEANUP_ORPHANED_OBJECT" "JOB_EXPIRE_UPLOAD_SESSION \<noteq> JOB_CLEANUP_ORPHANED_OBJECT"
  by (simp_all add: job_types)

lemma length_filter_take: "length (filter P (take n xs)) \<le> n"
  by (rule le_trans [OF length_filter_le]) simp

context object_store
begin

lemma orphans_due:
  "k \<in> set (orphans cfg (list_keys bk [] st) (map f_storage_key fs)) \<Longrightarrow>
     contents st k \<noteq> None \<and> (\<forall>f \<in> set fs. f_storage_key f \<noteq> k)"
  using set_orphans(1) [of cfg "list_keys bk [] st" "map f_storage_key fs"] by (auto simp: list_keys_iff)

lemma orphans_all:
  assumes "card {k. contents st k \<noteq> None \<and> (\<forall>f \<in> set fs. f_storage_key f \<noteq> k)} \<le> job_orphan_sweep_limit cfg"
    and "contents st k \<noteq> None" and "\<forall>f \<in> set fs. f_storage_key f \<noteq> k"
  shows "k \<in> set (orphans cfg (list_keys bk [] st) (map f_storage_key fs))"
proof -
  let ?ks = "filter (\<lambda>k. k \<notin> set (map f_storage_key fs)) (list_keys bk [] st)"
  have "set ?ks = {k. contents st k \<noteq> None \<and> (\<forall>f \<in> set fs. f_storage_key f \<noteq> k)}" by (auto simp: list_keys_iff)
  then have "length (remdups ?ks) \<le> job_orphan_sweep_limit cfg" using assms(1) by (simp only: length_remdups_card_conv)
  from set_orphans(2) [OF this] assms(2,3) show ?thesis by (auto simp: list_keys_iff)
qed

lemma scan_jobs_due: "(ty, p) \<in> set (scan_jobs cfg bk now d st) \<Longrightarrow> due (contents st) now d ty p"
  by (auto simp: scan_jobs_def sel_def exists_iff dest!: in_set_takeD orphans_due intro: due.intros)

lemma due_scanned:
  assumes "due (contents st) now d ty p" and "backlog (contents st) now d ty \<le> batch_limit cfg ty"
  shows "(ty, p) \<in> set (scan_jobs cfg bk now d st)"
  using assms
proof cases
  case (Orphan k)
  then have "k \<in> set (orphans cfg (list_keys bk [] st) (map f_storage_key (files d)))"
    using assms(2) job_types_distinct by (intro orphans_all) (auto simp: backlog_def batch_limit_def)
  with Orphan show ?thesis by (simp add: scan_jobs_def)
qed (use assms(2) job_types_distinct in \<open>auto simp: scan_jobs_def sel_def rowcount_def backlog_def batch_limit_def exists_iff\<close>)

lemma scan_jobs_bounded: "length (filter (\<lambda>j. fst j = ty) (scan_jobs cfg bk now d st)) \<le> batch_limit cfg ty"
  using job_types_distinct job_types_distinct [symmetric]
  by (auto simp: scan_jobs_def batch_limit_def filter_map o_def orphans_def length_filter_take)

end

end
