(* ===== verification/System.thy ===== *)
theory System
  imports Connections Job_Handlers
begin

text \<open>
  The application as one step relation: the routes of \<open>main.py\<close> (\<open>serve\<close>), the turns of the open
  WebSockets, the handlers of the job queue, the scans of the scheduler and the passing of time, in any
  order. Each step runs to its end before the next: this is the interleaving of serialised database
  transactions, not of the single statements of two handlers.

  \<open>sound\<close> holds in every reachable state; what it promises is read off at the end.
\<close>

section \<open>Routes\<close>

datatype http_call =
    GetCsrf bytes
  | PostRoom room_draws bytes bytes bytes room_create
  | GetRoom string
  | PostJoin string bytes bytes join_request
  | PostJoinByCode bytes bytes join_by_code_request
  | PatchRoom string bytes room_patch
  | DeleteRoom string
  | PostFile string string "string option" "string option" bytes
  | GetFiles string
  | GetFile string int
  | DeleteFile string int
  | PostUpload string string upload_session_create
  | GetUpload string int
  | PutChunk string int int bytes
  | CompleteUpload string int int
  | DeleteUpload string int
  | GetMessages string
  | DeleteMessage string int

datatype reply =
    CsrfToken string "set_cookie list"
  | CreatedRoom room_created "set_cookie list"
  | RoomPage room_page
  | Joined join_response "set_cookie list"
  | RoomChanged room_view
  | Done bool
  | OneFile file_view
  | ManyFiles file_list_response
  | Download file_response
  | UploadOpened upload_session_created
  | UploadState upload_status
  | ManyMessages "message_view list"

definition reply_with :: "('a \<Rightarrow> 'b) \<Rightarrow> ('s, 'e, 'a) prog \<Rightarrow> ('s, 'e, 'b) prog" where
  "reply_with f m = bind m (\<lambda>x. ret (f x))"

fun serve :: "settings \<Rightarrow> crypto \<Rightarrow> 'st storage_backend \<Rightarrow> request \<Rightarrow> http_call \<Rightarrow> ('st, 'z, reply) api" where
  "serve cfg cr bk req (GetCsrf rnd) =
     reply_with (\<lambda>(t, cs). CsrfToken t cs) (of_sum (csrf_endpoint cfg cr rnd req))"
| "serve cfg cr bk req (PostRoom draws salt rnd crnd body) =
     reply_with (\<lambda>(r, cs). CreatedRoom r cs) (api_create_room cfg cr draws salt rnd crnd req body)"
| "serve cfg cr bk req (GetRoom tk) = reply_with RoomPage (api_get_room cr tk)"
| "serve cfg cr bk req (PostJoin tk rnd crnd body) =
     reply_with (\<lambda>(r, cs). Joined r cs) (api_join_room cfg cr rnd crnd req tk body)"
| "serve cfg cr bk req (PostJoinByCode rnd crnd body) =
     reply_with (\<lambda>(r, cs). Joined r cs) (api_join_by_code cfg cr rnd crnd req body)"
| "serve cfg cr bk req (PatchRoom tk salt body) = reply_with RoomChanged (api_patch_room cfg cr salt req tk body)"
| "serve cfg cr bk req (DeleteRoom tk) = reply_with Done (api_delete_room cfg cr bk req tk)"
| "serve cfg cr bk req (PostFile tk key fn ct content) =
     reply_with OneFile (api_upload cfg cr bk key req tk fn ct content)"
| "serve cfg cr bk req (GetFiles tk) = reply_with ManyFiles (api_list_files cfg cr req tk)"
| "serve cfg cr bk req (GetFile tk i) = reply_with Download (api_download cfg cr bk req tk i)"
| "serve cfg cr bk req (DeleteFile tk i) = reply_with OneFile (api_delete_file cfg cr bk req tk i)"
| "serve cfg cr bk req (PostUpload tk key body) = reply_with UploadOpened (api_create_upload cfg cr key req tk body)"
| "serve cfg cr bk req (GetUpload tk i) = reply_with UploadState (api_upload_status cfg cr req tk i)"
| "serve cfg cr bk req (PutChunk tk i n chunk) = reply_with UploadState (api_upload_chunk cfg cr bk req tk i n chunk)"
| "serve cfg cr bk req (CompleteUpload tk i n) = reply_with OneFile (api_complete_upload cfg cr bk req tk i n)"
| "serve cfg cr bk req (DeleteUpload tk i) = reply_with Done (api_abort_upload cfg cr bk req tk i)"
| "serve cfg cr bk req (GetMessages tk) = reply_with ManyMessages (api_list_messages cfg cr req tk)"
| "serve cfg cr bk req (DeleteMessage tk i) = reply_with Done (api_delete_message cfg cr req tk i)"

text \<open>What the client gets: the reply, the error of the application's handlers, or the framework's
  answer to a body that fails validation.\<close>

datatype http_response = Reply reply | Failed int string string | Unprocessable

definition respond :: "exc + reply \<Rightarrow> http_response" where
  "respond r = (case r of
     Inr x \<Rightarrow> Reply x
   | Inl e \<Rightarrow> if e = Py RequestValidationError then Unprocessable
             else (case error_response e of (st, cd, det) \<Rightarrow> Failed st cd det))"

definition handle_request ::
  "settings \<Rightarrow> crypto \<Rightarrow> 'st storage_backend \<Rightarrow> request \<Rightarrow> http_call \<Rightarrow> ('st, 'z) app_scheme \<Rightarrow> http_response \<times> ('st, 'z) app_scheme" where
  "handle_request cfg cr bk req call w = (let (r, t) = with_session (serve cfg cr bk req call) w in (respond r, t))"

section \<open>Steps\<close>

text \<open>Whether the step aborts an upload that has been confirmed (see \<open>aborts_confirmed\<close> below).\<close>

definition aborts_confirmed :: "http_call \<Rightarrow> database \<Rightarrow> bool" where
  "aborts_confirmed call d \<longleftrightarrow> (case call of
     DeleteUpload tk i \<Rightarrow> \<exists>f \<in> set (files d). f_id f = i \<and> f_status f = CONFIRMED
   | _ \<Rightarrow> False)"

inductive step ::
  "settings \<Rightarrow> crypto \<Rightarrow> 'st storage_backend \<Rightarrow> bool \<Rightarrow> ('st, 'z) app_scheme \<Rightarrow> ('st, 'z) app_scheme \<Rightarrow> bool"
  for cfg cr bk exact where
  Request: "(exact \<Longrightarrow> \<not> aborts_confirmed call (w_saved w)) \<Longrightarrow>
    step cfg cr bk exact w (snd (handle_request cfg cr bk req call w))"
| Open: "ws \<notin> c_ws ` set (a_conns w) \<Longrightarrow> step cfg cr bk exact w (snd (with_session (ws_open cfg cr ws req) w))"
| Receive: "step cfg cr bk exact w (snd (with_session (ws_receive cfg ws fr) w))"
| Lost: "step cfg cr bk exact w (w\<lparr>a_sockets := (a_sockets w)\<lparr>gone := ws # gone (a_sockets w)\<rparr>\<rparr>)"
| Job: "register_default_handlers bk Map.empty ty = Some handler \<Longrightarrow> step cfg cr bk exact w (snd (handler payload w))"
| Scan: "step cfg cr bk exact w (snd (scheduler_turn cfg bk sc w))"
| Tick: "w_now w \<le> now' \<Longrightarrow> step cfg cr bk exact w (w\<lparr>w_now := now', a_mono := mono'\<rparr>)"

inductive_cases step_cases: "step cfg cr bk exact w w'"

definition fresh_app :: "('st, 'z) app_scheme \<Rightarrow> bool" where
  "fresh_app w \<longleftrightarrow> w_saved w = empty_db \<and> w_seq w = init_seq \<and> registry (a_sockets w) = [] \<and> a_conns w = []"

inductive reachable :: "settings \<Rightarrow> crypto \<Rightarrow> 'st storage_backend \<Rightarrow> bool \<Rightarrow> ('st, 'z) app_scheme \<Rightarrow> bool"
  for cfg cr bk exact where
  Fresh: "fresh_app w \<Longrightarrow> reachable cfg cr bk exact w"
| Step: "reachable cfg cr bk exact w \<Longrightarrow> step cfg cr bk exact w w' \<Longrightarrow> reachable cfg cr bk exact w'"

inductive runs :: "settings \<Rightarrow> crypto \<Rightarrow> 'st storage_backend \<Rightarrow> bool \<Rightarrow> ('st, 'z) app_scheme \<Rightarrow> ('st, 'z) app_scheme \<Rightarrow> bool"
  for cfg cr bk exact where
  Stay: "runs cfg cr bk exact w w"
| Go: "runs cfg cr bk exact w w' \<Longrightarrow> step cfg cr bk exact w' w'' \<Longrightarrow> runs cfg cr bk exact w w''"

section \<open>Every step keeps the invariant\<close>

lemma safe_reply: "safe d0 exact cfg m \<Longrightarrow> safe d0 exact cfg (reply_with f m)"
  by (simp add: safe_def reply_with_def wp_bind wp_ret)

lemma safe_of_sum: "safe d0 exact cfg (of_sum r)"
  by (rule safeI) (simp add: wp_of_sum ready_calm split: sum.split)

lemma fresh_sound: "fresh_app w \<Longrightarrow> sound (w_saved w) exact cfg w"
  by (simp add: fresh_app_def sound_def steady_def db_ok_def db_inv_empty [unfolded empty_db_def] within_capacity_def socks_ok_def conns_agree_def
      links_def sessions_of_def empty_db_def)

lemma serve_safe:
  assumes "object_store bk contents" and "cfg_ok cfg" and "\<forall>tk i. call \<noteq> DeleteUpload tk i"
  shows "safe d0 exact cfg (serve cfg cr bk req call)"
  using assms(3)
  by (cases call) (simp_all add: safe_reply safe_of_sum safe_create_room [OF assms(2)] safe_get_room safe_join_room safe_join_by_code
      safe_patch_room safe_delete_room safe_upload safe_list_files safe_download safe_delete_file safe_create_upload safe_upload_status
      safe_upload_chunk object_store.safe_complete_upload [OF assms(1)] safe_list_messages safe_delete_message)

lemma wp_snd: "wp m (\<lambda>_. P) (\<lambda>_. P) w \<longleftrightarrow> P (snd (m w))"
  by (simp add: wp_def split: prod.split sum.split)

lemma begin_ready: "sound d0 exact cfg w \<Longrightarrow> ready d0 exact cfg (w\<lparr>w_db := w_saved w\<rparr>) (w\<lparr>w_db := w_saved w\<rparr>)"
  by (simp add: ready_def calm_def sound_def) (simp add: steady_def)

lemma with_session_sound:
  fixes m :: "('st, 'z, 'a) api"
  assumes "wp m (\<lambda>_. sound d0 exact cfg) (\<lambda>_. sound d0 exact cfg) (w\<lparr>w_db := w_saved w\<rparr>)"
  shows "sound d0 exact cfg (snd (with_session m w))"
proof -
  have "wp (with_session m) (\<lambda>_. sound d0 exact cfg) (\<lambda>_. sound d0 exact cfg) w"
    using assms by (simp add: wp_with_session)
  then show ?thesis by (simp only: wp_snd)
qed

lemma calm_with_session:
  fixes m :: "('st, 'z, 'a) api"
  assumes "wp m (\<lambda>_. calm d0 exact cfg (w\<lparr>w_db := w_saved w\<rparr>)) (\<lambda>_. calm d0 exact cfg (w\<lparr>w_db := w_saved w\<rparr>)) (w\<lparr>w_db := w_saved w\<rparr>)"
    and "socks_ok w"
  shows "sound d0 exact cfg (snd (with_session m w))"
proof (rule with_session_sound)
  have "socks_ok (w\<lparr>w_db := w_saved w\<rparr>)" using assms(2) by simp
  with assms(1) show "wp m (\<lambda>_. sound d0 exact cfg) (\<lambda>_. sound d0 exact cfg) (w\<lparr>w_db := w_saved w\<rparr>)"
    by (elim wp_mono) (blast intro: calm_sound)+
qed

lemma request_sound:
  fixes w :: "('st, 'z) app_scheme"
  assumes bk: "object_store bk contents" and cfg: "cfg_ok cfg" and w: "sound d0 exact cfg w"
    and e: "exact \<Longrightarrow> \<not> aborts_confirmed call (w_saved w)"
  shows "sound d0 exact cfg (snd (with_session (serve cfg cr bk req call) w))"
proof (rule calm_with_session)
  let ?v = "w\<lparr>w_db := w_saved w\<rparr>"
  show "socks_ok w" using w by (simp add: sound_def)
  note r = begin_ready [OF w]
  show "wp (serve cfg cr bk req call) (\<lambda>_. calm d0 exact cfg ?v) (\<lambda>_. calm d0 exact cfg ?v) ?v"
  proof (cases "\<exists>tk i. call = DeleteUpload tk i")
    case True
    then obtain tk i where c: "call = DeleteUpload tk i" by blast
    with e have "exact \<Longrightarrow> \<forall>f \<in> set (files (w_db ?v)). f_id f = i \<longrightarrow> f_status f \<noteq> CONFIRMED" by (auto simp: aborts_confirmed_def)
    from abort_ready [OF r this] show ?thesis by (simp add: c reply_with_def wp_bind wp_ret)
  next
    case False
    then have "\<forall>tk i. call \<noteq> DeleteUpload tk i" by blast
    from serve_safe [OF bk cfg this, unfolded safe_def, rule_format, OF r] show ?thesis .
  qed
qed

lemma background_sound:
  fixes m :: "('st, 'z, 'a) api"
  assumes "background d0 exact cfg m" and "sound d0 exact cfg w"
  shows "sound d0 exact cfg (snd (m w))"
proof -
  have "wp m (\<lambda>_. calm d0 exact cfg w) (\<lambda>_. calm d0 exact cfg w) w" using assms by (simp add: background_def sound_def)
  then have "calm d0 exact cfg w (snd (m w))" by (simp only: wp_snd)
  with assms(2) show ?thesis by (auto simp: sound_def dest: calm_sound)
qed

lemma tick_sound:
  fixes w :: "('st, 'z) app_scheme"
  assumes "sound d0 exact cfg w" and "w_now w \<le> now'"
  shows "sound d0 exact cfg (w\<lparr>w_now := now', a_mono := mono'\<rparr>)"
proof -
  have "within_capacity (online (a_conns w)) now' (w_saved w)"
    using assms within_capacity_later by (auto simp: sound_def steady_def db_ok_def)
  with assms(1) show ?thesis by (simp add: sound_def steady_def db_ok_def socks_ok_def)
qed

lemma turn_background: "background d0 exact cfg (scheduler_turn cfg' bk sc)"
  unfolding scheduler_turn_def by (split if_split) (intro conjI impI background_intros scan_background)

lemma step_sound:
  fixes w :: "('st, 'z) app_scheme"
  assumes bk: "object_store bk contents" and cfg: "cfg_ok cfg" and w: "sound d0 exact cfg w" and s: "step cfg cr bk exact w w'"
  shows "sound d0 exact cfg w'"
  using s
proof cases
  case (Request call req)
  then show ?thesis using request_sound [OF bk cfg w] by (simp add: handle_request_def split: prod.split) (metis snd_conv)
next
  case (Open ws req)
  have "socks_ok (w\<lparr>w_db := w_saved w\<rparr>)" using w by (simp add: sound_def)
  from ws_open_sound [OF begin_ready [OF w] _ this] Open show ?thesis by (auto intro: with_session_sound)
next
  case (Receive ws fr)
  have "socks_ok (w\<lparr>w_db := w_saved w\<rparr>)" using w by (simp add: sound_def)
  from ws_receive_sound [OF begin_ready [OF w] this] Receive show ?thesis by (auto intro: with_session_sound)
next
  case (Lost ws)
  then show ?thesis using w by (simp add: sound_def socks_ok_def)
next
  case (Job ty handler payload)
  then show ?thesis using background_sound [OF registered_background w] by simp
next
  case (Scan sc)
  then show ?thesis using background_sound [OF turn_background w] by simp
next
  case (Tick now' mono')
  then show ?thesis using tick_sound [OF w] by simp
qed

lemma runs_sound:
  assumes "runs cfg cr bk exact w w'" and "object_store bk contents" and "cfg_ok cfg" and "sound d0 exact cfg w"
  shows "sound d0 exact cfg w'"
  using assms(1,4) by (induction) (blast intro: step_sound [OF assms(2,3)])+

lemma reachable_sound:
  assumes "reachable cfg cr bk exact w" and "object_store bk contents" and "cfg_ok cfg"
  shows "sound empty_db exact cfg w"
  using assms(1)
proof induction
  case (Fresh w)
  then show ?case using fresh_sound [OF Fresh] by (simp add: fresh_app_def)
next
  case (Step w w')
  then show ?case by (blast intro: step_sound [OF assms(2,3)])
qed

text \<open>The history may start anywhere.\<close>

lemma sound_from_here: "sound d0 exact cfg w \<Longrightarrow> sound (w_saved w) exact cfg w"
  by (simp add: sound_def steady_def db_ok_def)

end
