(* ===== verification/Example.thy ===== *)
theory Example
  imports Cleanup_Service Job_Queue Ratelimit "HOL-Library.Code_Target_Nat"
begin

text \<open>
  Concrete worlds on which the hypotheses of the properties are seen to hold: simple functions in the
  place of the cryptographic primitives, small limits, and one room with its owner, in three stages:
  empty, with a confirmed file, and with a chunked upload whose two parts are staged.
\<close>

definition demo_cfg :: settings where
  "demo_cfg = default_settings\<lparr>max_file_size_bytes := 100, max_room_storage_bytes := 200,
     upload_chunk_size_bytes := 10, max_users_per_room := 3\<rparr>"

definition demo_crypto :: crypto where
  "demo_crypto = \<lparr>sha256 = take 8, hmac_sha256 = (\<lambda>k m. take 4 m), argon_hash = (\<lambda>salt p. p),
     argon_verify = (\<lambda>h p. if h = p then Verified else VerificationFailed),
     signer_dumps = (\<lambda>k t s. s), signer_loads = (\<lambda>k age t s. Some s)\<rparr>"

definition demo_draws :: room_draws where
  "demo_draws = \<lparr>d_access = [1, 2, 3], d_owner = [4, 5, 6], d_code = (\<lambda>i. i)\<rparr>"

definition demo_create :: room_create where
  "demo_create = \<lparr>rc_name = None, rc_password = None, rc_guest_upload_enabled = True,
     rc_guest_download_enabled = True, rc_lifetime_seconds = None\<rparr>"

definition demo_room :: room where
  "demo_room = \<lparr>r_id = 1, r_room_code = ''ABCDEF'', r_access_token_hash = ''41514944'',
     r_access_token_signed = Some ''AQID'', r_owner_token_hash = ''42415547'', r_password_hash = None,
     r_name = None, r_status = ACTIVE, r_guest_upload_enabled = True, r_guest_download_enabled = True,
     r_max_users = 3, r_user_count = 1, r_storage_used_bytes = 0, r_file_count = 0,
     r_expires_at = 3600000000, r_created_at = 0, r_updated_at = 0\<rparr>"

definition demo_session :: session_rec where
  "demo_session = \<lparr>s_id = 1, s_room_id = 1, s_session_token_hash = ''4277674a'', s_display_name = Some ''Owner'',
     s_role = OWNER, s_connected_at = 0, s_last_seen_at = 0, s_expires_at = 43200000000,
     s_created_at = 0, s_updated_at = 0\<rparr>"

definition demo_file :: file_rec where
  "demo_file = \<lparr>f_id = 1, f_room_id = 1, f_original_filename = ''a.txt'', f_storage_key = ''k1'',
     f_content_type = Some ''text/plain'', f_size_bytes = 3, f_total_size_bytes = None, f_status = CONFIRMED,
     f_uploaded_by = Some 1, f_download_count = 0, f_expires_at = Some 3900000000, f_created_at = 0, f_updated_at = 0\<rparr>"

definition demo_pending :: file_rec where
  "demo_pending = \<lparr>f_id = 1, f_room_id = 1, f_original_filename = ''b'', f_storage_key = ''k2'',
     f_content_type = None, f_size_bytes = 3, f_total_size_bytes = Some 3, f_status = PENDING,
     f_uploaded_by = Some 1, f_download_count = 0, f_expires_at = Some 3900000000, f_created_at = 0, f_updated_at = 0\<rparr>"

definition demo_fs :: "(string \<times> bytes) list \<Rightarrow> fsys" where
  "demo_fs objects = \<lparr>objs = objects, tmp_names = [''a'', ''b'', ''c'', ''d''],
     write_fails = (\<lambda>p. False), unlink_fails = (\<lambda>p. False)\<rparr>"

definition demo_db :: "room \<Rightarrow> file_rec list \<Rightarrow> database" where
  "demo_db r fs = \<lparr>rooms = [r], sessions = [demo_session], files = fs, messages = [], audit_events = []\<rparr>"

definition demo_seq :: sequences where
  "demo_seq = \<lparr>room_seq = 2, session_seq = 2, file_seq = 2, message_seq = 1, audit_seq = 1\<rparr>"

definition demo_empty :: "fsys world" where
  "demo_empty = \<lparr>w_now = 0, w_db = empty_db, w_saved = empty_db, w_seq = init_seq, w_store = demo_fs []\<rparr>"

definition demo_world :: "fsys world" where
  "demo_world = \<lparr>w_now = 0, w_db = demo_db demo_room [], w_saved = demo_db demo_room [], w_seq = demo_seq,
     w_store = demo_fs []\<rparr>"

definition demo_room_full :: room where
  "demo_room_full = demo_room\<lparr>r_storage_used_bytes := 3, r_file_count := 1\<rparr>"

definition demo_shared :: "fsys world" where
  "demo_shared = demo_world\<lparr>w_db := demo_db demo_room_full [demo_file], w_saved := demo_db demo_room_full [demo_file],
     w_store := demo_fs [(''k1'', [104, 105, 33])]\<rparr>"

definition demo_staged :: "fsys world" where
  "demo_staged = demo_world\<lparr>w_db := demo_db demo_room [demo_pending], w_saved := demo_db demo_room [demo_pending],
     w_store := demo_fs [(''k2.000001'', [33]), (''k2.000000'', [104, 105])]\<rparr>"

definition demo_stream :: stream where
  "demo_stream = ([[104, 105], [33]], None)"

text \<open>Result of a run.\<close>

definition returned :: "'a + 'b \<Rightarrow> bool" where
  "returned r = (case r of Inl e \<Rightarrow> False | Inr x \<Rightarrow> True)"

definition result :: "'a + 'b \<Rightarrow> 'b" where
  "result r = (case r of Inr x \<Rightarrow> x)"

lemma returned_result: "returned (fst m) \<Longrightarrow> m = (Inr (result (fst m)), snd m)"
  by (cases m; cases "fst m") (auto simp: returned_def result_def)

lemma good_code [code]: "good exact cfg w \<longleftrightarrow> tables_ok (w_seq w) (w_db w) \<and> (\<forall>r \<in> set (rooms (w_db w)). room_ok exact cfg (w_db w) r)"
  by (simp add: good_def db_inv_def)

lemma demo_good:
  "good True demo_cfg demo_empty" "good True demo_cfg demo_world" "good True demo_cfg demo_shared"
  "good True demo_cfg demo_staged" "cfg_ok demo_cfg"
  by code_simp+

lemma demo_rooms:
  "demo_room \<in> set (rooms (w_db demo_world))" "demo_room_full \<in> set (rooms (w_db demo_shared))"
  "demo_room \<in> set (rooms (w_db demo_staged))" "demo_pending \<in> set (files (w_db demo_staged))"
  by code_simp+

end
