(* ===== verification/Example_App.thy ===== *)
theory Example_App
  imports System Example
begin

text \<open>
  A run of the whole application, for the properties of \<open>System\<close>: a room is created, its owner opens a
  WebSocket, uploads a file and sends a message; then either the owner hangs up or deletes the room.
\<close>

definition app_cfg :: settings where
  "app_cfg = demo_cfg\<lparr>csrf_secret := ''s''\<rparr>"

definition app_crypto :: crypto where
  "app_crypto = demo_crypto\<lparr>sha256 := take 1, hmac_sha256 := (\<lambda>k m. take 1 m)\<rparr>"

definition demo_token :: string where
  "demo_token = ''QVE=.QQ==''"

definition demo_request :: "string \<Rightarrow> (string \<times> string) list \<Rightarrow> request" where
  "demo_request m cookies = \<lparr>q_method = m, q_forwarded_for = None, q_client_host = Some ''h'',
     q_cookies = (csrf_cookie_name app_cfg, demo_token) # cookies, q_csrf_header = Some demo_token\<rparr>"

text \<open>The requests of the owner, and of a visitor without a session.\<close>

definition demo_owner :: "string \<Rightarrow> request" where
  "demo_owner m = demo_request m [(session_cookie_name app_cfg, ''BwgJ'')]"

definition demo_visitor :: "string \<Rightarrow> request" where
  "demo_visitor m = demo_request m []"

definition demo_serve :: "request \<Rightarrow> http_call \<Rightarrow> fsys app \<Rightarrow> http_response \<times> fsys app" where
  "demo_serve req call w = handle_request app_cfg app_crypto local_backend req call w"

definition demo_app0 :: "fsys app" where
  "demo_app0 = \<lparr>w_now = 0, w_db = empty_db, w_saved = empty_db, w_seq = init_seq, w_store = demo_fs [],
     a_mono = 0, a_limiter = rl_init, a_sockets = \<lparr>registry = [], outbox = [], gone = []\<rparr>, a_jobs = [], a_conns = []\<rparr>"

definition demo_post :: http_call where
  "demo_post = PostRoom demo_draws [] [7, 8, 9] [2] demo_create"

definition demo_app1 :: "fsys app" where
  "demo_app1 = snd (demo_serve (demo_visitor ''POST'') demo_post demo_app0)"

definition demo_ws :: ws_request where
  "demo_ws = \<lparr>wr_token = Some ''BwgJ'', wr_cookies = [], wr_room_token = ''AQID''\<rparr>"

definition demo_app2 :: "fsys app" where
  "demo_app2 = snd (with_session (ws_open app_cfg app_crypto 1 demo_ws) demo_app1)"

definition demo_app3 :: "fsys app" where
  "demo_app3 = snd (demo_serve (demo_owner ''POST'') (PostFile ''AQID'' ''k1'' (Some ''a.txt'') None [104, 105, 33]) demo_app2)"

definition demo_frame :: ws_frame where
  "demo_frame = Frame (VDict [(''type'', VStr ''CHAT_SEND''), (''payload'', VDict [(''body'', VStr ''hi'')])])"

definition demo_app4 :: "fsys app" where
  "demo_app4 = snd (with_session (ws_receive app_cfg 1 demo_frame) demo_app3)"

definition demo_left :: "fsys app" where
  "demo_left = snd (with_session (ws_receive app_cfg 1 Hangup) demo_app4)"

definition demo_deleted :: "fsys app" where
  "demo_deleted = snd (demo_serve (demo_owner ''DELETE'') (DeleteRoom ''AQID'') demo_app4)"

definition demo_after :: "fsys app" where
  "demo_after = snd (with_session (ws_receive app_cfg 1 demo_frame) demo_deleted)"

text \<open>For evaluation: each request runs only its own endpoint.\<close>

definition demo_run :: "('a \<Rightarrow> reply) \<Rightarrow> (fsys, unit, 'a) api \<Rightarrow> fsys app \<Rightarrow> fsys app" where
  "demo_run f m w = snd (with_session (reply_with f m) w)"

lemma demo_handled: "snd (handle_request cfg cr bk req call w) = snd (with_session (serve cfg cr bk req call) w)"
  by (simp add: handle_request_def split: prod.split)

lemma demo_code [code]:
  "demo_app1 = demo_run (\<lambda>(r, cs). CreatedRoom r cs)
     (api_create_room app_cfg app_crypto demo_draws [] [7, 8, 9] [2] (demo_visitor ''POST'') demo_create) demo_app0"
  "demo_app3 = demo_run OneFile
     (api_upload app_cfg app_crypto local_backend ''k1'' (demo_owner ''POST'') ''AQID'' (Some ''a.txt'') None [104, 105, 33]) demo_app2"
  "demo_deleted = demo_run Done (api_delete_room app_cfg app_crypto local_backend (demo_owner ''DELETE'') ''AQID'') demo_app4"
  by (simp_all only: demo_app1_def demo_app3_def demo_deleted_def demo_serve_def demo_handled demo_run_def demo_post_def serve.simps)

abbreviation demo_reachable :: "fsys app \<Rightarrow> bool" where
  "demo_reachable \<equiv> reachable app_cfg app_crypto local_backend True"

abbreviation demo_runs :: "fsys app \<Rightarrow> fsys app \<Rightarrow> bool" where
  "demo_runs \<equiv> runs app_cfg app_crypto local_backend True"

lemma demo_steps:
  "fresh_app demo_app0"
  "step app_cfg app_crypto local_backend True demo_app0 demo_app1"
  "step app_cfg app_crypto local_backend True demo_app1 demo_app2"
  "step app_cfg app_crypto local_backend True demo_app2 demo_app3"
  "step app_cfg app_crypto local_backend True demo_app3 demo_app4"
  "step app_cfg app_crypto local_backend True demo_app4 demo_left"
  "step app_cfg app_crypto local_backend True demo_app4 demo_deleted"
  "step app_cfg app_crypto local_backend True demo_deleted demo_after"
proof -
  have "1 \<notin> c_ws ` set (a_conns demo_app1)" by code_simp
  then show "step app_cfg app_crypto local_backend True demo_app1 demo_app2"
    unfolding demo_app2_def by (rule step.Open)
qed (unfold demo_app1_def demo_app3_def demo_app4_def demo_left_def demo_deleted_def demo_after_def demo_serve_def demo_post_def,
    (rule step.Request step.Receive, simp add: aborts_confirmed_def | rule step.Receive | simp add: fresh_app_def demo_app0_def)+)

lemma demo_reach:
  "demo_reachable demo_app1" "demo_reachable demo_app2" "demo_reachable demo_app3" "demo_reachable demo_app4"
  "demo_reachable demo_left" "demo_reachable demo_deleted"
proof -
  show r: "demo_reachable demo_app1" by (rule reachable.Step [OF reachable.Fresh [OF demo_steps(1)] demo_steps(2)])
  show r: "demo_reachable demo_app2" by (rule reachable.Step [OF r demo_steps(3)])
  show r: "demo_reachable demo_app3" by (rule reachable.Step [OF r demo_steps(4)])
  show r: "demo_reachable demo_app4" by (rule reachable.Step [OF r demo_steps(5)])
  show "demo_reachable demo_left" by (rule reachable.Step [OF r demo_steps(6)])
  show "demo_reachable demo_deleted" by (rule reachable.Step [OF r demo_steps(7)])
qed

lemma demo_runs: "demo_runs demo_app4 demo_deleted" "demo_runs demo_deleted demo_after"
  by (rule runs.Go [OF runs.Stay], rule demo_steps)+

lemma app_cfg_ok: "cfg_ok app_cfg"
  by code_simp

lemmas demo_hyps = local_store.object_store_axioms app_cfg_ok

section \<open>What the run leads to\<close>

definition app_room :: room where
  "app_room = demo_room_full\<lparr>r_access_token_hash := ''41'', r_owner_token_hash := ''42''\<rparr>"

definition app_session :: session_rec where
  "app_session = demo_session\<lparr>s_session_token_hash := ''42''\<rparr>"

definition app_conn :: conn where
  "app_conn = \<lparr>c_ws = 1, c_session = app_session, c_room = app_room\<lparr>r_storage_used_bytes := 0, r_file_count := 0\<rparr>\<rparr>"

lemma app_room_facts:
  "r_id app_room = 1" "r_status app_room = ACTIVE" "r_user_count app_room = 1" "r_storage_used_bytes app_room = 3"
  "r_file_count app_room = 1"
  by (simp_all add: app_room_def demo_room_full_def demo_room_def)

lemma demo_app4_is:
  "let w = demo_app4; d = w_saved w in rooms d = [app_room] \<and> sessions d = [app_session] \<and> files d = [demo_file] \<and>
     map m_body (messages d) = [''hi''] \<and> a_conns w = [app_conn] \<and> registry (a_sockets w) = [(''room:1'', [(1, [1])])] \<and>
     w_now w = 0 \<and> gone (a_sockets w) = [] \<and> w_db w = d"
  by code_simp

lemmas demo_app4 = demo_app4_is [unfolded Let_def, THEN conjunct1] demo_app4_is [unfolded Let_def, THEN conjunct2]

lemma demo_left_is:
  "let w = demo_left in map r_user_count (rooms (w_saved w)) = [0] \<and> map s_expires_at (sessions (w_saved w)) = [0] \<and>
     a_conns w = []"
  by code_simp

lemma demo_deleted_is:
  "let w = demo_deleted; d = w_saved w in rooms d = [app_room\<lparr>r_status := DELETED\<rparr>] \<and> sessions d = [] \<and> files d = [] \<and> messages d = []"
  by code_simp

end
