(* ===== verification/Guarantees.thy ===== *)
theory Guarantees
  imports System
begin

text \<open>
  What a single request or a single turn guarantees: who may call what, what a refusal leaves behind,
  what a broadcast reaches, what ends with a connection. The lemmas are rules on the endpoints; the
  properties instantiate them.
\<close>

section \<open>Reading requests\<close>

text \<open>A request as the client sees it: \<open>serve\<close> in a session of its own.\<close>

lemma handle_request_wp:
  assumes "wp (serve cfg cr bk req call) Q E (w\<lparr>w_db := w_saved w\<rparr>)"
    and "handle_request cfg cr bk req call w = (res, w')"
  shows "(\<exists>x t. res = Reply x \<and> Q x t \<and> w' = t\<lparr>w_db := w_saved t\<rparr>) \<or>
    (\<exists>e t. (\<forall>x. res \<noteq> Reply x) \<and> res = respond (Inl e) \<and> E e t \<and> w' = t\<lparr>w_db := w_saved t\<rparr>)"
  using assms by (auto simp: handle_request_def with_session_def wp_def respond_def split: prod.splits sum.splits if_splits)

lemma wp_reply [wp_simps]: "wp (reply_with f m) Q E w = wp m (\<lambda>x. Q (f x)) E w"
  by (simp add: reply_with_def wp_bind wp_ret)

text \<open>A dependency that only looks.\<close>

definition looks :: "('s, 'e, 'a) prog \<Rightarrow> bool" where
  "looks m \<longleftrightarrow> (\<forall>w. snd (m w) = w)"

lemma looks_bind: "looks m \<Longrightarrow> (\<And>x. looks (f x)) \<Longrightarrow> looks (bind m f)"
  by (simp add: looks_def bind_def split: prod.split sum.split) (metis snd_conv)

lemma looks_seq: "looks m \<Longrightarrow> looks n \<Longrightarrow> looks (seq m n)"
  unfolding seq_def by (rule looks_bind)

lemma looks_leaf:
  "looks (ret x)" "looks (raise e)" "looks (gets f)" "looks utcnow" "looks (query q)" "looks (of_sum r)" "looks (guard b e)"
  by (auto simp: looks_def ret_def raise_def gets_def utcnow_def query_def of_sum_def guard_def split: sum.split)

lemma looks_lookups:
  "looks (find_room P)" "looks (get_by_token_hash h)" "looks (get_file_by_id i)"
  by (auto simp: find_room_def get_by_token_hash_def get_file_by_id_def intro!: looks_bind looks_leaf)

lemma looks_deps:
  "looks (require_session cfg cr req)" "looks (get_room_by_token cr tk)" "looks (require_member cfg cr req tk)"
  "looks (require_room_owner cfg cr req tk)"
  by (auto simp: require_session_def session_from_cookies_def get_room_by_token_def get_room_by_access_token_def
      require_member_def require_room_owner_def load_session_eq Let_def
      intro!: looks_bind looks_seq looks_leaf looks_lookups split: option.split)

definition is_read :: "http_call \<Rightarrow> bool" where
  "is_read call \<longleftrightarrow> (case call of GetCsrf r \<Rightarrow> True | GetRoom tk \<Rightarrow> True | GetFiles tk \<Rightarrow> True | GetUpload tk i \<Rightarrow> True
     | GetMessages tk \<Rightarrow> True | _ \<Rightarrow> False)"

lemma looks_reply: "looks m \<Longrightarrow> looks (reply_with f m)"
  unfolding reply_with_def by (intro looks_bind looks_leaf)

lemma looks_endpoints:
  "looks (api_get_room cr tk)" "looks (api_list_files cfg cr req tk)" "looks (api_upload_status cfg cr req tk i)"
  "looks (api_list_messages cfg cr req tk)"
proof -
  have leaves: "looks (list_confirmed_files i)" "looks (list_messages cfg i l)" "looks (pending_session room i)" for i l room
    by (auto simp: list_confirmed_files_def list_messages_def list_room_messages_def pending_session_def
        intro!: looks_bind looks_leaf looks_lookups split: option.split)
  show "looks (api_get_room cr tk)" "looks (api_list_files cfg cr req tk)" "looks (api_upload_status cfg cr req tk i)"
    "looks (api_list_messages cfg cr req tk)"
    by (unfold api_get_room_def api_list_files_def api_upload_status_def api_list_messages_def split_def)
      (rule looks_bind looks_leaf looks_deps leaves)+
qed

lemma read_looks: "is_read call \<Longrightarrow> looks (serve cfg cr bk req call)"
  unfolding is_read_def by (cases call; simp only: serve.simps http_call.case refl; intro looks_reply looks_endpoints looks_leaf)

lemma looks_handled:
  fixes w :: "('st, 'z) app_scheme"
  assumes "looks (serve cfg cr bk req call :: ('st, 'z, reply) api)"
  shows "snd (handle_request cfg cr bk req call w) = w\<lparr>w_db := w_saved w\<rparr>"
proof -
  obtain r t where m: "serve cfg cr bk req call (w\<lparr>w_db := w_saved w\<rparr>) = (r, t)" by (cases "serve cfg cr bk req call (w\<lparr>w_db := w_saved w\<rparr>)")
  have "t = w\<lparr>w_db := w_saved w\<rparr>" using assms [unfolded looks_def, rule_format, of "w\<lparr>w_db := w_saved w\<rparr>"] m by simp
  with m show ?thesis by (simp add: handle_request_def with_session_def)
qed

section \<open>Refused requests\<close>

text \<open>The calls whose method is not GET, and so should ask for a CSRF token. (A download is a GET, and
  counts itself.) The chunk upload is one of them, but does not ask.\<close>

definition needs_csrf :: "http_call \<Rightarrow> bool" where
  "needs_csrf call \<longleftrightarrow> \<not> is_read call \<and> (case call of GetFile tk i \<Rightarrow> False | _ \<Rightarrow> True)"

definition chunk_call :: "http_call \<Rightarrow> bool" where
  "chunk_call call \<longleftrightarrow> (case call of PutChunk tk i n c \<Rightarrow> True | _ \<Rightarrow> False)"

lemma refused_after:
  assumes "looks m"
  shows "wp (bind m (\<lambda>(s, r). seq (of_sum (Inl e)) (g s r))) (\<lambda>_ _. False) (\<lambda>_ t. t = w) w"
proof -
  obtain r t where m: "m w = (r, t)" by (cases "m w")
  have "t = w" using assms unfolding looks_def by (metis m snd_conv)
  with m show ?thesis
    by (auto simp: wp_bind wp_def of_sum_def seq_def bind_def raise_def split: sum.split prod.split)
qed

lemma csrf_refused:
  assumes "validate_csrf cfg cr req = Inl e" and "needs_csrf call" and "\<not> chunk_call call"
  shows "wp (serve cfg cr bk req call) (\<lambda>_ _. False) (\<lambda>_ t. t = w) w"
proof -
  have first: "wp (seq (of_sum (Inl e)) m) (\<lambda>_ _. False) (\<lambda>_ t. t = w) w" for m
    by (simp add: wp_simps)
  show ?thesis
    using assms(2,3)
    by (cases call) (auto simp: needs_csrf_def chunk_call_def is_read_def wp_reply api_create_room_def api_join_room_def api_join_by_code_def
        api_patch_room_def api_delete_room_def api_upload_def api_delete_file_def api_create_upload_def api_complete_upload_def
        api_abort_upload_def api_delete_message_def assms(1) intro!: first refused_after looks_deps)
qed


lemma csrf_header_unused:
  "client_ip (req\<lparr>q_csrf_header := h\<rparr>) = client_ip req"
  "require_member cfg cr (req\<lparr>q_csrf_header := h\<rparr>) tk = require_member cfg cr req tk"
  by (simp_all add: client_ip_def require_member_def require_session_def session_from_cookies_def cookie_def)

lemma chunk_ignores_csrf:
  assumes "chunk_call call"
  shows "handle_request cfg cr bk (req\<lparr>q_csrf_header := h\<rparr>) call w = handle_request cfg cr bk req call w"
  using assms by (cases call) (simp_all add: chunk_call_def handle_request_def api_upload_chunk_def csrf_header_unused)


section \<open>Who may call\<close>

text \<open>The room whose members alone may call, and whether only its owner may.\<close>

definition member_call :: "http_call \<Rightarrow> string option" where
  "member_call call = (case call of PatchRoom tk s b \<Rightarrow> Some tk | DeleteRoom tk \<Rightarrow> Some tk | PostFile tk k f c b \<Rightarrow> Some tk
     | GetFiles tk \<Rightarrow> Some tk | GetFile tk i \<Rightarrow> Some tk | DeleteFile tk i \<Rightarrow> Some tk | PostUpload tk k b \<Rightarrow> Some tk
     | GetUpload tk i \<Rightarrow> Some tk | PutChunk tk i n c \<Rightarrow> Some tk | CompleteUpload tk i n \<Rightarrow> Some tk
     | DeleteUpload tk i \<Rightarrow> Some tk | GetMessages tk \<Rightarrow> Some tk | DeleteMessage tk i \<Rightarrow> Some tk | _ \<Rightarrow> None)"

definition owner_call :: "http_call \<Rightarrow> bool" where
  "owner_call call \<longleftrightarrow> (case call of PatchRoom tk s b \<Rightarrow> True | DeleteRoom tk \<Rightarrow> True | _ \<Rightarrow> False)"

definition authorised :: "settings \<Rightarrow> crypto \<Rightarrow> request \<Rightarrow> string \<Rightarrow> int \<Rightarrow> database \<Rightarrow> session_rec \<Rightarrow> room \<Rightarrow> bool" where
  "authorised cfg cr req tk now d s r \<longleftrightarrow> s \<in> set (sessions d) \<and> r \<in> set (rooms d) \<and> s_room_id s = r_id r \<and>
     now < s_expires_at s \<and> r_access_token_hash r = hash_token cr tk \<and>
     (\<exists>tok. cookie req (session_cookie_name cfg) = Some tok \<and> tok \<noteq> [] \<and> s_session_token_hash s = hash_token cr tok)"

lemma member_first:
  assumes "\<And>s r. authorised cfg cr req tk (w_now w) (w_db w) s r \<Longrightarrow> P"
  shows "wp (bind (require_member cfg cr req tk) f) (\<lambda>_ _. P) (\<lambda>_ _. True) w"
  unfolding wp_bind
  by (rule require_member_wp, rule wp_any) (use assms in \<open>auto simp: authorised_def truthy_def split: option.splits\<close>)

lemma owner_first:
  assumes "\<And>s r. authorised cfg cr req tk (w_now w) (w_db w) s r \<Longrightarrow> s_role s = OWNER \<Longrightarrow> P"
  shows "wp (bind (require_room_owner cfg cr req tk) f) (\<lambda>_ _. P) (\<lambda>_ _. True) w"
  unfolding wp_bind
  by (rule require_room_owner_wp, rule wp_any) (use assms in \<open>auto simp: authorised_def truthy_def split: option.splits\<close>)

lemma member_call_wp:
  assumes "member_call call = Some tk"
  shows "wp (serve cfg cr bk req call)
    (\<lambda>_ _. \<exists>s r. authorised cfg cr req tk (w_now w) (w_db w) s r \<and> (owner_call call \<longrightarrow> s_role s = OWNER)) (\<lambda>_ _. True) w"
  by (insert assms, cases call; simp only: member_call_def owner_call_def http_call.case serve.simps wp_reply option.distinct option.inject
      api_patch_room_def api_delete_room_def api_upload_def api_list_files_def api_download_def api_delete_file_def
      api_create_upload_def api_upload_status_def api_upload_chunk_def api_complete_upload_def api_abort_upload_def
      api_list_messages_def api_delete_message_def; (rule owner_first member_first, auto)?)

section \<open>Joining\<close>

text \<open>The errors a join by code may show. What went wrong with the room is not among them.\<close>

definition join_error :: "exc \<Rightarrow> bool" where
  "join_error e \<longleftrightarrow> is_py e \<or> e = join_failed \<or> (case e of Drop c d \<Rightarrow> c = CSRFValidationFailed \<or> c = RateLimited \<or> is_instance c RoomFull | Py x \<Rightarrow> False)"

lemma hide_reason_join_error: "join_error (hide_reason e)"
  by (simp add: join_error_def hide_reason_def is_py_def split: exc.split)

lemma validate_csrf_error: "validate_csrf cfg cr req = Inl e \<Longrightarrow> join_error e"
  by (auto simp: validate_csrf_def Let_def init_error_def join_error_def split: if_splits)

lemma join_by_code_error:
  "wp (api_join_by_code cfg cr rnd crnd req body) (\<lambda>_ _. True) (\<lambda>e _. join_error e) w"
proof -
  have csrf: "wp (of_sum (validate_csrf cfg cr req)) (\<lambda>_ _. True) (\<lambda>e _. join_error e) v" for v
    by (simp add: wp_of_sum validate_csrf_error split: sum.split)
  have body: "wp (of_sum (check_join_by_code body)) (\<lambda>_ _. True) (\<lambda>e _. join_error e) v" for v
    by (simp add: wp_of_sum check_join_by_code_def checked_def join_error_def is_py_def split: sum.split)
  have lim: "wp (limit_check cfg sc key l) (\<lambda>_ _. True) (\<lambda>e _. join_error e) v" for sc key l v
    by (rule limit_check_wp) (simp_all add: join_error_def init_error_def)
  have look: "wp (get_room_by_code rc) (\<lambda>_ _. True) (\<lambda>e _. join_error e) v" for rc v
    by (simp add: get_room_by_code_def find_room_def wp_simps scalar_one_or_none_def join_error_def is_py_def split: sum.split list.split)
  have tried: "wp (try_except m (\<lambda>e. raise (hide_reason e))) (\<lambda>_ _. True) (\<lambda>e _. join_error e) v" for m :: "('a, 'b, 'c) api" and v
    by (simp add: wp_try wp_raise hide_reason_join_error wp_any)
  show ?thesis
    unfolding api_join_by_code_def wp_seq wp_bind
    by (rule wp_mono [OF csrf], rule wp_mono [OF body], rule wp_mono [OF lim], rule wp_mono [OF look], rule wp_mono [OF tried])
      (auto simp: wp_simps Let_def orm_room_def split: prod.split)
qed


section \<open>Background jobs\<close>

lemma cleanup_room_wins:
  assumes "room \<in> set (rooms (w_db w))" and "r_status room = ACTIVE \<or> r_status room = EXPIRED"
  shows "wp (cleanup_room bk room) (\<lambda>won _. won) (\<lambda>_ _. True) w"
proof -
  have tail: "wp (seq (delete_content bk i) (bind (mark_room_deleted i) (\<lambda>_. ret True))) (\<lambda>won _. won) (\<lambda>_ _. True) v" for i v
    unfolding wp_seq wp_bind wp_ret by (simp add: wp_def split: prod.split sum.split)
  have there: "\<exists>r \<in> set (rooms d). r_id r = r_id room \<and> r_status r = EXPIRED"
    if "d = (if r_status room = ACTIVE then marked (r_id room) ACTIVE EXPIRED n (w_db w) else w_db w)" for d n
  proof (cases "r_status room = ACTIVE")
    case True
    with assms(1) that show ?thesis
      by (intro bexI [of _ "room\<lparr>r_status := EXPIRED, r_updated_at := n\<rparr>"]) (auto simp: marked_def set_upd intro!: image_eqI [of _ _ room])
  next
    case False
    with assms that show ?thesis by (intro bexI [of _ room]) auto
  qed
  show ?thesis
  proof (cases "r_status room = ACTIVE")
    case True
    then have e: "(\<exists>r \<in> set (rooms (marked (r_id room) ACTIVE EXPIRED n (w_db w))). r_id r = r_id room \<and> r_status r = EXPIRED) = True" for n
      using there by simp
    show ?thesis
      unfolding cleanup_room_def if_P [OF True] wp_seq [of "bind _ _"] wp_bind wp_marks wp_ret
      using e [of "w_now w"] by (auto simp: tail)
  next
    case False
    then have e: "(\<exists>r \<in> set (rooms (w_db w)). r_id r = r_id room \<and> r_status r = EXPIRED) = True" using there by simp
    show ?thesis
      unfolding cleanup_room_def if_not_P [OF False] wp_seq [of "ret _"] wp_bind wp_marks wp_ret
      using e by (auto simp: tail)
  qed
qed

lemma find_by_id:
  assumes "\<And>room. room \<in> set (rooms (w_db w)) \<Longrightarrow> r_id room = i \<Longrightarrow> Q (Some room) w"
    and "\<forall>r \<in> set (rooms (w_db w)). r_id r \<noteq> i \<Longrightarrow> Q None w" and "\<And>e. E e w"
  shows "wp (get_room_by_id i) Q E w"
proof (cases "scalar_one_or_none (sel (\<lambda>r. r_id r = i) (rooms (w_db w)))")
  case (Inl e)
  then show ?thesis using assms(3) by (simp add: get_room_by_id_def find_room_def wp_simps)
next
  case (Inr found)
  show ?thesis
  proof (cases found)
    case None
    with Inr have "\<forall>r \<in> set (rooms (w_db w)). r_id r \<noteq> i" by (simp add: scalar_None sel_empty)
    with Inr None assms(2) show ?thesis by (simp add: get_room_by_id_def find_room_def wp_simps)
  next
    case (Some room)
    with Inr have "room \<in> set (rooms (w_db w))" "r_id room = i" by (auto dest: scalar_sel)
    with Inr Some assms(1) show ?thesis by (simp add: get_room_by_id_def find_room_def wp_simps)
  qed
qed

lemma room_cleanup_job_wp:
  fixes v :: "('st, 'z) app_scheme"
  assumes g: "good exact cfg v" and same: "w_db v = w_saved v" and i: "payload_get p ''room_id'' = JInt i"
  shows "wp (run_room_cleanup bk p)
    (\<lambda>_ t. good exact cfg t \<and> w_db t = w_saved t \<and>
      (\<forall>r \<in> set (rooms (w_saved t)). r_id r = i \<longrightarrow> r_status r = DELETING \<or> r_status r = DELETED)) (\<lambda>_ _. True) v"
proof -
  have v: "v\<lparr>w_db := w_saved v\<rparr> = v" using same by (metis world.surjective world.update_convs(2))
  have inv: "db_inv exact cfg (w_seq v) (w_db v)" using g by (simp add: good_def)
  let ?done = "\<lambda>d. \<forall>r \<in> set (rooms d). r_id r = i \<longrightarrow> r_status r = DELETING \<or> r_status r = DELETED"
  let ?P = "\<lambda>_ t. good exact cfg t \<and> ?done (w_db t)"
  have torn: "wp (cleanup_room bk room) ?P (\<lambda>_ _. True) v" if room: "room \<in> set (rooms (w_db v))" "r_id room = i" for room
  proof (cases "r_status room = ACTIVE \<or> r_status room = EXPIRED")
    case True
    have "wp (delete_all bk ks) (\<lambda>_ w'. True \<and> (\<exists>st. w' = w1\<lparr>w_store := st\<rparr>)) (\<lambda>_ _. True) w1" for ks and w1 :: "('st, 'z) app_scheme"
      by (auto intro: wp_mono [OF delete_all_frame])
    from wp_conj [OF cleanup_room_wp [OF g, where S = "\<lambda>_ _. True", OF this] cleanup_room_wins [OF room(1) True]]
    show ?thesis by (rule wp_mono) (use room(2) in auto)
  next
    case False
    then have "r_status room = DELETING \<or> r_status room = DELETED" by (cases "r_status room") auto
    then have "?done (w_db v)" using room_by_id [OF inv room(1)] room(2) by (metis (full_types))
    with g room(2) show ?thesis by (simp add: wp_def cleanup_room_loses)
  qed
  have inner: "wp (bind (get_room_by_id i) (\<lambda>found. case found of
           None \<Rightarrow> ret ()
         | Some room \<Rightarrow>
             if r_status room = DELETED then ret ()
             else bind (cleanup_room bk room) (\<lambda>changed.
               seq commit
               (if changed then on_sockets (broadcast (ws_channel room) RoomExpiredEvent []) else ret ()))))
      (\<lambda>_ t. good exact cfg t \<and> ?done (w_saved t) \<and> w_db t = w_saved t) (\<lambda>_ _. True) v"
    unfolding wp_bind
  proof (rule find_by_id)
    show "True" for e :: exc by simp
  next
    show "\<forall>r \<in> set (rooms (w_db v)). r_id r \<noteq> i \<Longrightarrow> wp (case None of None \<Rightarrow> ret () | Some room \<Rightarrow> f room)
       (\<lambda>_ t. good exact cfg t \<and> ?done (w_saved t) \<and> w_db t = w_saved t) (\<lambda>_ _. True) v" for f
      using g same by (simp add: wp_ret)
  next
    fix room
    assume room: "room \<in> set (rooms (w_db v))" "r_id room = i"
    show "wp (case Some room of None \<Rightarrow> ret () | Some room \<Rightarrow> if r_status room = DELETED then ret ()
        else bind (cleanup_room bk room) (\<lambda>changed. seq commit
          (if changed then on_sockets (broadcast (ws_channel room) RoomExpiredEvent []) else ret ())))
       (\<lambda>_ t. good exact cfg t \<and> ?done (w_saved t) \<and> w_db t = w_saved t) (\<lambda>_ _. True) v"
    proof (cases "r_status room = DELETED")
      case True
      then have "?done (w_db v)" using room_by_id [OF inv room(1)] room(2) by (metis (full_types))
      with True g same show ?thesis by (simp add: wp_ret)
    next
      case False
      have "wp (cleanup_room bk room) (\<lambda>won. wp (seq commit
          (if won then on_sockets (broadcast (ws_channel room) RoomExpiredEvent []) else ret ()))
            (\<lambda>_ t. good exact cfg t \<and> ?done (w_saved t) \<and> w_db t = w_saved t) (\<lambda>_ _. True)) (\<lambda>_ _. True) v"
        by (rule wp_mono [OF torn [OF room]]) (auto simp: wp_simps good_def)
      with False show ?thesis by (simp add: wp_bind)
    qed
  qed
  show ?thesis
    using inner by (auto simp: run_room_cleanup_def Let_def i bind_int_def wp_with_session wp_bind wp_of_sum v good_def elim!: wp_mono)
qed


section \<open>A returning browser\<close>

definition refreshed :: "settings \<Rightarrow> int \<Rightarrow> session_rec \<Rightarrow> session_rec" where
  "refreshed cfg now s = s\<lparr>s_expires_at := now + seconds (session_ttl_seconds cfg), s_last_seen_at := now, s_updated_at := now\<rparr>"

lemma refreshed_fun: "refreshed cfg now = (\<lambda>s. s\<lparr>s_expires_at := now + seconds (session_ttl_seconds cfg), s_last_seen_at := now, s_updated_at := now\<rparr>)"
  by (simp add: fun_eq_iff refreshed_def)

lemma live_cookie_found:
  assumes g: "good exact cfg w" and s: "s \<in> set (sessions (w_db w))" "w_now w < s_expires_at s" "s_session_token_hash s = h"
  shows "wp (get_by_token_hash h) (\<lambda>found t. found = Some s \<and> t = w) (\<lambda>_ _. False) w"
proof -
  have "distinct (map s_session_token_hash (sessions (w_db w)))" using g by (simp add: good_def db_inv_def tables_ok_def uniques_ok_def)
  from sel_key [OF this s(1)] have "sel (\<lambda>s. s_session_token_hash s = h \<and> s_expires_at s > w_now w) (sessions (w_db w)) = [s]"
    using s(2,3) unfolding sel_def filter_filter [symmetric, of _ "\<lambda>s. s_session_token_hash s = h"]
    by (simp flip: filter_filter add: conj_commute)
  then show ?thesis by (simp add: get_by_token_hash_def wp_simps)
qed

lemma live_cookie_establishes:
  fixes w :: "('st, 'z) app_scheme"
  assumes g: "good exact cfg w" and s: "s \<in> set (sessions (w_db w))" "w_now w < s_expires_at s"
    and tok: "tok \<noteq> []" "s_session_token_hash s = hash_token cr tok" and room: "s_room_id s = r_id room"
  shows "wp (establish_session cfg cr rnd crnd room body (Some tok))
    (\<lambda>r t. r = ((refreshed cfg (w_now w) s, tok), []) \<and>
      t = w\<lparr>w_db := upd_sessions (\<lambda>t. s_id t = s_id s) (refreshed cfg (w_now w)) (w_db w)\<rparr>) (\<lambda>_ _. False) w"
proof -
  have "truthy (Some tok)" using tok(1) by (simp add: truthy_def)
  then show ?thesis
    unfolding establish_session_def wp_bind if_P [OF \<open>truthy (Some tok)\<close>] option.sel
    by (intro wp_mono [OF live_cookie_found [OF g s tok(2)]])
      (use s room in \<open>auto simp: refresh_session_def refreshed_fun wp_simps Let_def split: option.split\<close>)
qed

lemma live_cookie_joins:
  fixes w :: "('st, 'z) app_scheme"
  assumes g: "good exact cfg w" and s: "s \<in> set (sessions (w_db w))" "w_now w < s_expires_at s"
    and tok: "cookie req (session_cookie_name cfg) = Some tok" "tok \<noteq> []" "s_session_token_hash s = hash_token cr tok"
    and room: "room \<in> set (rooms (w_db w))" "r_access_token_hash room = hash_token cr tk" "s_room_id s = r_id room"
  shows "wp (api_join_room cfg cr rnd crnd req tk body)
    (\<lambda>(resp, cookies) t. cookies = [] \<and> jp_session_expires_at resp = w_now w + seconds (session_ttl_seconds cfg) \<and>
      jp_role resp = s_role s \<and> rooms (w_saved t) = rooms (w_db w) \<and>
      sessions (w_saved t) = upd (\<lambda>t. s_id t = s_id s) (refreshed cfg (w_now w)) (sessions (w_db w))) (\<lambda>_ _. True) w"
proof -
  have same: "r = room" if "r \<in> set (rooms (w_db w))" "r_access_token_hash r = hash_token cr tk" for r
    using distinct_key_unique [of r_access_token_hash "rooms (w_db w)" r room] g room that
    by (simp add: good_def db_inv_def tables_ok_def uniques_ok_def)
  let ?Q = "\<lambda>(resp, cookies) t. cookies = [] \<and> jp_session_expires_at resp = w_now w + seconds (session_ttl_seconds cfg) \<and>
      jp_role resp = s_role s \<and> rooms (w_saved t) = rooms (w_db w) \<and>
      sessions (w_saved t) = upd (\<lambda>t. s_id t = s_id s) (refreshed cfg (w_now w)) (sessions (w_db w))"
  have rest: "wp (bind (get_room_by_token cr tk) (\<lambda>room.
       bind (establish_session cfg cr rnd crnd room body' (cookie req (session_cookie_name cfg))) (\<lambda>((sess, token), cookies).
       seq commit
       (bind (orm_room room) (\<lambda>room. ret (make_join_response room sess token tk, cookies)))))) ?Q (\<lambda>_ _. True) (w\<lparr>a_limiter := l\<rparr>)"
    for body' l
  proof -
    let ?w = "w\<lparr>a_limiter := l\<rparr>"
    have gw: "good exact cfg ?w" using g by (simp add: good_def)
    have "wp (establish_session cfg cr rnd crnd room body' (Some tok)) (\<lambda>x. wp ((\<lambda>((sess, token), cookies).
       seq commit (bind (orm_room room) (\<lambda>room. ret (make_join_response room sess token tk, cookies)))) x) ?Q (\<lambda>_ _. True)) (\<lambda>_ _. True) ?w"
      by (rule wp_mono [OF live_cookie_establishes [OF gw _ _ tok(2,3) room(3)]])
        (use s in \<open>auto simp: wp_simps orm_room_def make_join_response_def refreshed_def\<close>)
    then have "wp (bind (establish_session cfg cr rnd crnd r body' (cookie req (session_cookie_name cfg))) (\<lambda>((sess, token), cookies).
       seq commit (bind (orm_room r) (\<lambda>room. ret (make_join_response room sess token tk, cookies))))) ?Q (\<lambda>_ _. True) ?w"
      if "r = room" for r using that tok(1) by (simp only: wp_bind)
    then show ?thesis
      unfolding wp_bind [of "get_room_by_token cr tk"] by (intro get_room_by_token_wp) (use same in auto)
  qed
  show ?thesis
    unfolding api_join_room_def wp_seq wp_bind [of "of_sum _"]
    by (auto simp: wp_of_sum intro!: limit_check_wp rest split: sum.split)
qed


section \<open>The life of a connection\<close>

definition ws_token :: "settings \<Rightarrow> ws_request \<Rightarrow> string option" where
  "ws_token cfg req = (if truthy (wr_token req) then wr_token req else map_of (wr_cookies req) (session_cookie_name cfg))"

lemma ws_auth_admits:
  "wp (ws_auth cfg cr req) (\<lambda>found t. t = w \<and> (\<forall>s room. found = Some (s, room) \<longrightarrow> admits s room w \<and>
      r_access_token_hash room = hash_token cr (wr_room_token req) \<and> truthy (ws_token cfg req) \<and>
      s_session_token_hash s = hash_token cr (the (ws_token cfg req)))) (\<lambda>_ _. True) w"
  unfolding ws_auth_def Let_def ws_token_def [symmetric]
  by (auto simp: get_by_token_hash_def get_room_by_access_token_def find_room_def wp_simps has_expired_def
      ensure_aware_def admits_def split: sum.split option.split datetime.split dest!: scalar_sel)

lemma ws_open_admits:
  "wp (ws_open cfg cr ws req) (\<lambda>res t. case res of
      Opened \<Rightarrow> \<exists>s room. admits s room w \<and> r_access_token_hash room = hash_token cr (wr_room_token req) \<and>
        truthy (ws_token cfg req) \<and> s_session_token_hash s = hash_token cr (the (ws_token cfg req))
    | Rejected c \<Rightarrow> c = 4401 \<and> t = w
    | Ended \<Rightarrow> True) (\<lambda>_ _. True) w"
  unfolding ws_open_def wp_bind
proof (rule wp_mono [OF ws_auth_admits])
  fix found t
  assume t: "t = w \<and> (\<forall>s room. found = Some (s, room) \<longrightarrow> admits s room w \<and>
      r_access_token_hash room = hash_token cr (wr_room_token req) \<and> truthy (ws_token cfg req) \<and>
      s_session_token_hash s = hash_token cr (the (ws_token cfg req)))"
  show "wp (case found of None \<Rightarrow> ret (Rejected 4401) | Some (s, room) \<Rightarrow> try_except
           (seq (on_sockets (connect (ws_channel room) (s_id s) ws))
           (seq (add_conn \<lparr>c_ws = ws, c_session = s, c_room = room\<rparr>)
           (seq (send_state cfg ws s room)
           (seq (on_sockets (broadcast (ws_channel room) (UserJoined (s_id s) (s_display_name s) (s_role s)) [s_id s]))
           (ret Opened)))))
           (\<lambda>e. seq (ws_leave ws s room (flush_failed e)) (ret Ended)))
     (\<lambda>res t. case res of
      Opened \<Rightarrow> \<exists>s room. admits s room w \<and> r_access_token_hash room = hash_token cr (wr_room_token req) \<and>
        truthy (ws_token cfg req) \<and> s_session_token_hash s = hash_token cr (the (ws_token cfg req))
    | Rejected c \<Rightarrow> c = 4401 \<and> t = w
    | Ended \<Rightarrow> True) (\<lambda>_ _. True) t"
  proof (cases found)
    case None
    with t show ?thesis by (simp add: wp_ret)
  next
    case (Some p)
    obtain s room where p: "found = Some (s, room)" using Some by (cases p) simp
    with t have "\<exists>s room. admits s room w \<and> r_access_token_hash room = hash_token cr (wr_room_token req) \<and>
        truthy (ws_token cfg req) \<and> s_session_token_hash s = hash_token cr (the (ws_token cfg req))" by blast
    then have opened: "(\<exists>s room. admits s room w \<and> r_access_token_hash room = hash_token cr (wr_room_token req) \<and>
        truthy (ws_token cfg req) \<and> s_session_token_hash s = hash_token cr (the (ws_token cfg req))) = True" by simp
    show ?thesis
      unfolding p option.case prod.case wp_try wp_seq wp_ret ws_result.case opened by simp
  qed
qed simp

text \<open>When the last connection of a session ends.\<close>

lemma last_hangup:
  fixes w :: "('st, 'z) app_scheme"
  assumes s: "sound d0 exact cfg w" and c: "c \<in> set (a_conns w)"
    and only: "\<And>k. k \<in> set (a_conns w) \<Longrightarrow> s_id (c_session k) = s_id (c_session c) \<Longrightarrow> k = c"
  shows "wp (ws_receive cfg (c_ws c) Hangup) (\<lambda>_ t. w_now t = w_now w \<and> a_conns t = others c (a_conns w) \<and>
      w_saved t = left_db (w_now w) (s_id (c_session c)) (r_id (c_room c)) (w_db w)) (\<lambda>_ _. False) w"
proof -
  have socks: "socks_ok w" and dist: "distinct (map c_ws (a_conns w))" using s by (simp_all add: sound_def socks_ok_def)
  have "find (\<lambda>k. c_ws k = c_ws c) (a_conns w) = Some c"
  proof -
    have "\<exists>k. find (\<lambda>k. c_ws k = c_ws c) (a_conns w) = Some k"
      using c by (metis (mono_tags, lifting) find_None_iff not_Some_eq)
    then obtain k where k: "find (\<lambda>k. c_ws k = c_ws c) (a_conns w) = Some k" by blast
    then have "k \<in> set (a_conns w)" "c_ws k = c_ws c" by (auto simp: find_Some_iff)
    with k distinct_key_unique [OF dist _ c] show ?thesis by simp
  qed
  moreover have "\<not> online (others c (a_conns w)) (s_id (c_session c))"
    using only by (auto simp: online_iff)
  then have "\<not> connected (ws_channel (c_room c)) (s_id (c_session c))
      (remove_socket (ws_channel (c_room c)) (s_id (c_session c)) (c_ws c) (registry (a_sockets w)))"
    using connected_without [OF socks disjI1 [OF c]] only by blast
  ultimately show ?thesis
    by (simp add: ws_receive_def ws_turn_def ws_leave_def Let_def drop_conn_def flush_failed_def wp_simps left_db_wp)
qed

lemma left_room:
  fixes w :: "('st, 'z) app_scheme"
  assumes s: "sound d0 exact cfg w" and c: "c \<in> set (a_conns w)"
    and r: "r \<in> set (rooms (w_saved w))" "r_id r = r_id (c_room c)" "r_status r \<noteq> DELETED"
  shows "0 < r_user_count r"
proof -
  have ok: "db_ok d0 exact cfg w (w_saved w)" using s by (simp add: sound_def steady_def)
  then have inv: "db_inv exact cfg (w_seq w) (w_saved w)" and k: "conn_ok (w_seq w) (w_saved w) c"
    and cap: "seats (online (a_conns w)) (w_now w) (r_id r) (w_saved w) \<le> r_user_count r"
    using c r by (auto simp: db_ok_def within_capacity_def)
  have "\<not> is_deleted (r_id r) (w_saved w)"
    using room_by_id [OF inv r(1)] r(3) by (metis is_deleted_def)
  with k r(2) have "has_session (s_id (c_session c)) (r_id r) (w_saved w)" by (auto simp: conn_ok_def)
  then obtain t where t: "t \<in> set (sessions (w_saved w))" "s_id t = s_id (c_session c)" "s_room_id t = r_id r"
    by (auto simp: has_session_def)
  then have "seated (online (a_conns w)) (w_now w) (r_id r) t" using c by (auto simp: seated_def online_iff)
  then have "0 < rowcount (seated (online (a_conns w)) (w_now w) (r_id r)) (sessions (w_saved w))"
    using t(1) by auto
  then have "0 < seats (online (a_conns w)) (w_now w) (r_id r) (w_saved w)"
    unfolding seats_def by (simp only: of_nat_0_less_iff)
  with cap show ?thesis by linarith
qed

lemma left_db_facts:
  assumes "r \<in> set (rooms d)" and "r_id r = i" and "0 < r_user_count r"
  shows "\<exists>r' \<in> set (rooms (left_db now sid i d)). r_id r' = i \<and> r_user_count r' = r_user_count r - 1"
    and "\<forall>s \<in> set (sessions (left_db now sid i d)). s_id s = sid \<longrightarrow> s_expires_at s = now"
proof -
  let ?f = "\<lambda>r. r\<lparr>r_user_count := r_user_count r - 1, r_updated_at := now\<rparr>"
  have "?f r \<in> set (rooms (left_db now sid i d))"
    using assms unfolding left_db_def upd_sessions_simps upd_rooms_simps set_upd by (intro image_eqI [of _ _ r]) simp_all
  then show "\<exists>r' \<in> set (rooms (left_db now sid i d)). r_id r' = i \<and> r_user_count r' = r_user_count r - 1"
    using assms(2) by (intro bexI [of _ "?f r"]) simp_all
  let ?g = "\<lambda>s. s\<lparr>s_expires_at := now, s_last_seen_at := now, s_updated_at := now\<rparr>"
  have "s_expires_at s = now" if s: "s \<in> set (sessions (left_db now sid i d))" "s_id s = sid" for s
  proof -
    from s(1) obtain t where "s = (if s_id t = sid then ?g t else t)"
      unfolding left_db_def upd_sessions_simps upd_rooms_simps set_upd by (rule imageE)
    with s(2) show ?thesis by (simp split: if_splits)
  qed
  then show "\<forall>s \<in> set (sessions (left_db now sid i d)). s_id s = sid \<longrightarrow> s_expires_at s = now" by blast
qed


section \<open>Chat\<close>

definition kept :: "conn \<Rightarrow> jvalue \<Rightarrow> ('st, 'z) app_scheme \<Rightarrow> message \<Rightarrow> ('st, 'z) app_scheme \<Rightarrow> bool" where
  "kept c payload w m t \<longleftrightarrow> (\<exists>b. vget payload ''body'' (VStr []) = Inr b \<and> m_body m = strip (py_str b)) \<and> messages (w_saved t) = messages (w_db w) @ [m] \<and> m_room_id m = r_id (c_room c) \<and>
     m_sender_session_id m = Some (s_id (c_session c)) \<and> m_body m \<noteq> []"

lemma kept_limiter [simp]: "kept c payload (w\<lparr>a_limiter := l\<rparr>) m t = kept c payload w m t"
  by (simp add: kept_def)

lemma message_kept:
  fixes w :: "('st, 'z) app_scheme"
  assumes g: "good exact cfg w" and o: "open_room (r_id (c_room c)) (w_db w)"
  shows "wp (bind (of_sum (vget payload ''body'' (VStr []))) (\<lambda>body.
                 bind (send_message cfg (c_room c) (c_session c) (py_str body)) (\<lambda>msg.
                 seq commit
                 (bind (create_audit_event (Some (r_id (c_room c))) ''MESSAGE_SENT'' None) (\<lambda>_.
                 seq commit (ret (Some msg)))))))
    (\<lambda>r t. a_sockets t = a_sockets w \<and> (\<exists>m. r = Some m \<and> kept c payload w m t))
    (\<lambda>e t. a_sockets t = a_sockets w \<and> (\<not> is_py e \<longrightarrow> messages (w_db t) = messages (w_db w))) w"
proof -
  let ?Q = "\<lambda>r t. a_sockets t = a_sockets w \<and> (\<exists>m. r = Some m \<and> kept c payload w m t)"
  let ?E = "\<lambda>e t. a_sockets t = a_sockets w \<and> (\<not> is_py e \<longrightarrow> messages (w_db t) = messages (w_db w))"
  have audit: "wp (create_audit_event (Some (r_id (c_room c))) ''MESSAGE_SENT'' None) (\<lambda>_. wp (seq commit (ret (Some m))) ?Q ?E) ?E v"
    if v: "a_sockets v = a_sockets w" "kept c payload w m (v\<lparr>w_saved := w_db v\<rparr>)" for m and v :: "('st, 'z) app_scheme"
  proof (rule wp_mono [OF wp_confined [OF audit_wp [where cfg = cfg and exact = exact] confined.frame_repositories(2)]])
    fix x t
    assume t: "((good exact cfg v \<longrightarrow> good exact cfg t) \<and> w_db t = (w_db v)\<lparr>audit_events := audit_events (w_db v) @ [x]\<rparr> \<and>
       w_store t = w_store v \<and> w_now t = w_now v) \<and> confined v t"
    then have "a_sockets t = a_sockets w" using confined_parts [of v t] v(1) by simp
    moreover have "kept c payload w m (t\<lparr>w_saved := w_db t\<rparr>)" using v(2) t by (simp add: kept_def)
    ultimately show "wp (seq commit (ret (Some m))) ?Q ?E t" by (simp add: wp_simps)
  next
    fix e t
    assume "(is_py e \<and> (good exact cfg v \<longrightarrow> good exact cfg t) \<and> w_db t = w_db v \<and> w_store t = w_store v) \<and> confined v t"
    then show "?E e t" using confined_parts [of v t] v(1) by simp
  qed
  have send: "wp (send_message cfg (c_room c) (c_session c) b) (\<lambda>msg. wp (seq commit
        (bind (create_audit_event (Some (r_id (c_room c))) ''MESSAGE_SENT'' None) (\<lambda>_. seq commit (ret (Some msg))))) ?Q ?E) ?E w"
    if body: "vget payload ''body'' (VStr []) = Inr bv" "b = py_str bv" for b bv
  proof (rule wp_mono [OF wp_confined [OF send_message_wp [OF g o] confined.frame_messages(1)]])
    fix m t
    assume t: "(good exact cfg t \<and> messages (w_db t) = messages (w_db w) @ [m] \<and> m_body m = strip b \<and> m_body m \<noteq> [] \<and>
       int (length (m_body m)) \<le> max_message_length cfg \<and> m_room_id m = r_id (c_room c) \<and>
       m_sender_session_id m = Some (s_id (c_session c)) \<and> m_created_at m = w_now w) \<and> confined w t"
    let ?t = "t\<lparr>w_saved := w_db t\<rparr>"
    have "kept c payload w m (?t\<lparr>w_saved := w_db ?t\<rparr>)" "a_sockets ?t = a_sockets w"
      using t body confined_parts [of w t] by (auto simp: kept_def)
    from audit [OF this(2,1)]
    show "wp (seq commit (bind (create_audit_event (Some (r_id (c_room c))) ''MESSAGE_SENT'' None) (\<lambda>_. seq commit (ret (Some m))))) ?Q ?E t"
      by (simp add: wp_commit wp_seq [of commit "bind _ _"] wp_bind)
  next
    fix e t
    assume "(good exact cfg t \<and> w_db t = w_db w) \<and> confined w t"
    then show "?E e t" using confined_parts [of w t] by simp
  qed
  show ?thesis
    unfolding wp_bind [of "of_sum _"] wp_bind [of "send_message _ _ _ _"] using send
    by (simp add: wp_of_sum split: sum.split)
qed

text \<open>The answer to a refused message goes to its sender alone.\<close>

definition answered :: "conn \<Rightarrow> ('st, 'z) app_scheme \<Rightarrow> ('st, 'z) app_scheme \<Rightarrow> bool" where
  "answered c w t \<longleftrightarrow> messages (w_db t) = messages (w_db w) \<and> registry (a_sockets t) = registry (a_sockets w) \<and>
     (\<exists>evs. outbox (a_sockets t) = outbox (a_sockets w) @ evs \<and> (\<forall>(s, ev) \<in> set evs. s = c_ws c \<and> (\<exists>cd det. ev = ErrorEvent cd det)))"

lemma answered_limiter [simp]: "answered c (w\<lparr>a_limiter := l\<rparr>) t = answered c w t"
  by (simp add: answered_def)

definition announced :: "conn \<Rightarrow> message \<Rightarrow> ('st, 'z) app_scheme \<Rightarrow> ('st, 'z) app_scheme \<Rightarrow> bool" where
  "announced c m w t \<longleftrightarrow> outbox (a_sockets t) = outbox (a_sockets w) @ map (\<lambda>s. (s, ChatMessageSent (view_message m)))
     (recipients [] (gone (a_sockets w)) (sessions_of (ws_channel (c_room c)) (registry (a_sockets w))))"

lemma send_error_answers:
  assumes "a_sockets v = a_sockets w" and "messages (w_db v) = messages (w_db w)" and "\<And>t. answered c w t \<Longrightarrow> Q () t"
  shows "wp (send_error (c_ws c) cd det) Q E v"
proof -
  have "answered c w v" using assms(1,2) by (simp add: answered_def)
  moreover have "answered c w (v\<lparr>a_sockets := (a_sockets v)\<lparr>outbox := outbox (a_sockets v) @ [(c_ws c, ErrorEvent cd det)]\<rparr>\<rparr>)"
    using assms(1,2) by (simp add: answered_def)
  ultimately show ?thesis using assms(3) by (simp add: send_error_def wp_simps)
qed

lemma chat_send_outcome:
  fixes w :: "('st, 'z) app_scheme"
  assumes g: "good exact cfg w" and o: "open_room (r_id (c_room c)) (w_db w)"
  shows "wp (chat_send cfg c payload) (\<lambda>_ t. answered c w t \<or> (\<exists>m. kept c payload w m t \<and> announced c m w t)) (\<lambda>_ _. True) w"
proof -
  let ?Q = "\<lambda>_ t. answered c w t \<or> (\<exists>m. kept c payload w m t \<and> announced c m w t)"
  have announce: "wp (on_sockets (broadcast (ws_channel (c_room c)) (ChatMessageSent (view_message m)) [])) ?Q (\<lambda>_ _. True) t"
    if "a_sockets t = a_sockets w" "kept c payload w m t" for m t
    using that by (auto simp: wp_simps json_serializable_def announced_def kept_def)
  have admitted: "wp (bind (try_except
                (bind (of_sum (vget payload ''body'' (VStr []))) (\<lambda>body.
                 bind (send_message cfg (c_room c) (c_session c) (py_str body)) (\<lambda>msg.
                 seq commit
                 (bind (create_audit_event (Some (r_id (c_room c))) ''MESSAGE_SENT'' None) (\<lambda>_.
                 seq commit (ret (Some msg)))))))
                (\<lambda>e. case e of
                   Drop cl d \<Rightarrow> seq (send_error (c_ws c) (error_code cl) (VStr d)) (ret None)
                 | Py x \<Rightarrow> raise (Py x)))
           (\<lambda>sent. case sent of
              None \<Rightarrow> ret ()
            | Some msg \<Rightarrow> on_sockets (broadcast (ws_channel (c_room c)) (ChatMessageSent (view_message msg)) []))) ?Q (\<lambda>_ _. True) (w\<lparr>a_limiter := l\<rparr>)"
    for l
  proof -
    let ?w = "w\<lparr>a_limiter := l\<rparr>"
    have "good exact cfg ?w" "open_room (r_id (c_room c)) (w_db ?w)" using g o by (simp_all add: good_def)
    from message_kept [OF this, of payload] show ?thesis
      unfolding wp_bind [of "try_except _ _"] wp_try
      by (elim wp_mono) (auto simp: wp_ret wp_raise wp_seq is_py_def intro!: announce send_error_answers split: exc.split)
  qed
  have limited: "wp (bind (try_except
             (seq (limit_check cfg scope key lim) (ret True))
             (\<lambda>e. case e of
                Drop cl d \<Rightarrow> if is_instance cl RateLimited
                  then seq (send_error (c_ws c) ''CHAT_RATE_LIMITED'' (VStr ''Too many messages; slow down'')) (ret False)
                  else raise (Drop cl d)
              | Py x \<Rightarrow> raise (Py x)))
        (\<lambda>admitted. if \<not> admitted then ret () else m)) ?Q (\<lambda>_ _. True) w"
    if m: "\<And>l. wp m ?Q (\<lambda>_ _. True) (w\<lparr>a_limiter := l\<rparr>)" for m scope key lim
    unfolding wp_bind wp_try wp_seq [of "limit_check _ _ _ _"]
    by (rule limit_check_wp) (auto simp: m wp_ret wp_raise wp_seq init_error_def intro!: send_error_answers)
  show ?thesis
    unfolding chat_send_def same_views Let_def by (rule limited) (rule admitted)
qed


section \<open>Broadcasts\<close>

text \<open>Who hears an event: the open connections of the channel, but for the excluded sessions and the
  sockets that no longer answer.\<close>

definition audience :: "string \<Rightarrow> int list \<Rightarrow> ('st, 'z) app_scheme \<Rightarrow> nat set" where
  "audience ch exclude w = {ws. \<exists>k \<in> set (a_conns w). c_ws k = ws \<and> ws_channel (c_room k) = ch \<and>
     s_id (c_session k) \<notin> set exclude \<and> ws \<notin> set (gone (a_sockets w))}"

lemma recipients_audience:
  fixes w :: "('st, 'z) app_scheme"
  assumes "socks_ok w"
  shows "set (recipients exclude (gone (a_sockets w)) (sessions_of ch (registry (a_sockets w)))) = audience ch exclude w"
    and "distinct (recipients exclude (gone (a_sockets w)) (sessions_of ch (registry (a_sockets w))))"
proof -
  let ?reg = "registry (a_sockets w)"
  have ok: "registry_ok ?reg" and l: "links ?reg = conn_link ` set (a_conns w)" and d: "distinct (map c_ws (a_conns w))"
    using assms by (simp_all add: socks_ok_def)
  show "set (recipients exclude (gone (a_sockets w)) (sessions_of ch ?reg)) = audience ch exclude w"
    unfolding set_recipients [OF ok] l audience_def conn_link_def by fastforce
  have one: "i = j" if "(ch, i, ws) \<in> links ?reg" "(ch, j, ws) \<in> links ?reg" for i j ws
  proof -
    from that obtain k k' where "k \<in> set (a_conns w)" "k' \<in> set (a_conns w)" "conn_link k = (ch, i, ws)" "conn_link k' = (ch, j, ws)"
      unfolding l image_iff by metis
    moreover from this d have "k = k'" by (auto simp: conn_link_def distinct_map inj_on_def)
    ultimately show ?thesis by simp
  qed
  show "distinct (recipients exclude (gone (a_sockets w)) (sessions_of ch ?reg))"
    by (rule distinct_recipients [OF registry_ok_sessions [OF ok]]) (use one in \<open>auto simp: links_def\<close>)
qed

lemma broadcast_heard:
  fixes w :: "('st, 'z) app_scheme"
  assumes "socks_ok w" and "broadcast ch ev exclude (a_sockets w) = (res, t)"
  shows "\<exists>heard. distinct heard \<and> set heard = (if json_serializable ev then audience ch exclude w else {}) \<and>
    outbox t = outbox (a_sockets w) @ map (\<lambda>ws. (ws, ev)) heard \<and> links (registry t) = links (registry (a_sockets w))"
  using assms(2) recipients_audience [OF assms(1), of exclude ch] by (auto simp: broadcast_eq)

lemma chat_outcome:
  fixes w :: "('st, 'z) app_scheme"
  assumes s: "sound d0 exact cfg w" and r: "r \<in> set (rooms (w_saved w))" "r_id r = r_id (c_room c)" "r_status r \<noteq> DELETED"
    and run: "chat_send cfg c payload (w\<lparr>w_db := w_saved w\<rparr>) = (Inr u, t)"
  shows "(messages (w_db t) = messages (w_saved w) \<and>
      (\<exists>evs. outbox (a_sockets t) = outbox (a_sockets w) @ evs \<and> (\<forall>(s, ev) \<in> set evs. s = c_ws c \<and> (\<exists>cd det. ev = ErrorEvent cd det)))) \<or>
    (\<exists>m heard. messages (w_saved t) = messages (w_saved w) @ [m] \<and> m_room_id m = r_id (c_room c) \<and>
      m_sender_session_id m = Some (s_id (c_session c)) \<and> m_body m \<noteq> [] \<and>
      (\<exists>b. vget payload ''body'' (VStr []) = Inr b \<and> m_body m = strip (py_str b)) \<and>
      distinct heard \<and> set heard = audience (ws_channel (c_room c)) [] w \<and>
      outbox (a_sockets t) = outbox (a_sockets w) @ map (\<lambda>ws. (ws, ChatMessageSent (view_message m))) heard)"
proof -
  let ?w = "w\<lparr>w_db := w_saved w\<rparr>"
  have g: "good exact cfg ?w" using s by (simp add: sound_def steady_def db_ok_def good_def)
  have o: "open_room (r_id (c_room c)) (w_db ?w)" using r by (auto intro: open_roomI)
  have k: "socks_ok w" using s by (simp add: sound_def)
  from wp_returns [OF run chat_send_outcome [OF g o]] recipients_audience [OF k, of "[]" "ws_channel (c_room c)"]
  show ?thesis by (auto simp: answered_def kept_def announced_def)
qed

end
