(* ===== verification/Example_Replies.thy ===== *)
theory Example_Replies
  imports Example_App Guarantees
begin

text \<open>
  Requests and turns on the run of \<open>Example_App\<close>, evaluated: what the witnesses of the properties of
  \<open>Guarantees\<close> apply them to. Last, a pool of
  workers that finishes one job.
\<close>

lemma handled:
  "handle_request cfg cr bk req call w =
     (respond (fst (with_session (serve cfg cr bk req call) w)), snd (with_session (serve cfg cr bk req call) w))"
  by (simp add: handle_request_def split: prod.split)

lemma reply_with_eq: "reply_with f m w = (map_sum id f (fst (m w)), snd (m w))"
  by (simp add: reply_with_def bind_def ret_def split: prod.split sum.split)

lemma with_session_eq:
  "with_session m w = (fst (m (w\<lparr>w_db := w_saved w\<rparr>)),
     let t = snd (m (w\<lparr>w_db := w_saved w\<rparr>)) in t\<lparr>w_db := w_saved t\<rparr>)"
  by (simp add: with_session_def Let_def split: prod.split)

lemma replied:
  assumes "serve cfg cr bk req call = reply_with f m" and "\<not> isl (fst (with_session m w))"
  shows "\<exists>x w'. handle_request cfg cr bk req call w = (Reply (f x), w')"
  using assms by (cases "fst (with_session m w)") (auto simp: handled with_session_eq reply_with_eq respond_def)

lemma demo_same: "demo_app4\<lparr>w_db := w_saved demo_app4\<rparr> = demo_app4"
proof -
  have "w_saved demo_app4 = w_db demo_app4" using demo_app4_is by (simp add: Let_def)
  then show ?thesis by simp
qed

definition demo_join :: join_request where
  "demo_join = \<lparr>jr_display_name = None, jr_password = None, jr_owner_token = None\<rparr>"

lemma demo_messages:
  "\<not> isl (fst (with_session (api_list_messages app_cfg app_crypto (demo_owner ''GET'') ''AQID'') demo_app4))"
  by code_simp

lemma demo_rejoin:
  "\<not> isl (fst (with_session (api_join_room app_cfg app_crypto [] [] (demo_owner ''POST'') ''AQID'' demo_join) demo_app4))"
  by code_simp

lemma demo_unguarded: "isl (validate_csrf app_cfg app_crypto (demo_owner ''DELETE''\<lparr>q_csrf_header := None\<rparr>))"
  by code_simp

lemma demo_opened: "fst (with_session (ws_open app_cfg app_crypto 1 demo_ws) demo_app1) = Inr Opened"
  by code_simp

lemma demo_hangup: "fst (with_session (ws_receive app_cfg 1 Hangup) demo_app4) = Inr ()"
  by code_simp

lemma demo_chat: "fst (chat_send app_cfg app_conn (VDict [(''body'', VStr ''hi'')]) demo_app4) = Inr ()"
  by code_simp

lemma demo_cleanup: "fst (run_room_cleanup local_backend [(''room_id'', JInt 1)] demo_app4) = Inr ()"
  by code_simp

definition demo_bad_code :: join_by_code_request where
  "demo_bad_code = \<lparr>jr_display_name = None, jr_password = None, jr_owner_token = None, jc_room_code = ''ZZZZZZ''\<rparr>"

lemma demo_refused:
  "fst (with_session (api_join_by_code app_cfg app_crypto [] [] (demo_visitor ''POST'') demo_bad_code) demo_app4) = Inl join_failed"
  by code_simp

lemma failed:
  assumes "serve cfg cr bk req call = reply_with f m" and "fst (with_session m w) = Inl (Drop c d)"
  shows "\<exists>w'. handle_request cfg cr bk req call w = (Failed (status_code c) (error_code c) d, w')"
  using assms by (auto simp: handled with_session_eq reply_with_eq respond_def)

section \<open>A worker pool\<close>

text \<open>A job is put, the workers start, the first one takes it and finishes it.\<close>

definition demo_qc :: queue_config where
  "demo_qc = queue_init default_settings None None None None"

definition demo_handlers :: "nat handlers" where
  "demo_handlers = [''T'' \<mapsto> (\<lambda>p s. (Inr (), s + 1))]"

definition demo_pool1 :: "nat pool" where
  "demo_pool1 = start demo_qc (enqueue (make_job demo_qc ''a'' ''T'' None None) (pool_init 0))"

definition demo_pool2 :: "nat pool" where
  "demo_pool2 = the (worker_get 0 demo_pool1)"

definition demo_pool3 :: "nat pool" where
  "demo_pool3 = the (worker_run demo_qc demo_handlers 0 demo_pool2)"

lemma demo_worker:
  "worker_get 0 demo_pool1 \<noteq> None" "worker_run demo_qc demo_handlers 0 demo_pool2 \<noteq> None"
  "join_returns demo_pool3" "length (q_enqueued demo_pool3) = 1"
  by code_simp+

lemma demo_taken: "worker_get 0 demo_pool1 = Some demo_pool2" "worker_run demo_qc demo_handlers 0 demo_pool2 = Some demo_pool3"
  using demo_worker(1,2) by (simp_all add: demo_pool2_def demo_pool3_def)

lemma demo_pool: "qreach demo_qc demo_handlers demo_pool3"
  using demo_taken qreach.Step qstep.Get qstep.Run
  by (metis demo_pool1_def qreach.Init qstep.Enqueue qstep.Start)

lemma demo_work: "(wstep demo_qc demo_handlers ^^ 2) demo_pool1 demo_pool3"
  using demo_taken by (auto simp: numeral_2_eq_2 intro: wstep.intros)

end
