(* ===== verification/Quoting.thy ===== *)
theory Quoting
  imports Api_Files
begin

text \<open>
  The percent encoding of \<open>download\<close>'s \<open>Content-Disposition\<close> header against the decoder of RFC 3986,
  and what the header does with the characters that end its quoted part.
\<close>

definition hex_value :: "char \<Rightarrow> nat" where
  "hex_value c = (let n = of_char c in if 65 \<le> n then n - 55 else n - 48)"

fun percent_decode :: "string \<Rightarrow> nat list" where
  "percent_decode [] = []"
| "percent_decode (c # s) = (if c = CHR ''%'' then (case s of
       h # l # rest \<Rightarrow> (16 * hex_value h + hex_value l) # percent_decode rest
     | _ \<Rightarrow> [])
     else of_char c # percent_decode s)"

lemma hex_value_digit: "d < 16 \<Longrightarrow> hex_value (hex_upper ! d) = d"
  by (auto simp: hex_upper_def hex_value_def less_Suc_eq numeral_eq_Suc)

lemma unat_byte_less: "unat (b :: 8 word) < 256"
proof -
  have "(unsigned b :: nat) < 2 ^ LENGTH(8)" by (rule unsigned_less)
  then show ?thesis by simp
qed

lemma decode_byte: "percent_decode (quote_byte b @ s) = unat b # percent_decode s"
proof (cases "quote_safe (unat b)")
  case True
  have "unat b < 256" by (rule unat_byte_less)
  moreover from True have "unat b \<noteq> 37" by (auto simp: quote_safe_def)
  ultimately have "char_of (unat b) \<noteq> CHR ''%''" "of_char (char_of (unat b) :: char) = unat b"
    by (auto simp: char_of_eq_iff take_bit_eq_mod)
  with True show ?thesis by (simp add: quote_byte_def Let_def)
next
  case False
  have "unat b < 256" by (rule unat_byte_less)
  then have "unat b div 16 < 16" "unat b mod 16 < 16" by (simp_all add: less_mult_imp_div_less)
  with False show ?thesis by (simp add: quote_byte_def Let_def hex_value_digit)
qed

lemma decode_quote: "percent_decode (quote s) = map unat (utf8_encode s)"
proof -
  have "percent_decode (concat (map quote_byte bs)) = map unat bs" for bs
    by (induction bs) (simp_all add: decode_byte)
  then show ?thesis by (simp add: quote_def)
qed

text \<open>No character of the encoded name can end the header field.\<close>

lemma hex_upper_safe: "c \<in> set hex_upper \<Longrightarrow> quote_safe (of_char c)"
  by (auto simp: hex_upper_def quote_safe_def)

lemma quote_chars: "c \<in> set (quote s) \<Longrightarrow> c = CHR ''%'' \<or> quote_safe (of_char c)"
proof -
  have "c = CHR ''%'' \<or> quote_safe (of_char c)" if "c \<in> set (quote_byte b)" for b
  proof -
    have n: "unat b < 256" by (rule unat_byte_less)
    then have "unat b div 16 < length hex_upper" "unat b mod 16 < length hex_upper"
      by (simp_all add: hex_upper_def less_mult_imp_div_less)
    then have "hex_upper ! (unat b div 16) \<in> set hex_upper" "hex_upper ! (unat b mod 16) \<in> set hex_upper"
      by simp_all
    with that n show ?thesis by (auto simp: quote_byte_def Let_def hex_upper_safe split: if_splits)
  qed
  then show "c \<in> set (quote s) \<Longrightarrow> c = CHR ''%'' \<or> quote_safe (of_char c)"
    by (auto simp: quote_def)
qed

text \<open>The quoted part keeps every name that has no backslash as it is.\<close>

lemma replace2_id: "a \<notin> set s \<Longrightarrow> replace2 a b new s = s"
  by (induction a b new s rule: replace2.induct) auto

end
