(* ===== verification/S3_Storage.thy ===== *)
theory S3_Storage
  imports Storage
begin

text \<open>
  \<open>storage/s3.py\<close>: \<open>S3StorageBackend\<close> and \<open>get_storage_backend\<close>. The boto3 client is not part of the
  repository: it is the record \<open>s3_client\<close>, a parameter of every operation, and \<open>s3_service_ok\<close> names
  what its documentation promises of a reachable service. The world of the backend has the
  directory \<open>tempfile\<close> stages in, the storage root of the filesystem backend and the client's
  remote state. \<open>run_in_executor\<close> runs the blocking call and returns its result.
\<close>

datatype bucket_error = BucketAlreadyOwnedByYou | BucketAlreadyExists | BucketError py_exn

text \<open>\<open>paginate\<close> yields pages, of which \<open>Contents\<close> may be absent, and may raise after some of them.\<close>

record 'r s3_client =
  create_bucket :: "string \<Rightarrow> ('r, bucket_error, unit) prog"
  upload_fileobj :: "bytes \<Rightarrow> string \<Rightarrow> string \<Rightarrow> ('r, exc, unit) prog"
  get_object_body :: "string \<Rightarrow> string \<Rightarrow> 'r \<Rightarrow> exc + bytes"
  head_content_length :: "string \<Rightarrow> string \<Rightarrow> 'r \<Rightarrow> exc + int"
  s3_delete_object :: "string \<Rightarrow> string \<Rightarrow> ('r, exc, unit) prog"
  list_objects_v2 :: "string \<Rightarrow> string \<Rightarrow> 'r \<Rightarrow> string list option list \<times> exc option"

record 'r s3_world =
  tmp_dir :: fsys
  storage_root :: fsys
  remote :: 'r

definition on_tmp :: "(fsys, exc, 'a) prog \<Rightarrow> ('r s3_world, exc, 'a) prog" where
  "on_tmp m w = (case m (tmp_dir w) of (x, t) \<Rightarrow> (x, w\<lparr>tmp_dir := t\<rparr>))"

definition on_root :: "(fsys, exc, 'a) prog \<Rightarrow> ('r s3_world, exc, 'a) prog" where
  "on_root m w = (case m (storage_root w) of (x, t) \<Rightarrow> (x, w\<lparr>storage_root := t\<rparr>))"

definition on_remote :: "('r, 'e, 'a) prog \<Rightarrow> ('r s3_world, 'e, 'a) prog" where
  "on_remote m w = (case m (remote w) of (x, t) \<Rightarrow> (x, w\<lparr>remote := t\<rparr>))"

section \<open>S3StorageBackend\<close>

text \<open>\<open>except BucketAlreadyOwnedByYou: pass\<close> and \<open>except BucketAlreadyExists: pass\<close>; other errors
  propagate.\<close>

definition ensure_bucket :: "'r s3_client \<Rightarrow> string \<Rightarrow> ('r s3_world, exc, unit) prog" where
  "ensure_bucket cl bucket w = (case on_remote (create_bucket cl bucket) w of
       (Inr u, t) \<Rightarrow> (Inr (), t)
     | (Inl BucketAlreadyOwnedByYou, t) \<Rightarrow> (Inr (), t)
     | (Inl BucketAlreadyExists, t) \<Rightarrow> (Inr (), t)
     | (Inl (BucketError x), t) \<Rightarrow> (Inl (Py x), t))"

text \<open>\<open>try: m finally: f\<close>; what \<open>f\<close> raises replaces what \<open>m\<close> raised.\<close>

definition try_finally :: "('s, 'e, 'a) prog \<Rightarrow> ('s, 'e, unit) prog \<Rightarrow> ('s, 'e, 'a) prog" where
  "try_finally m f = bind (try_except m (\<lambda>e. seq f (raise e))) (\<lambda>x. seq f (ret x))"

definition open_staged :: "string \<Rightarrow> (fsys, exc, bytes) prog" where
  "open_staged tmp s = (case fs_contents s tmp of
     None \<Rightarrow> (Inl (Py FileNotFoundError), s) | Some b \<Rightarrow> (Inr b, s))"

definition s3_put :: "'r s3_client \<Rightarrow> string \<Rightarrow> string \<Rightarrow> stream \<Rightarrow> ('r s3_world, exc, int) prog" where
  "s3_put cl bucket key data =
     seq (ensure_bucket cl bucket)
     (bind (on_tmp mkstemp) (\<lambda>tmp.
      try_finally
        (try_except
          (bind (on_tmp (write_chunks tmp (fst data) (snd data) 0)) (\<lambda>total.
           bind (on_tmp (open_staged tmp)) (\<lambda>src.
           seq (on_remote (upload_fileobj cl src bucket key)) (ret total))))
          (\<lambda>e. seq (try_except (on_remote (s3_delete_object cl bucket key)) (\<lambda>_. ret ())) (raise e)))
        (try_except (on_tmp (fs_unlink tmp))
          (\<lambda>e. if e = Py OSError \<or> e = Py FileNotFoundError then ret () else raise e))))"

text \<open>The generator reads the whole object first, then yields slices of \<open>CHUNK_SIZE\<close>.\<close>

definition s3_get_stream :: "'r s3_client \<Rightarrow> string \<Rightarrow> string \<Rightarrow> 'r s3_world \<Rightarrow> stream" where
  "s3_get_stream cl bucket key w = (case get_object_body cl bucket key (remote w) of
     Inl e \<Rightarrow> ([], Some e) | Inr body \<Rightarrow> (chunks_of CHUNK_SIZE body, None))"

definition s3_head :: "'r s3_client \<Rightarrow> string \<Rightarrow> string \<Rightarrow> 'r s3_world \<Rightarrow> int" where
  "s3_head cl bucket key w = (case head_content_length cl bucket key (remote w) of Inl e \<Rightarrow> -1 | Inr n \<Rightarrow> n)"

definition s3_delete :: "'r s3_client \<Rightarrow> string \<Rightarrow> string \<Rightarrow> ('r s3_world, exc, unit) prog" where
  "s3_delete cl bucket key = try_except (on_remote (s3_delete_object cl bucket key)) (\<lambda>_. ret ())"

definition s3_exists :: "'r s3_client \<Rightarrow> string \<Rightarrow> string \<Rightarrow> 'r s3_world \<Rightarrow> bool" where
  "s3_exists cl bucket key w \<longleftrightarrow> s3_head cl bucket key w \<noteq> -1"

fun collect_pages :: "string list option list \<Rightarrow> string list \<Rightarrow> string list" where
  "collect_pages [] keys = keys"
| "collect_pages (None # pages) keys = collect_pages pages keys"
| "collect_pages (Some page # pages) keys = collect_pages pages (keys @ page)"

definition s3_list_keys :: "'r s3_client \<Rightarrow> string \<Rightarrow> string \<Rightarrow> 'r s3_world \<Rightarrow> string list" where
  "s3_list_keys cl bucket pre w = (case list_objects_v2 cl bucket pre (remote w) of
     (pages, Some e) \<Rightarrow> [] | (pages, None) \<Rightarrow> collect_pages pages [])"

definition s3_backend :: "'r s3_client \<Rightarrow> string \<Rightarrow> 'r s3_world storage_backend" where
  "s3_backend cl bucket = \<lparr>put = s3_put cl bucket, get_stream = s3_get_stream cl bucket,
     head_object = s3_head cl bucket, delete_object = s3_delete cl bucket,
     object_exists = s3_exists cl bucket, list_keys = s3_list_keys cl bucket\<rparr>"

text \<open>The filesystem backend on the same world, and the choice between the two.\<close>

definition rooted_backend :: "'r s3_world storage_backend" where
  "rooted_backend = \<lparr>put = \<lambda>k d. on_root (local_put k d), get_stream = \<lambda>k w. local_get_stream k (storage_root w),
     head_object = \<lambda>k w. local_head k (storage_root w), delete_object = \<lambda>k. on_root (local_delete k),
     object_exists = \<lambda>k w. local_exists k (storage_root w), list_keys = \<lambda>p w. local_list_keys p (storage_root w)\<rparr>"

definition get_storage_backend :: "settings \<Rightarrow> 'r s3_client \<Rightarrow> 'r s3_world storage_backend" where
  "get_storage_backend cfg cl =
     (if storage_backend_name cfg = ''s3'' then s3_backend cl (s3_bucket cfg) else rooted_backend)"

section \<open>What the service promises\<close>

text \<open>
  \<open>create_bucket\<close> leaves the objects alone; \<open>upload_fileobj\<close> stores the bytes, and touches no other
  key when it fails; \<open>delete_object\<close> is idempotent and answers; reads of a stored object answer with
  its bytes and their number, \<open>head_object\<close> of a missing one raises, and the pages of
  \<open>list_objects_v2\<close> together hold the keys with the prefix.
\<close>

definition s3_service_ok :: "'r s3_client \<Rightarrow> string \<Rightarrow> ('r \<Rightarrow> string \<Rightarrow> bytes option) \<Rightarrow> bool" where
  "s3_service_ok cl bucket objects \<longleftrightarrow>
     (\<forall>r. objects (snd (create_bucket cl bucket r)) = objects r) \<and>
     (\<forall>b k r. case upload_fileobj cl b bucket k r of
        (Inr u, r') \<Rightarrow> objects r' = (objects r)(k \<mapsto> b)
      | (Inl e, r') \<Rightarrow> is_py e \<and> (\<forall>k'. k' \<noteq> k \<longrightarrow> objects r' k' = objects r k')) \<and>
     (\<forall>k r. fst (s3_delete_object cl bucket k r) = Inr () \<and>
        objects (snd (s3_delete_object cl bucket k r)) = (objects r)(k := None)) \<and>
     (\<forall>k r b. objects r k = Some b \<longrightarrow>
        get_object_body cl bucket k r = Inr b \<and> head_content_length cl bucket k r = Inr (int (length b))) \<and>
     (\<forall>k r. objects r k = None \<longrightarrow> (\<exists>e. head_content_length cl bucket k r = Inl e)) \<and>
     (\<forall>p r. \<exists>pages. list_objects_v2 cl bucket p r = (pages, None) \<and>
        set (concat (map (case_option [] id) pages)) = {k. objects r k \<noteq> None \<and> prefix p k})"


section \<open>The S3 backend keeps the contract\<close>

lemma wp_on_tmp [wp_simps]:
  "wp (on_tmp m) Q E w = wp m (\<lambda>x t. Q x (w\<lparr>tmp_dir := t\<rparr>)) (\<lambda>e t. E e (w\<lparr>tmp_dir := t\<rparr>)) (tmp_dir w)"
  by (simp add: on_tmp_def wp_def split: prod.split sum.split)

lemma wp_on_remote [wp_simps]:
  "wp (on_remote m) Q E w = wp m (\<lambda>x t. Q x (w\<lparr>remote := t\<rparr>)) (\<lambda>e t. E e (w\<lparr>remote := t\<rparr>)) (remote w)"
  by (simp add: on_remote_def wp_def split: prod.split sum.split)

lemma wp_try_finally [wp_simps]:
  "wp (try_finally m f) Q E = wp m (\<lambda>x. wp f (\<lambda>_. Q x) E) (\<lambda>e. wp f (\<lambda>_. E e) E)"
  by (simp add: try_finally_def wp_simps)

lemma ensure_bucket_wp:
  assumes "s3_service_ok cl bucket objects"
    and "\<And>r e. objects r = objects (remote w) \<Longrightarrow> Q () (w\<lparr>remote := r\<rparr>)"
    and "\<And>r x. objects r = objects (remote w) \<Longrightarrow> E (Py x) (w\<lparr>remote := r\<rparr>)"
  shows "wp (ensure_bucket cl bucket) Q E w"
proof (cases "create_bucket cl bucket (remote w)")
  case (Pair x r)
  moreover have "objects (snd (create_bucket cl bucket (remote w))) = objects (remote w)"
    using assms(1) by (simp add: s3_service_ok_def)
  ultimately have "objects r = objects (remote w)" by simp
  then show ?thesis using Pair assms(2,3)
    by (auto simp: wp_def ensure_bucket_def on_remote_def split: sum.split bucket_error.split)
qed

lemma unlink_staged_wp:
  assumes "\<And>t. Q () (w\<lparr>tmp_dir := t\<rparr>)"
  shows "wp (try_except (on_tmp (fs_unlink tmp))
      (\<lambda>e. if e = Py OSError \<or> e = Py FileNotFoundError then ret () else raise e)) Q E w"
  using assms by (simp add: wp_try wp_on_tmp wp_def [of "fs_unlink tmp"] fs_unlink_def wp_ret)

lemma s3_delete_object_wp:
  assumes "s3_service_ok cl bucket objects"
    and "\<And>r. objects r = (objects (remote w))(k := None) \<Longrightarrow> Q () (w\<lparr>remote := r\<rparr>)"
  shows "wp (on_remote (s3_delete_object cl bucket k)) Q E w"
proof -
  obtain r where "s3_delete_object cl bucket k (remote w) = (Inr (), r)" "objects r = (objects (remote w))(k := None)"
    using assms(1) by (metis (no_types, lifting) prod.collapse s3_service_ok_def)
  then show ?thesis using assms(2) by (simp add: wp_on_remote wp_def [of "s3_delete_object cl bucket k"])
qed

lemma upload_wp:
  assumes "s3_service_ok cl bucket objects"
    and "\<And>r. objects r = (objects (remote w))(k \<mapsto> b) \<Longrightarrow> Q () (w\<lparr>remote := r\<rparr>)"
    and "\<And>e r. is_py e \<Longrightarrow> \<forall>k'. k' \<noteq> k \<longrightarrow> objects r k' = objects (remote w) k' \<Longrightarrow> E e (w\<lparr>remote := r\<rparr>)"
  shows "wp (on_remote (upload_fileobj cl b bucket k)) Q E w"
proof -
  have "case upload_fileobj cl b bucket k (remote w) of
        (Inr u, r') \<Rightarrow> objects r' = (objects (remote w))(k \<mapsto> b)
      | (Inl e, r') \<Rightarrow> is_py e \<and> (\<forall>k'. k' \<noteq> k \<longrightarrow> objects r' k' = objects (remote w) k')"
    using assms(1) by (simp add: s3_service_ok_def)
  then show ?thesis using assms(2,3)
    by (simp add: wp_on_remote wp_def [of "upload_fileobj cl b bucket k"] split: prod.splits sum.splits)
qed

lemma s3_put_wp:
  assumes ok: "s3_service_ok cl bucket objects"
  shows "wp (s3_put cl bucket key data)
    (\<lambda>n t. snd data = None \<and> n = int (length (concat (fst data))) \<and>
       objects (remote t) = (objects (remote w))(key \<mapsto> concat (fst data)))
    (\<lambda>e t. (snd data = Some e \<or> is_py e) \<and>
       (\<forall>k'. k' \<noteq> key \<longrightarrow> objects (remote t) k' = objects (remote w) k')) w"
    (is "wp _ ?Q ?E w")
proof -
  let ?unlink = "\<lambda>tmp. try_except (on_tmp (fs_unlink tmp))
      (\<lambda>e. if e = Py OSError \<or> e = Py FileNotFoundError then ret () else raise e)"
  let ?drop = "\<lambda>e. seq (try_except (on_remote (s3_delete_object cl bucket key)) (\<lambda>_. ret ())) (raise e)"
  let ?N = "\<lambda>tmp x. wp (?unlink tmp) (\<lambda>_. ?Q x) ?E" and ?R = "\<lambda>tmp e. wp (?unlink tmp) (\<lambda>_. ?E e) ?E"
  have handler: "wp (?drop e) (?N tmp) (?R tmp) t"
    if "snd data = Some e \<or> is_py e" and "\<forall>k'. k' \<noteq> key \<longrightarrow> objects (remote t) k' = objects (remote w) k'" for e t tmp
    unfolding wp_seq wp_try [of "on_remote _"]
    by (rule s3_delete_object_wp [OF ok]) (use that in \<open>auto simp: wp_raise intro!: unlink_staged_wp\<close>)
  have upload: "wp (bind (on_tmp (open_staged tmp)) (\<lambda>src. seq (on_remote (upload_fileobj cl src bucket key)) (ret n)))
      (?N tmp) (\<lambda>e. wp (?drop e) (?N tmp) (?R tmp)) t"
    if "snd data = None" "n = int (length (concat (fst data)))" "fs_contents (tmp_dir t) tmp = Some (concat (fst data))"
      "objects (remote t) = objects (remote w)" for n t tmp
  proof -
    have "wp (on_remote (upload_fileobj cl (concat (fst data)) bucket key)) (\<lambda>_. ?N tmp n) (\<lambda>e. wp (?drop e) (?N tmp) (?R tmp)) t"
      by (rule upload_wp [OF ok], rule unlink_staged_wp, use that in simp, rule handler, simp, use that in simp)
    then show ?thesis using that(3)
      by (simp add: wp_bind wp_on_tmp wp_def [of "open_staged tmp"] open_staged_def wp_seq wp_ret)
  qed
  have staged: "wp (on_tmp mkstemp) (\<lambda>tmp. wp (try_finally
        (try_except
          (bind (on_tmp (write_chunks tmp (fst data) (snd data) 0)) (\<lambda>total.
           bind (on_tmp (open_staged tmp)) (\<lambda>src.
           seq (on_remote (upload_fileobj cl src bucket key)) (ret total)))) ?drop) (?unlink tmp)) ?Q ?E) ?E v"
    if v: "objects (remote v) = objects (remote w)" for v
  proof (cases "mkstemp (tmp_dir v)")
    case (Pair r s1)
    show ?thesis
    proof (cases r)
      case (Inl e)
      with Pair mkstemp_Inl [of "tmp_dir v" e s1] v show ?thesis by (simp add: wp_on_tmp wp_def [of mkstemp])
    next
      case (Inr tmp)
      with Pair have m: "mkstemp (tmp_dir v) = (Inr tmp, s1)" by simp
      from mkstemp_Inr [OF this] have "fs_contents s1 tmp = Some []" by simp
      note loop = write_chunks_wp [OF this, of "fst data" "snd data" 0]
      have "wp (on_tmp (write_chunks tmp (fst data) (snd data) 0))
          (\<lambda>n. wp (bind (on_tmp (open_staged tmp)) (\<lambda>src. seq (on_remote (upload_fileobj cl src bucket key)) (ret n)))
             (?N tmp) (\<lambda>e. wp (?drop e) (?N tmp) (?R tmp)))
          (\<lambda>e. wp (?drop e) (?N tmp) (?R tmp)) (v\<lparr>tmp_dir := s1\<rparr>)"
      proof (subst wp_on_tmp, rule wp_mono)
        show "wp (write_chunks tmp (fst data) (snd data) 0)
          (\<lambda>n t. snd data = None \<and> n = 0 + int (length (concat (fst data))) \<and>
             fs_contents t = (fs_contents s1)(tmp \<mapsto> [] @ concat (fst data)))
          (\<lambda>e t. (snd data = Some e \<or> is_py e) \<and> (\<exists>b'. fs_contents t = (fs_contents s1)(tmp \<mapsto> b')))
          (tmp_dir (v\<lparr>tmp_dir := s1\<rparr>))" using loop by simp
      qed (rule upload, use v in simp_all, rule handler, simp_all)
      then show ?thesis using m
        by (simp only: wp_on_tmp [of mkstemp] wp_def [of mkstemp] prod.case sum.case wp_try_finally wp_try
              wp_bind [of "on_tmp (write_chunks _ _ _ _)"])
    qed
  qed
  show ?thesis unfolding s3_put_def wp_seq [of "ensure_bucket _ _"] wp_bind [of "on_tmp mkstemp"]
    by (rule ensure_bucket_wp [OF ok]) (simp_all add: staged)
qed

text \<open>
  A failed \<open>put\<close> may take the old object under its key away, which the filesystem backend never does;
  the contract allows it.
\<close>

lemma s3_backend_keeps_contract:
  fixes cl :: "'r s3_client"
  assumes ok: "s3_service_ok cl bucket objects"
  shows "object_store (s3_backend cl bucket) (\<lambda>w. objects (remote w))"
proof
  fix k d w n w'
  assume "put (s3_backend cl bucket) k d w = (Inr n, w')"
  then show "snd d = None \<and> n = int (length (concat (fst d))) \<and>
      objects (remote w') = (objects (remote w))(k \<mapsto> concat (fst d))"
    using wp_returns [OF _ s3_put_wp [OF ok]] by (simp add: s3_backend_def)
next
  fix k d w e w'
  assume "put (s3_backend cl bucket) k d w = (Inl e, w')"
  then have "(snd d = Some e \<or> is_py e) \<and> (\<forall>k'. k' \<noteq> k \<longrightarrow> objects (remote w') k' = objects (remote w) k')"
    using wp_raises [OF _ s3_put_wp [OF ok]] by (simp add: s3_backend_def)
  then show "snd d = Some e \<or> is_py e" and "\<And>k' b. k' \<noteq> k \<Longrightarrow> objects (remote w) k' = Some b \<Longrightarrow> objects (remote w') k' = Some b"
    by simp_all
next
  have gone: "wp (s3_delete cl bucket k) (\<lambda>_ t. objects (remote t) = (objects (remote w))(k := None)) (\<lambda>_ _. False) w" for k and w :: "'r s3_world"
    unfolding s3_delete_def wp_try by (rule s3_delete_object_wp [OF ok]) simp
  show "objects (remote w') = (objects (remote w))(k := None)" if "delete_object (s3_backend cl bucket) k w = (Inr u, w')" for k w u w'
    using wp_returns [OF _ gone] that by (simp add: s3_backend_def)
  show "is_py e \<and> objects (remote w') = objects (remote w)" if "delete_object (s3_backend cl bucket) k w = (Inl e, w')" for k w e w'
    using wp_raises [OF _ gone, of k w e w'] that by (simp add: s3_backend_def)
next
  fix w :: "'r s3_world" and k b
  assume "objects (remote w) k = Some b"
  then have "get_object_body cl bucket k (remote w) = Inr b" using ok by (simp add: s3_service_ok_def)
  then show "snd (get_stream (s3_backend cl bucket) k w) = None \<and> concat (fst (get_stream (s3_backend cl bucket) k w)) = b \<and>
      [] \<notin> set (fst (get_stream (s3_backend cl bucket) k w))"
    by (simp add: s3_backend_def s3_get_stream_def concat_chunks_of CHUNK_SIZE_pos chunks_of_nonempty)
next
  fix k and w :: "'r s3_world"
  show "object_exists (s3_backend cl bucket) k w \<longleftrightarrow> objects (remote w) k \<noteq> None"
  proof (cases "objects (remote w) k")
    case None
    then obtain e where "head_content_length cl bucket k (remote w) = Inl e" using ok None unfolding s3_service_ok_def by blast
    with None show ?thesis by (simp add: s3_backend_def s3_exists_def s3_head_def)
  next
    case (Some b)
    then have "head_content_length cl bucket k (remote w) = Inr (int (length b))" using ok by (simp add: s3_service_ok_def)
    with Some show ?thesis by (simp add: s3_backend_def s3_exists_def s3_head_def)
  qed
next
  fix p and w :: "'r s3_world"
  have collect: "collect_pages pages keys = keys @ concat (map (case_option [] id) pages)" for pages keys
    by (induction pages keys rule: collect_pages.induct) simp_all
  obtain pages where "list_objects_v2 cl bucket p (remote w) = (pages, None)"
    "set (concat (map (case_option [] id) pages)) = {k. objects (remote w) k \<noteq> None \<and> prefix p k}"
    using ok unfolding s3_service_ok_def by blast
  then show "set (list_keys (s3_backend cl bucket) p w) = {k. objects (remote w) k \<noteq> None \<and> prefix p k}"
    by (simp only: s3_backend_def storage_backend.simps s3_list_keys_def prod.case option.case collect append_Nil)
qed

section \<open>The configured backend\<close>

definition backend_contents :: "settings \<Rightarrow> ('r \<Rightarrow> string \<Rightarrow> bytes option) \<Rightarrow> 'r s3_world \<Rightarrow> string \<Rightarrow> bytes option" where
  "backend_contents cfg objects w =
     (if storage_backend_name cfg = ''s3'' then objects (remote w) else fs_contents (storage_root w))"

lemma on_root_result:
  "on_root m w = (x, w') \<longleftrightarrow> (\<exists>t. m (storage_root w) = (x, t) \<and> w' = w\<lparr>storage_root := t\<rparr>)"
  by (auto simp: on_root_def split: prod.split)

lemma rooted_backend_keeps_contract:
  "object_store (rooted_backend :: 'r s3_world storage_backend) (\<lambda>w. fs_contents (storage_root w))"
  by unfold_locales (use local_store.put_ok local_store.put_error local_store.put_fail local_store.delete_ok
      local_store.delete_fail local_store.get_some local_store.exists_iff local_store.list_keys_iff in
      \<open>fastforce simp: rooted_backend_def on_root_result\<close>)+

lemma configured_store:
  assumes "s3_service_ok cl (s3_bucket cfg) objects"
  shows "object_store (get_storage_backend cfg cl) (backend_contents cfg objects)"
proof (cases "storage_backend_name cfg = ''s3''")
  case True
  then have "backend_contents cfg objects = (\<lambda>w. objects (remote w))" by (simp add: backend_contents_def fun_eq_iff)
  with True s3_backend_keeps_contract [OF assms] show ?thesis by (simp add: get_storage_backend_def)
next
  case False
  then have "backend_contents cfg objects = (\<lambda>w. fs_contents (storage_root w))"
    by (simp add: backend_contents_def fun_eq_iff)
  with False rooted_backend_keeps_contract show ?thesis by (simp add: get_storage_backend_def)
qed

text \<open>A failing \<open>delete_object\<close> is swallowed: the operation returns and the object is still there.\<close>

lemma s3_delete_swallows:
  assumes "s3_delete_object cl bucket k (remote w) = (Inl e, r)"
  shows "s3_delete cl bucket k w = (Inr (), w\<lparr>remote := r\<rparr>)"
  using assms by (simp add: s3_delete_def try_except_def on_remote_def ret_def)

section \<open>A service in memory\<close>

text \<open>One bucket as an association list: a client for which the promises hold.\<close>

definition memory_client :: "(string \<times> bytes) list s3_client" where
  "memory_client =
     \<lparr>create_bucket = \<lambda>b r. (Inl BucketAlreadyOwnedByYou, r),
      upload_fileobj = \<lambda>d b k r. (Inr (), AList.update k d r),
      get_object_body = \<lambda>b k r. (case map_of r k of None \<Rightarrow> Inl (Py OSError) | Some d \<Rightarrow> Inr d),
      head_content_length = \<lambda>b k r. (case map_of r k of None \<Rightarrow> Inl (Py OSError) | Some d \<Rightarrow> Inr (int (length d))),
      s3_delete_object = \<lambda>b k r. (Inr (), AList.delete k r),
      list_objects_v2 = \<lambda>b p r. ([Some (filter (prefix p) (map fst r)), None], None)\<rparr>"

lemma memory_service: "s3_service_ok memory_client bucket map_of"
proof -
  have "k \<in> fst ` set r \<longleftrightarrow> map_of r k \<noteq> None" for r :: "(string \<times> bytes) list" and k
    by (metis map_of_eq_None_iff)
  then show ?thesis
    by (auto simp: s3_service_ok_def memory_client_def map_of_alist_update map_of_alist_delete)
qed

end
