(* ===== verification/Migrations.thy ===== *)
theory Migrations
  imports Prelude
begin

text \<open>
  \<open>alembic/versions/\<close>, \<open>models/\<close> and \<open>db/base.py\<close>: the two revisions as lists of the schema operations
  they call, the revision order, and the tables the mapped classes declare, with the names the
  naming convention gives their constraints. A schema operation that PostgreSQL would refuse (a
  second table of a name, an index or column that is not there, a foreign key to a missing table)
  fails the migration. Server-side defaults and types are not interpreted.
\<close>

section \<open>Schemas\<close>

datatype sa_type = String nat | Integer | BigInteger | Boolean | DateTimeTZ | JSON | Text

type_synonym column = "string \<times> sa_type \<times> bool"

datatype sa_constraint =
    PrimaryKey string string
  | Unique string string
  | ForeignKey string string string string string

record table =
  t_columns :: "column list"
  t_constraints :: "sa_constraint list"
  t_indexes :: "(string \<times> string \<times> bool) list"

type_synonym schema = "(string \<times> table) list"

datatype schema_op =
    Create_Table string "column list" "sa_constraint list"
  | Drop_Table string
  | Create_Index string string string bool
  | Drop_Index string string
  | Add_Column string column
  | Drop_Column string string

fun constraint_column :: "sa_constraint \<Rightarrow> string" where
  "constraint_column (PrimaryKey c n) = c"
| "constraint_column (Unique c n) = c"
| "constraint_column (ForeignKey c t tc n act) = c"

fun refers_to :: "sa_constraint \<Rightarrow> (string \<times> string) option" where
  "refers_to (ForeignKey c t tc n act) = Some (t, tc)"
| "refers_to k = None"

definition has_column :: "string \<Rightarrow> table \<Rightarrow> bool" where
  "has_column c t \<longleftrightarrow> c \<in> fst ` set (t_columns t)"

definition resolves :: "schema \<Rightarrow> sa_constraint \<Rightarrow> bool" where
  "resolves db k = (case refers_to k of None \<Rightarrow> True
     | Some (t, c) \<Rightarrow> (case map_of db t of None \<Rightarrow> False | Some tab \<Rightarrow> has_column c tab))"

definition alter :: "string \<Rightarrow> (table \<Rightarrow> table option) \<Rightarrow> schema \<Rightarrow> schema option" where
  "alter name f db = (case map_of db name of None \<Rightarrow> None
     | Some t \<Rightarrow> map_option (\<lambda>t'. map (\<lambda>(n, u). if n = name then (n, t') else (n, u)) db) (f t))"

fun apply_op :: "schema_op \<Rightarrow> schema \<Rightarrow> schema option" where
  "apply_op (Create_Table name cols ks) db =
     (let t = \<lparr>t_columns = cols, t_constraints = ks, t_indexes = []\<rparr> in
      if name \<in> fst ` set db \<or> \<not> distinct (map fst cols)
         \<or> \<not> list_all (\<lambda>k. has_column (constraint_column k) t \<and> resolves ((name, t) # db) k) ks then None
      else Some (db @ [(name, t)]))"
| "apply_op (Drop_Table name) db =
     (if name \<notin> fst ` set db
         \<or> list_ex (\<lambda>(n, t). n \<noteq> name \<and> list_ex (\<lambda>k. map_option fst (refers_to k) = Some name) (t_constraints t)) db
      then None else Some (filter (\<lambda>(n, t). n \<noteq> name) db))"
| "apply_op (Create_Index name ix c u) db = alter name (\<lambda>t.
     if has_column c t \<and> ix \<notin> fst ` set (t_indexes t) then Some (t\<lparr>t_indexes := t_indexes t @ [(ix, c, u)]\<rparr>) else None) db"
| "apply_op (Drop_Index name ix) db = alter name (\<lambda>t.
     if ix \<in> fst ` set (t_indexes t) then Some (t\<lparr>t_indexes := filter (\<lambda>i. fst i \<noteq> ix) (t_indexes t)\<rparr>) else None) db"
| "apply_op (Add_Column name c) db = alter name (\<lambda>t.
     if has_column (fst c) t then None else Some (t\<lparr>t_columns := t_columns t @ [c]\<rparr>)) db"
| "apply_op (Drop_Column name c) db = alter name (\<lambda>t.
     if has_column c t then Some (t\<lparr>t_columns := filter (\<lambda>d. fst d \<noteq> c) (t_columns t)\<rparr>) else None) db"

fun apply_ops :: "schema_op list \<Rightarrow> schema \<Rightarrow> schema option" where
  "apply_ops [] db = Some db"
| "apply_ops (x # xs) db = Option.bind (apply_op x db) (apply_ops xs)"

section \<open>The revisions\<close>

definition initial_upgrade :: "schema_op list" where
  "initial_upgrade =
    [Create_Table ''rooms''
       [(''room_code'', String 12, False),
        (''access_token_hash'', String 64, False),
        (''access_token_signed'', String 255, True),
        (''owner_token_hash'', String 64, False),
        (''password_hash'', String 255, True),
        (''name'', String 120, True),
        (''status'', String 16, False),
        (''guest_upload_enabled'', Boolean, False),
        (''guest_download_enabled'', Boolean, False),
        (''max_users'', Integer, False),
        (''user_count'', Integer, False),
        (''storage_used_bytes'', BigInteger, False),
        (''file_count'', Integer, False),
        (''expires_at'', DateTimeTZ, False),
        (''id'', Integer, False),
        (''created_at'', DateTimeTZ, False),
        (''updated_at'', DateTimeTZ, False)]
       [PrimaryKey ''id'' ''pk_rooms'',
        Unique ''access_token_hash'' ''uq_rooms_access_token_hash'',
        Unique ''owner_token_hash'' ''uq_rooms_owner_token_hash''],
     Create_Index ''rooms'' ''ix_rooms_expires_at'' ''expires_at'' False,
     Create_Index ''rooms'' ''ix_rooms_room_code'' ''room_code'' True,
     Create_Index ''rooms'' ''ix_rooms_status'' ''status'' False,
     Create_Table ''audit_events''
       [(''room_id'', Integer, True),
        (''event_type'', String 64, False),
        (''metadata_json'', JSON, True),
        (''created_at'', DateTimeTZ, False),
        (''id'', Integer, False)]
       [ForeignKey ''room_id'' ''rooms'' ''id'' ''fk_audit_events_room_id_rooms'' ''CASCADE'',
        PrimaryKey ''id'' ''pk_audit_events''],
     Create_Index ''audit_events'' ''ix_audit_events_event_type'' ''event_type'' False,
     Create_Index ''audit_events'' ''ix_audit_events_room_id'' ''room_id'' False,
     Create_Table ''sessions''
       [(''room_id'', Integer, False),
        (''session_token_hash'', String 64, False),
        (''display_name'', String 60, True),
        (''role'', String 10, False),
        (''connected_at'', DateTimeTZ, False),
        (''last_seen_at'', DateTimeTZ, False),
        (''expires_at'', DateTimeTZ, False),
        (''id'', Integer, False),
        (''created_at'', DateTimeTZ, False),
        (''updated_at'', DateTimeTZ, False)]
       [ForeignKey ''room_id'' ''rooms'' ''id'' ''fk_sessions_room_id_rooms'' ''CASCADE'',
        PrimaryKey ''id'' ''pk_sessions'',
        Unique ''session_token_hash'' ''uq_sessions_session_token_hash''],
     Create_Index ''sessions'' ''ix_sessions_expires_at'' ''expires_at'' False,
     Create_Index ''sessions'' ''ix_sessions_room_id'' ''room_id'' False,
     Create_Table ''files''
       [(''room_id'', Integer, False),
        (''original_filename'', String 255, False),
        (''storage_key'', String 128, False),
        (''content_type'', String 200, True),
        (''size_bytes'', BigInteger, False),
        (''status'', String 16, False),
        (''uploaded_by'', Integer, True),
        (''download_count'', Integer, False),
        (''expires_at'', DateTimeTZ, True),
        (''id'', Integer, False),
        (''created_at'', DateTimeTZ, False),
        (''updated_at'', DateTimeTZ, False)]
       [ForeignKey ''room_id'' ''rooms'' ''id'' ''fk_files_room_id_rooms'' ''CASCADE'',
        ForeignKey ''uploaded_by'' ''sessions'' ''id'' ''fk_files_uploaded_by_sessions'' ''SET NULL'',
        PrimaryKey ''id'' ''pk_files'',
        Unique ''storage_key'' ''uq_files_storage_key''],
     Create_Index ''files'' ''ix_files_room_id'' ''room_id'' False,
     Create_Index ''files'' ''ix_files_status'' ''status'' False,
     Create_Table ''messages''
       [(''room_id'', Integer, False),
        (''sender_session_id'', Integer, True),
        (''display_name'', String 60, True),
        (''body'', Text, False),
        (''created_at'', DateTimeTZ, False),
        (''id'', Integer, False)]
       [ForeignKey ''room_id'' ''rooms'' ''id'' ''fk_messages_room_id_rooms'' ''CASCADE'',
        ForeignKey ''sender_session_id'' ''sessions'' ''id'' ''fk_messages_sender_session_id_sessions'' ''SET NULL'',
        PrimaryKey ''id'' ''pk_messages''],
     Create_Index ''messages'' ''ix_messages_room_id'' ''room_id'' False]"

definition initial_downgrade :: "schema_op list" where
  "initial_downgrade =
    [Drop_Index ''messages'' ''ix_messages_room_id'',
     Drop_Table ''messages'',
     Drop_Index ''files'' ''ix_files_status'',
     Drop_Index ''files'' ''ix_files_room_id'',
     Drop_Table ''files'',
     Drop_Index ''sessions'' ''ix_sessions_room_id'',
     Drop_Index ''sessions'' ''ix_sessions_expires_at'',
     Drop_Table ''sessions'',
     Drop_Index ''audit_events'' ''ix_audit_events_room_id'',
     Drop_Index ''audit_events'' ''ix_audit_events_event_type'',
     Drop_Table ''audit_events'',
     Drop_Index ''rooms'' ''ix_rooms_status'',
     Drop_Index ''rooms'' ''ix_rooms_room_code'',
     Drop_Index ''rooms'' ''ix_rooms_expires_at'',
     Drop_Table ''rooms'']"

definition total_size_upgrade :: "schema_op list" where
  "total_size_upgrade = [Add_Column ''files'' (''total_size_bytes'', BigInteger, True)]"

definition total_size_downgrade :: "schema_op list" where
  "total_size_downgrade = [Drop_Column ''files'' ''total_size_bytes'']"

record revision =
  revision_id :: string
  down_revision :: "string option"
  upgrade :: "schema_op list"
  downgrade :: "schema_op list"

definition initial_schema :: revision where
  "initial_schema = \<lparr>revision_id = ''ec16fa0f0980'', down_revision = None,
     upgrade = initial_upgrade, downgrade = initial_downgrade\<rparr>"

definition add_total_size_bytes :: revision where
  "add_total_size_bytes = \<lparr>revision_id = ''a1b2c3d4e5f6'', down_revision = Some ''ec16fa0f0980'',
     upgrade = total_size_upgrade, downgrade = total_size_downgrade\<rparr>"

definition versions :: "revision list" where
  "versions = [add_total_size_bytes, initial_schema]"

text \<open>\<open>alembic upgrade head\<close> follows \<open>down_revision\<close> from the base; there are at most as many steps as
  revisions.\<close>

fun revisions_from :: "nat \<Rightarrow> string option \<Rightarrow> revision list \<Rightarrow> revision list" where
  "revisions_from 0 at revs = []"
| "revisions_from (Suc n) at revs = (case find (\<lambda>r. down_revision r = at) revs of
     None \<Rightarrow> [] | Some r \<Rightarrow> r # revisions_from n (Some (revision_id r)) revs)"

definition upgrade_head :: "revision list \<Rightarrow> schema \<Rightarrow> schema option" where
  "upgrade_head revs = apply_ops (concat (map upgrade (revisions_from (length revs) None revs)))"

definition downgrade_base :: "revision list \<Rightarrow> schema \<Rightarrow> schema option" where
  "downgrade_base revs = apply_ops (concat (map downgrade (rev (revisions_from (length revs) None revs))))"

section \<open>What the mapped classes declare\<close>

record mapped_attr =
  a_type :: sa_type
  a_nullable :: bool
  a_unique :: bool
  a_index :: bool
  a_foreign_key :: "(string \<times> string \<times> string) option"

definition mapped_column :: "sa_type \<Rightarrow> bool \<Rightarrow> mapped_attr" where
  "mapped_column ty nullable = \<lparr>a_type = ty, a_nullable = nullable, a_unique = False, a_index = False, a_foreign_key = None\<rparr>"

definition unique_col :: "mapped_attr \<Rightarrow> mapped_attr" where
  "unique_col a = a\<lparr>a_unique := True\<rparr>"

definition index_col :: "mapped_attr \<Rightarrow> mapped_attr" where
  "index_col a = a\<lparr>a_index := True\<rparr>"

definition foreign_key :: "string \<Rightarrow> string \<Rightarrow> bool \<Rightarrow> mapped_attr" where
  "foreign_key t ondelete nullable = (mapped_column Integer nullable)\<lparr>a_foreign_key := Some (t, ''id'', ondelete)\<rparr>"

definition base_attrs :: "(string \<times> mapped_attr) list" where
  "base_attrs = [(''id'', mapped_column Integer False)]"

definition timestamp_mixin :: "(string \<times> mapped_attr) list" where
  "timestamp_mixin = [(''created_at'', mapped_column DateTimeTZ False), (''updated_at'', mapped_column DateTimeTZ False)]"

definition room_attrs :: "(string \<times> mapped_attr) list" where
  "room_attrs =
    [(''room_code'', index_col (unique_col (mapped_column (String 12) False))),
     (''access_token_hash'', unique_col (mapped_column (String 64) False)),
     (''access_token_signed'', mapped_column (String 255) True),
     (''owner_token_hash'', unique_col (mapped_column (String 64) False)),
     (''password_hash'', mapped_column (String 255) True),
     (''name'', mapped_column (String 120) True),
     (''status'', index_col (mapped_column (String 16) False)),
     (''guest_upload_enabled'', mapped_column Boolean False),
     (''guest_download_enabled'', mapped_column Boolean False),
     (''max_users'', mapped_column Integer False),
     (''user_count'', mapped_column Integer False),
     (''storage_used_bytes'', mapped_column BigInteger False),
     (''file_count'', mapped_column Integer False),
     (''expires_at'', index_col (mapped_column DateTimeTZ False))] @ timestamp_mixin @ base_attrs"

definition audit_event_attrs :: "(string \<times> mapped_attr) list" where
  "audit_event_attrs =
    [(''room_id'', index_col (foreign_key ''rooms'' ''CASCADE'' True)),
     (''event_type'', index_col (mapped_column (String 64) False)),
     (''metadata_json'', mapped_column JSON True),
     (''created_at'', mapped_column DateTimeTZ False)] @ base_attrs"

definition session_attrs :: "(string \<times> mapped_attr) list" where
  "session_attrs =
    [(''room_id'', index_col (foreign_key ''rooms'' ''CASCADE'' False)),
     (''session_token_hash'', unique_col (mapped_column (String 64) False)),
     (''display_name'', mapped_column (String 60) True),
     (''role'', mapped_column (String 10) False),
     (''connected_at'', mapped_column DateTimeTZ False),
     (''last_seen_at'', mapped_column DateTimeTZ False),
     (''expires_at'', index_col (mapped_column DateTimeTZ False))] @ timestamp_mixin @ base_attrs"

definition file_attrs :: "(string \<times> mapped_attr) list" where
  "file_attrs =
    [(''room_id'', index_col (foreign_key ''rooms'' ''CASCADE'' False)),
     (''original_filename'', mapped_column (String 255) False),
     (''storage_key'', unique_col (mapped_column (String 128) False)),
     (''content_type'', mapped_column (String 200) True),
     (''size_bytes'', mapped_column BigInteger False),
     (''total_size_bytes'', mapped_column BigInteger True),
     (''status'', index_col (mapped_column (String 16) False)),
     (''uploaded_by'', foreign_key ''sessions'' ''SET NULL'' True),
     (''download_count'', mapped_column Integer False),
     (''expires_at'', mapped_column DateTimeTZ True)] @ timestamp_mixin @ base_attrs"

definition message_attrs :: "(string \<times> mapped_attr) list" where
  "message_attrs =
    [(''room_id'', index_col (foreign_key ''rooms'' ''CASCADE'' False)),
     (''sender_session_id'', foreign_key ''sessions'' ''SET NULL'' True),
     (''display_name'', mapped_column (String 60) True),
     (''body'', mapped_column Text False),
     (''created_at'', mapped_column DateTimeTZ False)] @ base_attrs"

text \<open>
  The naming convention, and what \<open>unique\<close> and \<open>index\<close> mean: a column with both gets one unique
  index, one with \<open>unique\<close> alone a unique constraint.
\<close>

definition ix_name :: "string \<Rightarrow> string \<Rightarrow> string" where
  "ix_name t c = ''ix_'' @ t @ ''_'' @ c"

definition uq_name :: "string \<Rightarrow> string \<Rightarrow> string" where
  "uq_name t c = ''uq_'' @ t @ ''_'' @ c"

definition fk_name :: "string \<Rightarrow> string \<Rightarrow> string \<Rightarrow> string" where
  "fk_name t c referred = ''fk_'' @ t @ ''_'' @ c @ ''_'' @ referred"

definition pk_name :: "string \<Rightarrow> string" where
  "pk_name t = ''pk_'' @ t"

definition declared_constraints :: "string \<Rightarrow> string \<times> mapped_attr \<Rightarrow> sa_constraint list" where
  "declared_constraints t ca = (case ca of (c, a) \<Rightarrow>
     (if a_unique a \<and> \<not> a_index a then [Unique c (uq_name t c)] else []) @
     (case a_foreign_key a of None \<Rightarrow> [] | Some (rt, rc, act) \<Rightarrow> [ForeignKey c rt rc (fk_name t c rt) act]))"

definition declared_table :: "string \<Rightarrow> (string \<times> mapped_attr) list \<Rightarrow> table" where
  "declared_table t attrs =
     \<lparr>t_columns = map (\<lambda>(c, a). (c, a_type a, a_nullable a)) attrs,
      t_constraints = PrimaryKey ''id'' (pk_name t) # concat (map (declared_constraints t) attrs),
      t_indexes = map (\<lambda>(c, a). (ix_name t c, c, a_unique a)) (filter (a_index \<circ> snd) attrs)\<rparr>"

definition metadata :: schema where
  "metadata = map (\<lambda>(t, attrs). (t, declared_table t attrs))
     [(''audit_events'', audit_event_attrs), (''files'', file_attrs), (''messages'', message_attrs),
      (''rooms'', room_attrs), (''sessions'', session_attrs)]"

section \<open>Migrated schemas and declared schemas\<close>

text \<open>The order of columns, constraints, indexes and tables does not matter.\<close>

definition same_table :: "table \<Rightarrow> table \<Rightarrow> bool" where
  "same_table t u \<longleftrightarrow> set (t_columns t) = set (t_columns u) \<and> set (t_constraints t) = set (t_constraints u) \<and>
     set (t_indexes t) = set (t_indexes u)"

definition same_schema :: "schema \<Rightarrow> schema \<Rightarrow> bool" where
  "same_schema db db' \<longleftrightarrow> set (map fst db) = set (map fst db') \<and>
     list_all (\<lambda>(n, t). case map_of db' n of None \<Rightarrow> False | Some u \<Rightarrow> same_table t u) db"

lemma migrated: "case upgrade_head versions [] of None \<Rightarrow> False | Some db \<Rightarrow>
    distinct (map fst db) \<and> same_schema db metadata \<and> downgrade_base versions db = Some []"
  by code_simp

end
