(* ===== verification/Spec2Isabelle.thy ===== *)
theory Spec2Isabelle
  imports Example_Replies Quoting S3_Storage Migrations
begin

text \<open>
  The DropRoom backend (\<open>src/backend\<close>): temporary rooms in which a few people share files and chat,
  and which are wiped when they expire. This theory holds the properties; the model and its lemmas
  are in the theories it imports.

  \<^bold>\<open>The program and how its parts interact.\<close> A request enters \<open>api/\<close> through the dependencies of
  \<open>api/deps.py\<close> (session cookie, room token, CSRF token, rate limiter). The endpoint calls a service
  of \<open>services/\<close>, which works on the tables through the statements of \<open>repositories/\<close> and on the
  object store of \<open>storage/\<close>, commits, and tells the open WebSockets through \<open>ws/manager.py\<close>. The
  WebSocket endpoint keeps a session connected and takes chat messages. \<open>cleanup/scheduler.py\<close> scans
  the database and the store every minute and puts jobs into \<open>jobs/queue.py\<close>, whose workers run the
  handlers of \<open>jobs/handlers.py\<close>: teardown of expired rooms, removal of deleted files, of stale
  uploads and of orphaned objects.

  \<^bold>\<open>Programs.\<close> A coroutine is a function from the state to an exception or a value and the new state
  (\<open>prog\<close> in \<open>Prelude\<close>), with \<open>bind\<close>, \<open>try_except\<close> and loops over lists as the code has them; the
  rules \<open>wp_simps\<close> compute what holds after it returns and after it raises. An exception is
  \<open>Drop class detail\<close> for the classes of \<open>core/errors.py\<close> or \<open>Py e\<close> for any other. The state is the
  record \<open>world\<close> (clock, the rows a transaction sees, the committed rows, sequences, object store),
  extended in \<open>Deps\<close> to \<open>app\<close> by the limiter, the sockets, the job queue and the open connections.

  \<^bold>\<open>Theories, in the order of the code.\<close>
  \<^item> \<open>Prelude\<close>, \<open>Py_Str\<close>: programs, statements on tables, Python's string operations.
  \<^item> \<open>Config\<close>: \<open>core/config.py\<close>, \<open>core/errors.py\<close>, \<open>core/time.py\<close>. \<open>Security\<close>: \<open>core/security.py\<close>.
    \<open>Ratelimit\<close>: \<open>core/ratelimit.py\<close>. \<open>Magic\<close>: \<open>file/magic.py\<close>.
  \<^item> \<open>Models\<close>: the rows of \<open>models/\<close>, their column limits, unique columns and foreign keys. \<open>Migrations\<close>:
    the same tables as the mapped classes declare them and as \<open>alembic/versions/\<close> builds them.
  \<^item> \<open>Repositories\<close>: \<open>repositories/\<close>, one definition per statement.
  \<^item> \<open>Storage\<close>: the \<open>StorageBackend\<close> protocol as a record, its contract as the locale \<open>object_store\<close>,
    and \<open>storage/local.py\<close>, which is proved to keep it. \<open>S3_Storage\<close>: \<open>storage/s3.py\<close> over a client that
    is a parameter, which keeps it when the service keeps its documented promises.
  \<^item> \<open>Room_Service\<close>, \<open>File_Service\<close>, \<open>Upload_Service\<close>, \<open>Cleanup_Service\<close>: \<open>services/\<close>, with the behaviour of each
    operation on its branches.
  \<^item> \<open>Job_Queue\<close>: \<open>jobs/queue.py\<close>, the retry loop and the worker pool as a step relation. \<open>Job_Handlers\<close>:
    \<open>jobs/handlers.py\<close>, \<open>cleanup/scheduler.py\<close>, start and stop of \<open>main.py\<close>.
  \<^item> \<open>Schemas\<close>: \<open>schemas/\<close>. \<open>Ws_Manager\<close>: \<open>ws/manager.py\<close>, with the locale \<open>presence\<close> for what the endpoint
    relies on. \<open>Deps\<close>: \<open>api/deps.py\<close>, \<open>api/csrf.py\<close>, \<open>db/session.py\<close>. \<open>Api_Rooms\<close>, \<open>Api_Files\<close>, \<open>Api_Uploads\<close>,
    \<open>Websocket\<close>: the endpoints of \<open>api/\<close>.
  \<^item> \<open>System\<close>: the application as one step relation (a request, a WebSocket that opens, a frame or the
    end of a connection, a socket that dies, a job, a scan, the clock), its runs and reachable states.

  \<^bold>\<open>What the lemmas show.\<close> \<open>Invariants\<close> states the database invariant \<open>db_inv\<close> and what each statement
  does to it; \<open>Frames\<close> is the interface between an invariant and the services (the locales
  \<open>service_frame\<close>, \<open>delete_frame\<close>, \<open>insert_frame\<close>), instantiated in \<open>Frames\<close>, \<open>Evolution\<close> (rooms only move
  forward) and \<open>Capacity\<close> (seats against the user count). \<open>Safety\<close> puts them together for an endpoint,
  \<open>Connections\<close> for the WebSocket endpoint and the registry, \<open>System\<close> for every step, so that C1 to C6
  hold in every reachable state. \<open>Guarantees\<close> has rules for single requests and turns, \<open>Quoting\<close> the
  decoder of the download header. \<open>Example\<close>, \<open>Example_App\<close> and \<open>Example_Replies\<close> are concrete states and
  a run of the application, evaluated by the simplifier, to which the witnesses apply the properties.

  \<^bold>\<open>Parameters.\<close> \<open>crypto\<close> has SHA-256, HMAC, argon2 and the signing serializer as functions; no property
  assumes that they are injective unless it says so. Random bytes, file keys and drawn room codes are
  arguments. \<open>settings\<close> are arguments; \<open>cfg_ok\<close> asks for limits that are not negative. The object
  store is any store that keeps the contract. The boolean \<open>exact\<close> of the step relation says whether
  the run aborts no confirmed upload, which the code allows and which loses the exactness of C2.

  \<^bold>\<open>Bounds and fuel.\<close> Integers are Python's. Loops are recursion over lists, the retry loop has a
  measure (the attempts left). A room code is drawn once, and a collision is the \<open>IntegrityError\<close> of
  its unique column. The revision chain of \<open>Migrations\<close> is followed at most as often as there are revisions.
  Bytes are 8-bit words; characters are the code points below 256.

  \<^bold>\<open>Abstractions.\<close> A request, a turn of a WebSocket, a job and a scan each run to their end before the
  next step; within them, a transaction sees its own changes, and what it did not commit is dropped.
  Interleavings of two requests are therefore not covered, apart from stale rows: services take the
  row they were given, which an earlier commit may have outdated, and a job may run at any time. A
  statement that changes a counter is atomic, as its single UPDATE is. The network is the outbox of
  each socket, and sockets may be gone at any time.
  Queries and listings of the store always answer, so the \<open>except\<close> branch of \<open>scan_once\<close> is not reached.
  A query with a \<open>LIMIT\<close> and no \<open>ORDER BY\<close> picks the oldest rows in the model; no property relies on which
  rows it picks: the scan is specified in C35 by what it may put (\<open>due\<close>) and how many (\<open>batch_limit\<close>).

  \<^bold>\<open>Not modelled.\<close> The assembly of the application in \<open>main.py\<close> (middleware, routers), the engine of
  \<open>db/session.py\<close> and \<open>alembic/env.py\<close>: calls of FastAPI, SQLAlchemy and alembic that configure them. The
  probes of \<open>api/health.py\<close>: they have no state. Logging. JSON decoding and the pydantic conversion of a
  body: the model starts from the typed body and its constraints. The frontend, the containers and
  the tests.
\<close>

section \<open>Properties\<close>

text \<open>C1: Whatever requests, WebSocket turns, jobs, scans and delays the application went through, a room that is not deleted never has more seats taken (sessions that are unexpired or still connected) than its user count, and its user count never exceeds its limit.\<close>

theorem rooms_never_overbooked:
  assumes "reachable cfg cr bk exact w" and "object_store bk contents" and "cfg_ok cfg"
    and "r \<in> set (rooms (w_saved w))" and "r_status r \<noteq> DELETED"
  shows "seats (online (a_conns w)) (w_now w) (r_id r) (w_saved w) \<le> r_user_count r \<and> r_user_count r \<le> r_max_users r"
  using reachable_sound [OF assms(1-3)] assms(4,5)
  by (simp add: sound_def steady_def db_ok_def within_capacity_def db_inv_def room_ok_def)

theorem rooms_never_overbooked_witness: "seats (online (a_conns demo_app4)) (w_now demo_app4) 1 (w_saved demo_app4) \<le> 1"
  using rooms_never_overbooked [OF demo_reach(4) demo_hyps, of app_room] by (simp add: demo_app4 app_room_facts)

text \<open>C2: In every reachable state the storage and file counters of a room that is not being torn down cover its confirmed files and stay within the configured quota; as long as no confirmed upload was aborted they are exactly the bytes and the number of its confirmed files.\<close>

theorem counters_match_the_files:
  assumes "reachable cfg cr bk exact w" and "object_store bk contents" and "cfg_ok cfg"
    and "r \<in> set (rooms (w_saved w))" and "live r"
  shows "used_bytes (r_id r) (w_saved w) \<le> r_storage_used_bytes r \<and> r_storage_used_bytes r \<le> max_room_storage_bytes cfg \<and>
    used_files (r_id r) (w_saved w) \<le> r_file_count r \<and> r_file_count r \<le> max_files_per_room cfg \<and>
    (exact \<longrightarrow> r_storage_used_bytes r = used_bytes (r_id r) (w_saved w) \<and> r_file_count r = used_files (r_id r) (w_saved w))"
  using reachable_sound [OF assms(1-3)] assms(4,5)
  by (simp add: sound_def steady_def db_ok_def db_inv_def room_ok_def counters_ok_def)

theorem counters_match_the_files_witness: "used_bytes 1 (w_saved demo_app4) = 3 \<and> used_files 1 (w_saved demo_app4) = 1"
  using counters_match_the_files [OF demo_reach(4) demo_hyps, of app_room] by (simp add: demo_app4 app_room_facts live_def)

text \<open>C3: In every reachable state the committed tables are well formed: keys are unique and below their sequence, room codes and token hashes are unique, every session, file and message belongs to a room, and sizes are not negative.\<close>

theorem tables_stay_well_formed:
  assumes "reachable cfg cr bk exact w" and "object_store bk contents" and "cfg_ok cfg"
  shows "tables_ok (w_seq w) (w_saved w)"
  using reachable_sound [OF assms] by (simp add: sound_def steady_def db_ok_def db_inv_def)

theorem tables_stay_well_formed_witness: "tables_ok (w_seq demo_app4) (w_saved demo_app4)"
  by (rule tables_stay_well_formed [OF demo_reach(4) demo_hyps])

text \<open>C4: From any reachable state on, a room is never removed, keeps its code, its limit and its expiry, and its status only moves along ACTIVE, EXPIRED, DELETING, DELETED.\<close>

theorem room_status_never_goes_back:
  assumes "reachable cfg cr bk exact w" and "object_store bk contents" and "cfg_ok cfg"
    and "runs cfg cr bk exact w w'" and "r \<in> set (rooms (w_saved w))"
  shows "\<exists>r' \<in> set (rooms (w_saved w')). r_id r' = r_id r \<and> r_room_code r' = r_room_code r \<and> r_max_users r' = r_max_users r \<and>
    r_expires_at r' = r_expires_at r \<and> r_status r \<le> r_status r'"
  using runs_sound [OF assms(4,2,3) sound_from_here [OF reachable_sound [OF assms(1-3)]]] assms(5)
  by (auto simp: sound_def steady_def db_ok_def rooms_evolve_def room_evolves_def less_eq_RoomStatus_def)

theorem room_status_never_goes_back_witness:
  "\<exists>r' \<in> set (rooms (w_saved demo_deleted)). r_id r' = 1 \<and> ACTIVE \<le> r_status r'"
  using room_status_never_goes_back [OF demo_reach(4) demo_hyps demo_runs(1), of app_room]
  unfolding app_room_facts demo_app4 by auto

text \<open>C5: Once a room is deleted it stays deleted, and no file, message or session row of it ever appears again, not even through a WebSocket that was open when it was torn down.\<close>

theorem deleted_rooms_stay_empty:
  assumes "reachable cfg cr bk exact w" and "object_store bk contents" and "cfg_ok cfg"
    and "runs cfg cr bk exact w w'" and "r \<in> set (rooms (w_saved w))" and "r_status r = DELETED"
  shows "is_deleted (r_id r) (w_saved w') \<and> wiped (r_id r) (w_saved w')"
proof -
  have s: "sound (w_saved w) exact cfg w'"
    using runs_sound [OF assms(4,2,3) sound_from_here [OF reachable_sound [OF assms(1-3)]]] .
  have "is_deleted (r_id r) (w_saved w)" using assms(5,6) by (auto simp: is_deleted_def)
  with s have "is_deleted (r_id r) (w_saved w')"
    by (auto simp: sound_def steady_def db_ok_def intro: rooms_evolve_deleted)
  with s show ?thesis by (auto simp: is_deleted_def sound_def steady_def db_ok_def db_inv_def room_ok_def)
qed

theorem deleted_rooms_stay_empty_witness: "is_deleted 1 (w_saved demo_after) \<and> wiped 1 (w_saved demo_after)"
  using deleted_rooms_stay_empty [OF demo_reach(6) demo_hyps demo_runs(2), of "app_room\<lparr>r_status := DELETED\<rparr>"]
  by (simp add: demo_deleted_is [unfolded Let_def] app_room_facts)

text \<open>C6: The nested dictionaries of the connection manager refine the set of open connections: in every reachable state their links are exactly the connections, and a session counts as connected in its channel exactly when one of its connections is open.\<close>

theorem registry_tracks_connections:
  assumes "reachable cfg cr bk exact w" and "object_store bk contents" and "cfg_ok cfg"
  shows "links (registry (a_sockets w)) = conn_link ` set (a_conns w) \<and>
    (connected ch sid (registry (a_sockets w)) \<longleftrightarrow>
      (\<exists>c \<in> set (a_conns w). ws_channel (c_room c) = ch \<and> s_id (c_session c) = sid))"
proof -
  have l: "links (registry (a_sockets w)) = conn_link ` set (a_conns w)"
    using reachable_sound [OF assms] by (simp add: sound_def socks_ok_def)
  show ?thesis unfolding hub.online_iff l conn_link_def image_iff by (metis prod.inject)
qed

theorem registry_tracks_connections_witness:
  "connected ''room:1'' 1 (registry (a_sockets demo_app4)) \<and> \<not> connected ''room:1'' 1 (registry (a_sockets demo_left))"
proof -
  have c: "ws_channel (c_room app_conn) = ''room:1''" "s_id (c_session app_conn) = 1" by code_simp+
  show ?thesis
    using registry_tracks_connections [OF demo_reach(4) demo_hyps, of "''room:1''" 1]
      registry_tracks_connections [OF demo_reach(5) demo_hyps, of "''room:1''" 1] c
    by (simp add: demo_app4 demo_left_is [unfolded Let_def])
qed

text \<open>C7: A join that returns met an ACTIVE, unexpired room below its capacity, raised the member count by one, and added one session with the role the credentials give, a hashed token and the configured lifetime.\<close>

theorem join_room_takes_a_slot:
  assumes "good exact cfg w" and "room \<in> set (rooms (w_db w))"
    and "join_room cfg cr rnd room name password owner_token w = (Inr (sess, token), w')"
  shows "r_status room = ACTIVE \<and> w_now w < r_expires_at room \<and> r_user_count room < r_max_users room \<and>
    (\<exists>r \<in> set (rooms (w_db w')). r_id r = r_id room \<and> r_user_count r = r_user_count room + 1) \<and>
    sessions (w_db w') = sessions (w_db w) @ [sess] \<and> s_room_id sess = r_id room \<and>
    resolve_role cr room password owner_token = Inr (s_role sess) \<and>
    s_session_token_hash sess = hash_token cr token \<and>
    s_expires_at sess = w_now w + seconds (session_ttl_seconds cfg) \<and> good exact cfg w'"
  using wp_returns [OF assms(3) join_room_wp [OF assms(1,2)]] unfolding prod.case by blast

theorem join_room_takes_a_slot_witness:
  "let m = join_room demo_cfg demo_crypto [7, 8, 10] demo_room (Some ''G'') None None demo_world
   in sessions (w_db (snd m)) = sessions (w_db demo_world) @ [fst (result (fst m))]"
proof -
  let ?m = "join_room demo_cfg demo_crypto [7, 8, 10] demo_room (Some ''G'') None None demo_world"
  have "returned (fst ?m)" by code_simp
  then have "?m = (Inr (fst (result (fst ?m)), snd (result (fst ?m))), snd ?m)" by (simp add: returned_result)
  from join_room_takes_a_slot [OF demo_good(2) demo_rooms(1) this] show ?thesis by (simp add: Let_def)
qed

text \<open>C8: What a direct upload stored is what a later download of that file streams, byte for byte, and the size announced is the number of the bytes.\<close>

theorem upload_then_download:
  assumes "good exact cfg w" and "room \<in> set (rooms (w_db w))"
    and up: "upload_file cfg local_backend key room actor name ct chunks w = (Inr rec, w1)"
    and down: "download_file local_backend room' actor' (f_id rec) w1 = (Inr (rec', stream, n), w2)"
  shows "snd stream = None \<and> concat (fst stream) = concat (fst chunks) \<and> n = int (length (concat (fst chunks)))"
proof -
  note u = wp_returns [OF up local_store.upload_file_stored [OF assms(1,2)]]
  then have g: "good exact cfg w1" and row: "rec\<lparr>f_updated_at := w_now w\<rparr> \<in> set (files (w_db w1))"
    and st: "stored fs_contents key chunks (f_size_bytes rec) (w_store w1)" "f_storage_key rec = key" by auto
  from wp_returns [OF down download_file_wp [OF g]] obtain old where old: "old \<in> set (files (w_db w1))" "f_id old = f_id rec"
    "rec' = old\<lparr>f_download_count := f_download_count old + 1\<rparr>" "n = f_size_bytes rec'" by auto
  have "distinct (map f_id (files (w_db w1)))" using g db_invD(3) by (auto simp: good_def)
  from distinct_key_unique [OF this old(1) row] old(2) have "old = rec\<lparr>f_updated_at := w_now w\<rparr>" by simp
  then have key: "f_storage_key rec' = key" and size: "n = f_size_bytes rec" using old(3,4) st(2) by simp_all
  from wp_returns [OF down local_store.download_file_bytes [OF g]] st key size show ?thesis by (simp add: stored_def)
qed

theorem upload_then_download_witness:
  "let up = upload_file demo_cfg local_backend ''k1'' demo_room demo_session (Some ''a.txt'') None demo_stream demo_world;
       down = download_file local_backend demo_room_full demo_session (f_id (result (fst up))) (snd up)
   in concat (fst (fst (snd (result (fst down))))) = [104, 105, 33]"
proof -
  let ?up = "upload_file demo_cfg local_backend ''k1'' demo_room demo_session (Some ''a.txt'') None demo_stream demo_world"
  let ?down = "download_file local_backend demo_room_full demo_session (f_id (result (fst ?up))) (snd ?up)"
  have up: "?up = (Inr (result (fst ?up)), snd ?up)" by (rule returned_result) code_simp
  have "?down = (Inr (result (fst ?down)), snd ?down)" by (rule returned_result) code_simp
  then have "?down = (Inr (fst (result (fst ?down)), fst (snd (result (fst ?down))), snd (snd (result (fst ?down)))), snd ?down)" by simp
  from upload_then_download [OF demo_good(2) demo_rooms(1) up this] show ?thesis by (simp add: Let_def demo_stream_def)
qed

text \<open>C9: With the filesystem backend, an upload refused with an application error (permission, size, quota, a failing client stream) leaves no object under its key, and whatever exception it raises, every other object keeps its bytes.\<close>

theorem upload_refused_leaves_no_object:
  assumes "fs_contents (w_store w) key = None"
    and "upload_file cfg local_backend key room actor name ct chunks w = (Inl e, w')"
  shows "(\<not> is_py e \<longrightarrow> fs_contents (w_store w') key = None) \<and>
    (k \<noteq> key \<longrightarrow> fs_contents (w_store w) k = Some b \<longrightarrow> fs_contents (w_store w') k = Some b)"
  using wp_raises [OF assms(2) local_store.upload_file_fails [OF assms(1)]] by blast

theorem upload_refused_leaves_no_object_witness:
  "let chunks = (replicate 11 (replicate 10 65), None);
       m = upload_file demo_cfg local_backend ''k9'' demo_room_full demo_session None None chunks demo_shared
   in fs_contents (w_store (snd m)) ''k9'' = None \<and> fs_contents (w_store (snd m)) ''k1'' = Some [104, 105, 33]"
proof -
  let ?m = "upload_file demo_cfg local_backend ''k9'' demo_room_full demo_session None None (replicate 11 (replicate 10 65), None) demo_shared"
  let ?e = "init_error FileTooLarge ''File exceeds the maximum size of 100 bytes''"
  have "fst ?m = Inl ?e" by code_simp
  then have m: "?m = (Inl ?e, snd ?m)" by (metis prod.collapse)
  have "fs_contents (w_store demo_shared) ''k9'' = None" and "fs_contents (w_store demo_shared) ''k1'' = Some [104, 105, 33]"
    by code_simp+
  with upload_refused_leaves_no_object [OF this(1) m, of "''k1''" "[104, 105, 33]"] show ?thesis
    by (simp add: Let_def init_error_def)
qed

text \<open>C10: With the filesystem backend, and if every object under the prefix of the upload is one of its numbered parts, a chunked upload that completes leaves under its key the concatenation of parts 0 to n-1 in the order of their numbers (not of their arrival), with that length as the confirmed size; every part was there, and every part is gone.\<close>

theorem complete_concatenates_parts:
  assumes "good exact cfg w" and "rec \<in> set (files (w_db w))"
    and "\<And>k. fs_contents (w_store w) k \<noteq> None \<Longrightarrow> prefix (f_storage_key rec @ ''.'') k \<Longrightarrow> k \<in> part_key (f_storage_key rec) ` {0..}"
    and "complete_upload_session cfg local_backend room actor rec n w = (Inr x, w')"
  shows "f_status x = CONFIRMED \<and> good exact cfg w' \<and>
    (\<forall>i. 0 \<le> i \<longrightarrow> i < n \<longrightarrow> fs_contents (w_store w) (part_key (f_storage_key rec) i) \<noteq> None \<and>
       fs_contents (w_store w') (part_key (f_storage_key rec) i) = None) \<and>
    fs_contents (w_store w') (f_storage_key rec)
      = Some (concat (map (\<lambda>i. the (fs_contents (w_store w) (part_key (f_storage_key rec) i))) [0..n - 1])) \<and>
    f_size_bytes x = int (length (the (fs_contents (w_store w') (f_storage_key rec))))"
  using wp_returns [OF assms(4) local_store.complete_upload_session_bytes [OF assms(1,2,3)]] by blast

theorem complete_concatenates_parts_witness:
  "fs_contents (w_store (snd (complete_upload_session demo_cfg local_backend demo_room demo_session demo_pending 2 demo_staged))) ''k2''
     = Some [104, 105, 33]"
proof -
  let ?m = "complete_upload_session demo_cfg local_backend demo_room demo_session demo_pending 2 demo_staged"
  have m: "?m = (Inr (result (fst ?m)), snd ?m)" by (rule returned_result) code_simp
  have keys: "part_key ''k2'' 0 = ''k2.000000''" "part_key ''k2'' 1 = ''k2.000001''" by code_simp+
  have store: "fs_contents (w_store demo_staged) = [''k2.000001'' \<mapsto> [33], ''k2.000000'' \<mapsto> [104, 105]]"
    by (simp add: demo_staged_def demo_fs_def fs_contents_def fun_upd_twist)
  have part: "k \<in> part_key (f_storage_key demo_pending) ` {0..}"
    if "fs_contents (w_store demo_staged) k \<noteq> None" for k
  proof -
    have "k = part_key ''k2'' 0 \<or> k = part_key ''k2'' 1" using that unfolding store keys by (auto split: if_splits)
    then show ?thesis by (auto simp: demo_pending_def)
  qed
  have "[0..2 - 1] = [0, 1 :: int]" by code_simp
  with complete_concatenates_parts [OF demo_good(4) demo_rooms(4) part m] show ?thesis
    by (simp add: demo_pending_def keys store)
qed

text \<open>C11: Only the owner deletes a file: with the filesystem backend, when it returns, the object is gone from the store and the row is marked deleted, and the counters of the room still agree with its confirmed files.\<close>

theorem delete_file_removes_object:
  assumes "good exact cfg w" and "room \<in> set (rooms (w_db w))"
    and "delete_file local_backend room actor i w = (Inr rec, w')"
  shows "s_role actor = OWNER \<and> fs_contents (w_store w') (f_storage_key rec) = None \<and>
    (\<forall>f \<in> set (files (w_db w')). f_id f = i \<longrightarrow> f_status f = FILE_DELETED) \<and> good exact cfg w'"
proof -
  have "wp (delete_file local_backend room actor i) (\<lambda>rec w'. s_role actor = OWNER) (\<lambda>_ _. True) w"
    by (rule wp_mono [OF delete_file_wp [OF assms(1,2), where S = "\<lambda>_ _. True"]]) simp_all
  from wp_returns [OF assms(3) this] wp_returns [OF assms(3) local_store.delete_file_gone [OF assms(1,2)]]
  show ?thesis by blast
qed

theorem delete_file_removes_object_witness:
  "let m = delete_file local_backend demo_room_full demo_session 1 demo_shared
   in fs_contents (w_store (snd m)) (f_storage_key (result (fst m))) = None \<and> good True demo_cfg (snd m)"
proof -
  let ?m = "delete_file local_backend demo_room_full demo_session 1 demo_shared"
  have "?m = (Inr (result (fst ?m)), snd ?m)" by (rule returned_result) code_simp
  from delete_file_removes_object [OF demo_good(3) demo_rooms(2) this] show ?thesis by (simp add: Let_def)
qed

text \<open>C12: A teardown that returns True has left no file, message or session row of the room, and the room is DELETED. Of the store, whichever backend keeps the contract, it has removed exactly the objects under the storage keys of the room's files: no other object is touched, so the part objects of an upload that was still pending stay behind, for the orphan sweep. A backend that reports a refused delete as done does not keep the contract.\<close>

theorem teardown_leaves_nothing:
  assumes "object_store bk contents" and "good exact cfg w" and "cleanup_room bk room w = (Inr True, w')"
  shows "wiped (r_id room) (w_db w') \<and>
    (\<forall>r \<in> set (rooms (w_db w')). r_id r = r_id room \<longrightarrow> r_status r = DELETED) \<and>
    contents (w_store w') = (\<lambda>k. if \<exists>f \<in> set (files (w_db w)). f_room_id f = r_id room \<and> f_storage_key f = k
       then None else contents (w_store w) k) \<and>
    good exact cfg w'"
  using wp_returns [OF assms(3) object_store.cleanup_room_contents [OF assms(1,2)]] by blast

theorem teardown_leaves_nothing_witness:
  "fs_contents (w_store (snd (cleanup_room local_backend demo_room_full demo_shared))) ''k1'' = None"
proof -
  let ?m = "cleanup_room local_backend demo_room_full demo_shared"
  have "fst ?m = Inr True" by code_simp
  then have "?m = (Inr True, snd ?m)" by (metis prod.collapse)
  moreover have "demo_file \<in> set (files (w_db demo_shared))" "f_room_id demo_file = r_id demo_room_full" by code_simp+
  ultimately have "fs_contents (w_store (snd ?m)) (f_storage_key demo_file) = None"
    using teardown_leaves_nothing [OF local_store.object_store_axioms demo_good(3)] by auto
  then show ?thesis by (simp add: demo_file_def)
qed

text \<open>C13: Once a teardown has won, a second one, even with a stale row of the room in hand, returns False and changes nothing.\<close>

theorem teardown_has_one_winner:
  assumes "good exact cfg w" and "cleanup_room bk room w = (Inr True, w1)" and "r_id stale = r_id room"
  shows "cleanup_room bk' stale w1 = (Inr False, w1)"
proof (rule cleanup_room_loses)
  have "wp (cleanup_room bk room) (\<lambda>won w'. won \<longrightarrow> (\<forall>r \<in> set (rooms (w_db w')). r_id r = r_id room \<longrightarrow> r_status r = DELETED))
    (\<lambda>_ _. True) w"
    by (rule wp_mono [OF cleanup_room_wp [OF assms(1), where S = "\<lambda>_ _. True"]]) (auto intro: wp_mono [OF delete_all_frame])
  from wp_returns [OF assms(2) this] show "r_status r = DELETING \<or> r_status r = DELETED"
    if "r \<in> set (rooms (w_db w1))" "r_id r = r_id stale" for r
    using that assms(3) by simp
qed

theorem teardown_has_one_winner_witness:
  "let w1 = snd (cleanup_room local_backend demo_room_full demo_shared)
   in cleanup_room local_backend demo_room w1 = (Inr False, w1)"
proof -
  let ?m = "cleanup_room local_backend demo_room_full demo_shared"
  have "fst ?m = Inr True" by code_simp
  then have m: "?m = (Inr True, snd ?m)" by (metis prod.collapse)
  have "r_id demo_room = r_id demo_room_full" by (simp add: demo_room_full_def)
  from teardown_has_one_winner [OF demo_good(3) m this] show ?thesis by (simp add: Let_def)
qed

text \<open>C14: A room that was created is ACTIVE and empty, takes the configured number of users, and expires after the default lifetime if none was asked for, otherwise after the one asked for, which is one of the configured options and not above the maximum of the server. Of the two tokens it returns, its row holds the hashes and, for joining by code, the access token in signed form.\<close>

theorem create_room_is_fresh:
  assumes "good exact cfg w" and "cfg_ok cfg"
    and "create_room cfg cr draws salt data w = (Inr (room, access_token, owner_token, room_code), w')"
  shows "rooms (w_db w') = rooms (w_db w) @ [room] \<and> r_status room = ACTIVE \<and> r_user_count room = 0 \<and>
    r_max_users room = max_users_per_room cfg \<and>
    r_access_token_hash room = hash_token cr access_token \<and> r_owner_token_hash room = hash_token cr owner_token \<and>
    r_access_token_signed room = Some (sign_access_token cr (w_now w) access_token (csrf_secret cfg) (max_room_lifetime_seconds cfg + 3600)) \<and>
    (case rc_lifetime_seconds data of
       None \<Rightarrow> r_expires_at room = w_now w + seconds (default_room_lifetime_seconds cfg)
     | Some n \<Rightarrow> r_expires_at room = w_now w + seconds n \<and> n \<in> set (room_lifetime_options_seconds cfg) \<and>
         n \<le> max_room_lifetime_seconds cfg) \<and>
    good exact cfg w'"
proof -
  from wp_returns [OF assms(3) create_room_wp [OF assms(1,2)]] obtain n where
    n: "validate_lifetime cfg (rc_lifetime_seconds data) = Inr n" "r_expires_at room = w_now w + seconds n" by auto
  then have "case rc_lifetime_seconds data of
       None \<Rightarrow> r_expires_at room = w_now w + seconds (default_room_lifetime_seconds cfg)
     | Some n \<Rightarrow> r_expires_at room = w_now w + seconds n \<and> n \<in> set (room_lifetime_options_seconds cfg) \<and>
         n \<le> max_room_lifetime_seconds cfg"
    using validate_lifetime_Inr [OF n(1)] by auto
  with wp_returns [OF assms(3) create_room_wp [OF assms(1,2)]] show ?thesis by auto
qed

theorem create_room_is_fresh_witness:
  "let m = create_room demo_cfg demo_crypto demo_draws [] demo_create demo_empty
   in rooms (w_db (snd m)) = [fst (result (fst m))] \<and> good True demo_cfg (snd m)"
proof -
  let ?m = "create_room demo_cfg demo_crypto demo_draws [] demo_create demo_empty"
  let ?r = "result (fst ?m)"
  have "?m = (Inr ?r, snd ?m)" by (rule returned_result) code_simp
  then have m: "?m = (Inr (fst ?r, fst (snd ?r), fst (snd (snd ?r)), snd (snd (snd ?r))), snd ?m)" by simp
  have "rooms (w_db demo_empty) = []" by code_simp
  with create_room_is_fresh [OF demo_good(1,5) m] show ?thesis by (simp add: Let_def)
qed

text \<open>C15: However the workers interleave, jobs are taken in the order they were put, each taken job is either finished or at exactly one worker, none is attempted more often than it may be, and the join counter is what waits, what runs and the sentinels taken.\<close>

theorem jobs_run_once_in_order:
  assumes "qreach qc hs q"
  shows "q_enqueued q = q_taken q @ queued_jobs q \<and>
    mset (map fresh_job (q_taken q)) = mset (map fresh_job (q_done q)) + mset (map fresh_job (busy_jobs q)) \<and>
    q_unfinished q = int (length (q_items q)) + int (length (busy_jobs q)) + int (q_ended q) \<and>
    (\<forall>j \<in> set (q_done q). 0 \<le> j_attempt j \<and> j_attempt j \<le> max 0 (j_max_attempts j))"
  using pool_inv_reach [OF assms] by (auto simp: pool_inv_def)

theorem jobs_run_once_in_order_witness:
  "q_enqueued demo_pool3 = q_taken demo_pool3 @ queued_jobs demo_pool3 \<and> length (q_enqueued demo_pool3) = 1"
  using jobs_run_once_in_order [OF demo_pool] demo_worker(4) by blast

text \<open>C16: When join returns, every job ever put has finished, and no worker has taken a stop sentinel; so once a stopped worker has taken one, join never returns again, because nothing acknowledges the sentinel.\<close>

theorem join_returns_when_done:
  assumes "qreach qc hs q" and "join_returns q"
  shows "mset (map fresh_job (q_done q)) = mset (map fresh_job (q_enqueued q)) \<and> q_items q = [] \<and> busy_jobs q = [] \<and> q_ended q = 0"
proof -
  have "int (length (q_items q)) + int (length (busy_jobs q)) + int (q_ended q) = 0"
    using pool_inv_reach [OF assms(1)] assms(2) by (simp add: pool_inv_def join_returns_def)
  then have "length (q_items q) + length (busy_jobs q) + q_ended q = 0" by linarith
  then have "q_items q = []" "busy_jobs q = []" "q_ended q = 0" by simp_all
  with pool_inv_reach [OF assms(1)] show ?thesis by (simp add: pool_inv_def queued_jobs_def)
qed

theorem join_returns_when_done_witness: "length (q_done demo_pool3) = 1 \<and> q_items demo_pool3 = []"
proof -
  from join_returns_when_done [OF demo_pool demo_worker(3)]
  have "mset (map fresh_job (q_done demo_pool3)) = mset (map fresh_job (q_enqueued demo_pool3))" "q_items demo_pool3 = []" by simp_all
  with demo_worker(4) show ?thesis by (metis length_map size_mset)
qed

text \<open>C17: The workers can take only a bounded number of steps before the queue is worked off: no run is longer than the load, and when no step is possible while a worker has not ended, nothing waits and nothing runs.\<close>

theorem workers_drain_the_queue:
  assumes "(wstep qc hs ^^ n) q q'"
  shows "n \<le> load q \<and>
    ((\<nexists>p. wstep qc hs q' p) \<longrightarrow> (\<exists>w \<in> set (q_workers q'). w \<noteq> Stopped) \<longrightarrow> q_items q' = [] \<and> busy_jobs q' = [])"
  using wstep_bound [OF assms] wstep_stuck [of qc hs q'] by auto

theorem workers_drain_the_queue_witness: "2 \<le> load demo_pool1"
  using workers_drain_the_queue [OF demo_work] by simp

text \<open>C18: The retry loop ends: the handler runs between once and the attempts left, every run but the last failed, and either the last one succeeded or the attempts are used up and the failure is logged; the backoffs in between sum to at most the cap per retry.\<close>

theorem retry_loop_result:
  assumes "j_attempt job < j_max_attempts job"
  shows "\<exists>n j ls t. run_attempts qc h job s = (j, ls, t) \<and> 1 \<le> n \<and> int n \<le> j_max_attempts job - j_attempt job \<and>
    t = calls h (j_payload job) n s \<and> (\<forall>k < n - 1. fails h (j_payload job) (calls h (j_payload job) k s)) \<and>
    (if fails h (j_payload job) (calls h (j_payload job) (n - 1) s)
     then int n = j_max_attempts job - j_attempt job \<and>
       ls = retries qc (j_attempt job) n @ [FailedPermanently (j_id job) (j_type job) (j_max_attempts job)]
     else ls = retries qc (j_attempt job) n) \<and>
    sum_list (map slept ls) \<le> of_nat (n - 1) * backoff_max qc"
proof -
  obtain j ls t where r: "run_attempts qc h job s = (j, ls, t)" by (metis prod_cases3)
  from run_attempts_spec [OF r assms] obtain n where n: "1 \<le> n" "int n \<le> j_max_attempts job - j_attempt job"
    "t = calls h (j_payload job) n s" "\<forall>k < n - 1. fails h (j_payload job) (calls h (j_payload job) k s)"
    "if fails h (j_payload job) (calls h (j_payload job) (n - 1) s)
     then int n = j_max_attempts job - j_attempt job \<and>
       ls = retries qc (j_attempt job) n @ [FailedPermanently (j_id job) (j_type job) (j_max_attempts job)]
     else ls = retries qc (j_attempt job) n" by blast
  have "sum_list (map slept ls) = sum_list (map slept (retries qc (j_attempt job) n))"
    using n(5) by (auto simp: slept_def split: if_splits)
  with slept_retries [of qc "j_attempt job" n] have "sum_list (map slept ls) \<le> of_nat (n - 1) * backoff_max qc" by simp
  with r n show ?thesis by blast
qed

theorem retry_loop_result_witness:
  "\<exists>n. int n \<le> 3 \<and> snd (snd (run_attempts (queue_init default_settings None None None None) (\<lambda>p s. (Inl (Py OSError), s + 1 :: nat))
     (make_job (queue_init default_settings None None None None) ''a'' ''T'' None None) 0)) = calls (\<lambda>p s. (Inl (Py OSError), s + 1)) [] n 0"
proof -
  let ?qc = "queue_init default_settings None None None None"
  let ?job = "make_job ?qc ''a'' ''T'' None None"
  have job: "j_attempt ?job < j_max_attempts ?job" "j_max_attempts ?job = 3" "j_attempt ?job = 0" "j_payload ?job = []"
    by (simp_all add: make_job_def queue_init_def or_num_def default_settings_def)
  from retry_loop_result [OF job(1), of ?qc "\<lambda>p s. (Inl (Py OSError), s + 1 :: nat)" 0] job(2-4) show ?thesis by auto
qed

text \<open>C19: For a limit of at least one, in any interval one window long, a caller that has used some of its current window gets at most what is left of the limit plus one full limit admitted, so never more than twice the limit.\<close>

theorem limiter_admits_bounded_bursts:
  assumes "bucket (run_calls rl_init past) k = (began, used)" and "calls_for k limit w t cs" and "1 \<le> limit"
  shows "admitted k (run_calls rl_init past) cs \<le> max 0 (limit - used) + limit \<and>
    admitted k (run_calls rl_init past) cs \<le> 2 * limit"
proof -
  have "0 \<le> used" using run_calls_ok [OF limiter_ok_init, of past] assms(1) unfolding limiter_ok_def by (metis snd_conv)
  with admitted_interval [OF assms(1,2)] assms(3) show ?thesis by simp
qed

theorem limiter_admits_bounded_bursts_witness:
  "admitted (''s'', ''k'') (run_calls rl_init []) [\<lparr>c_now = 61, c_scope = ''s'', c_key = ''k'', c_limit = 1, c_window = 60\<rparr>] \<le> 2 * 1"
proof -
  have "bucket (run_calls rl_init []) (''s'', ''k'') = (0, 0)" by (simp add: rl_init_def bucket_def)
  moreover have "calls_for (''s'', ''k'') 1 60 60 [\<lparr>c_now = 61, c_scope = ''s'', c_key = ''k'', c_limit = 1, c_window = 60\<rparr>]"
    by (simp add: calls_for_def call_key_def)
  ultimately show ?thesis by (rule conjunct2 [OF limiter_admits_bounded_bursts]) simp
qed

text \<open>C20: A token made under a secret verifies under that secret, whatever MAC and random bytes are used.\<close>

theorem csrf_token_verifies: "verify_csrf_token cr (make_csrf_token cr rnd secret) secret"
  by (rule make_csrf_token_verifies)

text \<open>C21: A token that verifies carries, after its last dot, the MAC under the secret of exactly the payload it decodes to.\<close>

theorem csrf_token_forgery_needs_mac:
  assumes "verify_csrf_token cr token secret"
  shows "\<exists>payload_b64 payload. urlsafe_b64decode payload_b64 = Some payload \<and>
    token = payload_b64 @ CHR ''.'' # urlsafe_b64encode (hmac_sha256 cr (utf8_encode secret) payload)"
  using verify_csrf_token_sound [OF assms] by (simp add: csrf_sig_def)

theorem csrf_token_forgery_needs_mac_witness:
  "\<exists>p q. urlsafe_b64decode p = Some q \<and> make_csrf_token demo_crypto [1, 2] ''s'' =
     p @ CHR ''.'' # urlsafe_b64encode (hmac_sha256 demo_crypto (utf8_encode ''s'') q)"
  by (rule csrf_token_forgery_needs_mac [OF make_csrf_token_verifies])

text \<open>C22: A put of the filesystem backend that raises leaves every object that existed with its bytes, the one under its own key included; one that returns replaced exactly that object by the whole stream.\<close>

theorem put_is_atomic:
  assumes "local_put key data s = (r, s')" and "fs_contents s k = Some b"
  shows "(case r of Inl e \<Rightarrow> fs_contents s' k = Some b
    | Inr n \<Rightarrow> snd data = None \<and> n = int (length (concat (fst data))) \<and>
        fs_contents s' k = Some (if k = key then concat (fst data) else b))"
proof (cases r)
  case (Inl e)
  with local_put_keeps [OF _ assms(2), of key data e s'] assms(1) show ?thesis by simp
next
  case (Inr n)
  with local_put_Inr [of key data s n s'] assms show ?thesis by simp
qed

theorem put_is_atomic_witness:
  "fs_contents (snd (local_put ''k1'' ([[9]], Some (Py ClientDisconnect)) (demo_fs [(''k1'', [1, 2])]))) ''k1'' = Some [1, 2]"
proof -
  let ?m = "local_put ''k1'' ([[9]], Some (Py ClientDisconnect)) (demo_fs [(''k1'', [1, 2])])"
  have e: "fst ?m = Inl (Py ClientDisconnect)" by code_simp
  have m: "?m = (Inl (Py ClientDisconnect), snd ?m)" by (metis e prod.collapse)
  have "fs_contents (demo_fs [(''k1'', [1, 2])]) ''k1'' = Some [1, 2]" by code_simp
  from put_is_atomic [OF m this] show ?thesis by simp
qed

text \<open>C23: The number read back from a part key is the number it was made from, and different uploads or numbers never share a key.\<close>

theorem part_keys_are_unambiguous:
  assumes "0 \<le> i" and "0 \<le> j"
  shows "part_index (part_key k i) = Inr (Some i) \<and> (part_key k i = part_key l j \<longrightarrow> k = l \<and> i = j) \<and> part_key k i \<noteq> k"
  using part_index_part_key [OF assms(1)] part_key_inj [OF _ assms] part_key_neq by blast

theorem part_keys_are_unambiguous_witness: "part_index (part_key ''k'' 1234567) = Inr (Some 1234567)"
  using part_keys_are_unambiguous [of 1234567 0] by simp

text \<open>C24: A chat message that was sent is stored stripped, not empty and within the maximum length, under its sender and room; one that is refused leaves the database as it was.\<close>

theorem messages_are_validated:
  assumes "good exact cfg w" and "open_room (r_id room) (w_db w)"
    and "send_message cfg room actor body w = (r, w')"
  shows "(case r of Inl e \<Rightarrow> w_db w' = w_db w
    | Inr m \<Rightarrow> messages (w_db w') = messages (w_db w) @ [m] \<and> m_body m = strip body \<and> m_body m \<noteq> [] \<and>
        int (length (m_body m)) \<le> max_message_length cfg \<and> m_room_id m = r_id room \<and>
        m_sender_session_id m = Some (s_id actor))"
  using send_message_wp [OF assms(1,2), of actor body] assms(3) by (auto simp: wp_def split: sum.splits)

theorem messages_are_validated_witness:
  "w_db (snd (send_message demo_cfg demo_room demo_session ''  '' demo_world)) = w_db demo_world"
proof -
  let ?m = "send_message demo_cfg demo_room demo_session ''  '' demo_world"
  have e: "fst ?m = Inl (init_error DropRoomError ''Message must not be empty'')" by code_simp
  have m: "?m = (Inl (init_error DropRoomError ''Message must not be empty''), snd ?m)" by (metis e prod.collapse)
  have "open_room (r_id demo_room) (w_db demo_world)" by (rule open_roomI [OF demo_rooms(1)]) (simp_all add: demo_room_def)
  from messages_are_validated [OF demo_good(2) this m] show ?thesis by simp
qed

text \<open>C25: The code of a room is its own normal form: the lookup by code, which strips and upper-cases what the user typed, finds the room under the code that was generated, and codes contain no look-alike characters.\<close>

theorem room_codes_survive_lookup:
  "get_room_by_code (generate_room_code n choices) = find_room (\<lambda>r. r_room_code r = generate_room_code n choices) \<and>
   set (generate_room_code n choices) \<inter> set ''01OIL'' = {} \<and> length (generate_room_code n choices) = n"
  using room_code_chars [of _ n choices] by (auto simp: get_room_by_code_def room_code_canonical room_code_length)

text \<open>C26: The code in the response of an application error identifies its class, never reads INTERNAL_ERROR, and its detail is never empty.\<close>

theorem error_codes_identify_errors:
  assumes "error_response (init_error c d) = (st, err_code, detail)"
  shows "err_code = error_code c \<and> (\<forall>c'. error_code c' = err_code \<longrightarrow> c' = c) \<and> err_code \<noteq> ''INTERNAL_ERROR'' \<and> detail \<noteq> []"
proof -
  have "class_name c \<noteq> []" by (cases c) simp_all
  with assms show ?thesis by (auto simp: init_error_def error_code_not_internal dest: error_code_inj split: if_splits)
qed

theorem error_codes_identify_errors_witness:
  "''ROOM_FULL'' \<noteq> ''INTERNAL_ERROR'' \<and> ''RoomFull'' \<noteq> []"
  using error_codes_identify_errors [of RoomFull "[]" 409 "''ROOM_FULL''" "''RoomFull''"] by (simp add: init_error_def)

text \<open>C27: Every endpoint under a room token that answers with success, apart from the public page of the room and joining it, was asked by a client that presented a non-empty session cookie which is the token of an unexpired session of exactly that room; changing or deleting the room moreover needs the owner's session.\<close>

theorem members_only:
  assumes "handle_request cfg cr bk req call w = (Reply x, w')" and "member_call call = Some tk"
  shows "\<exists>s r. authorised cfg cr req tk (w_now w) (w_saved w) s r \<and> (owner_call call \<longrightarrow> s_role s = OWNER)"
  using handle_request_wp [OF member_call_wp [OF assms(2)] assms(1)] by auto

theorem members_only_witness: "\<exists>s r. authorised app_cfg app_crypto (demo_owner ''GET'') ''AQID'' 0 (w_saved demo_app4) s r"
proof -
  obtain x w' where "handle_request app_cfg app_crypto local_backend (demo_owner ''GET'') (GetMessages ''AQID'') demo_app4 = (Reply x, w')"
    using replied [OF _ demo_messages] by (metis serve.simps(17))
  from members_only [OF this, of "''AQID''"] show ?thesis by (auto simp: member_call_def demo_app4)
qed

text \<open>C28: Of the requests whose method is not GET, every one but the upload of a chunk is refused when its CSRF token is missing, forged or different from its cookie, and the tables, the storage, the sockets, the jobs and the limiter are as before. The chunk upload is the exception, against what the documents ask of every state-changing request: what it does and answers does not depend on the CSRF header at all.\<close>

theorem csrf_refusal_changes_nothing:
  assumes "validate_csrf cfg cr req = Inl e" and "needs_csrf call"
    and "handle_request cfg cr bk req call w = (res, w')"
  shows "if chunk_call call then (\<forall>h. handle_request cfg cr bk (req\<lparr>q_csrf_header := h\<rparr>) call w = (res, w'))
    else (\<forall>x. res \<noteq> Reply x) \<and> w' = w\<lparr>w_db := w_saved w\<rparr>"
proof (cases "chunk_call call")
  case True
  then show ?thesis using assms(3) by (simp add: chunk_ignores_csrf)
next
  case False
  from handle_request_wp [OF csrf_refused [OF assms(1,2) False] assms(3)] False show ?thesis by auto
qed

theorem csrf_refusal_changes_nothing_witness:
  "w_saved (snd (handle_request app_cfg app_crypto local_backend (demo_owner ''DELETE''\<lparr>q_csrf_header := None\<rparr>) (DeleteRoom ''AQID'') demo_app4))
     = w_saved demo_app4"
proof -
  obtain e where e: "validate_csrf app_cfg app_crypto (demo_owner ''DELETE''\<lparr>q_csrf_header := None\<rparr>) = Inl e"
    using demo_unguarded by (auto simp: isl_def)
  have "needs_csrf (DeleteRoom ''AQID'')" by (simp add: needs_csrf_def is_read_def)
  from csrf_refusal_changes_nothing [OF e this surjective_pairing, where bk = local_backend and w = demo_app4]
  show ?thesis by (simp add: chunk_call_def)
qed

text \<open>C29: A WebSocket is only opened for an unexpired session of an active room, presented by its token in the query or the cookie, under that room's own access token.\<close>

theorem handshake_needs_live_session:
  assumes "with_session (ws_open cfg cr ws req) w = (Inr Opened, w')"
  shows "\<exists>s room. s \<in> set (sessions (w_saved w)) \<and> w_now w < s_expires_at s \<and> room \<in> set (rooms (w_saved w)) \<and>
    s_room_id s = r_id room \<and> r_status room = ACTIVE \<and> r_access_token_hash room = hash_token cr (wr_room_token req) \<and>
    truthy (ws_token cfg req) \<and> s_session_token_hash s = hash_token cr (the (ws_token cfg req))"
proof -
  have "wp (with_session (ws_open cfg cr ws req)) (\<lambda>res t. res = Opened \<longrightarrow>
      (\<exists>s room. admits s room (w\<lparr>w_db := w_saved w\<rparr>) \<and> r_access_token_hash room = hash_token cr (wr_room_token req) \<and>
        truthy (ws_token cfg req) \<and> s_session_token_hash s = hash_token cr (the (ws_token cfg req)))) (\<lambda>_ _. True) w"
    unfolding wp_with_session by (rule wp_mono [OF ws_open_admits]) auto
  from wp_returns [OF assms this] show ?thesis by (auto simp: admits_def)
qed

theorem handshake_needs_live_session_witness:
  "\<exists>s room. s \<in> set (sessions (w_saved demo_app1)) \<and> room \<in> set (rooms (w_saved demo_app1)) \<and> s_room_id s = r_id room \<and> r_status room = ACTIVE"
proof -
  have "with_session (ws_open app_cfg app_crypto 1 demo_ws) demo_app1 = (Inr Opened, demo_app2)"
    using demo_opened by (simp add: prod_eq_iff demo_app2_def)
  from handshake_needs_live_session [OF this] show ?thesis by blast
qed

text \<open>C30: When the last connection of a session hangs up, its room (unless deleted) has one user less, the session expires at that instant and so cannot be used again, and only that connection is gone.\<close>

theorem leaving_frees_the_seat:
  assumes "reachable cfg cr bk exact w" and "object_store bk contents" and "cfg_ok cfg" and "c \<in> set (a_conns w)"
    and "\<And>k. k \<in> set (a_conns w) \<Longrightarrow> s_id (c_session k) = s_id (c_session c) \<Longrightarrow> k = c"
    and "r \<in> set (rooms (w_saved w))" and "r_id r = r_id (c_room c)" and "r_status r \<noteq> DELETED"
    and "with_session (ws_receive cfg (c_ws c) Hangup) w = (res, w')"
  shows "(\<exists>r' \<in> set (rooms (w_saved w')). r_id r' = r_id r \<and> r_user_count r' = r_user_count r - 1) \<and>
    (\<forall>s \<in> set (sessions (w_saved w')). s_id s = s_id (c_session c) \<longrightarrow> s_expires_at s = w_now w') \<and>
    a_conns w' = others c (a_conns w)"
proof -
  let ?w = "w\<lparr>w_db := w_saved w\<rparr>"
  have s: "sound empty_db exact cfg w" by (rule reachable_sound [OF assms(1-3)])
  have pos: "0 < r_user_count r" by (rule left_room [OF s assms(4,6-8)])
  have "sound empty_db exact cfg ?w" using s by simp
  from last_hangup [OF this, of c] have "wp (ws_receive cfg (c_ws c) Hangup) (\<lambda>_ t. w_now t = w_now w \<and>
      a_conns t = others c (a_conns w) \<and> w_saved t = left_db (w_now w) (s_id (c_session c)) (r_id (c_room c)) (w_saved w)) (\<lambda>_ _. False) ?w"
    using assms(4,5) by simp
  then have "wp (with_session (ws_receive cfg (c_ws c) Hangup)) (\<lambda>_ t. w_now t = w_now w \<and>
      a_conns t = others c (a_conns w) \<and> w_saved t = left_db (w_now w) (s_id (c_session c)) (r_id (c_room c)) (w_saved w)) (\<lambda>_ _. False) w"
    by (simp add: wp_with_session)
  with assms(9) have "w_now w' = w_now w" "a_conns w' = others c (a_conns w)"
    "w_saved w' = left_db (w_now w) (s_id (c_session c)) (r_id (c_room c)) (w_saved w)"
    by (auto simp: wp_def split: sum.splits)
  with left_db_facts [OF assms(6,7) pos] assms(7) show ?thesis by simp
qed

theorem leaving_frees_the_seat_witness: "\<exists>r' \<in> set (rooms (w_saved demo_left)). r_id r' = 1 \<and> r_user_count r' = 0"
proof -
  have c: "c_ws app_conn = 1" "r_id (c_room app_conn) = 1" by code_simp+
  have "with_session (ws_receive app_cfg (c_ws app_conn) Hangup) demo_app4 = (Inr (), demo_left)"
    using demo_hangup by (simp add: prod_eq_iff demo_left_def c)
  from leaving_frees_the_seat [OF demo_reach(4) demo_hyps _ _ _ _ _ this, of app_room] show ?thesis
    by (simp add: demo_app4 app_room_facts c)
qed

text \<open>C31: Joining again with the cookie of a live session of the room takes no seat and sets no cookie: no room row changes, and the session is extended by the time to live and keeps its role.\<close>

theorem live_cookie_takes_no_seat:
  assumes "reachable cfg cr bk exact w" and "object_store bk contents" and "cfg_ok cfg"
    and "s \<in> set (sessions (w_saved w))" and "w_now w < s_expires_at s"
    and "cookie req (session_cookie_name cfg) = Some tok" and "tok \<noteq> []" and "s_session_token_hash s = hash_token cr tok"
    and "room \<in> set (rooms (w_saved w))" and "r_access_token_hash room = hash_token cr tk" and "s_room_id s = r_id room"
    and "handle_request cfg cr bk req (PostJoin tk rnd crnd body) w = (Reply x, w')"
  shows "\<exists>resp. x = Joined resp [] \<and> jp_role resp = s_role s \<and> jp_session_expires_at resp = w_now w + seconds (session_ttl_seconds cfg) \<and>
    rooms (w_saved w') = rooms (w_saved w) \<and>
    sessions (w_saved w') = upd (\<lambda>t. s_id t = s_id s) (refreshed cfg (w_now w)) (sessions (w_saved w))"
proof -
  let ?w = "w\<lparr>w_db := w_saved w\<rparr>"
  have g: "good exact cfg ?w"
    using reachable_sound [OF assms(1-3)] by (simp add: sound_def steady_def db_ok_def good_def)
  have j: "wp (api_join_room cfg cr rnd crnd req tk body) (\<lambda>(resp, cookies) t. cookies = [] \<and>
      jp_session_expires_at resp = w_now w + seconds (session_ttl_seconds cfg) \<and> jp_role resp = s_role s \<and>
      rooms (w_saved t) = rooms (w_saved w) \<and>
      sessions (w_saved t) = upd (\<lambda>t. s_id t = s_id s) (refreshed cfg (w_now w)) (sessions (w_saved w))) (\<lambda>_ _. True) ?w"
    using live_cookie_joins [OF g, of s req tok cr room tk rnd crnd body] assms(4-11) by simp
  have "wp (serve cfg cr bk req (PostJoin tk rnd crnd body)) (\<lambda>x t. \<exists>resp. x = Joined resp [] \<and> jp_role resp = s_role s \<and>
      jp_session_expires_at resp = w_now w + seconds (session_ttl_seconds cfg) \<and> rooms (w_saved t) = rooms (w_saved w) \<and>
      sessions (w_saved t) = upd (\<lambda>t. s_id t = s_id s) (refreshed cfg (w_now w)) (sessions (w_saved w))) (\<lambda>_ _. True) ?w"
    unfolding serve.simps wp_reply by (rule wp_mono [OF j]) auto
  from handle_request_wp [OF this assms(12)] show ?thesis by auto
qed

theorem live_cookie_takes_no_seat_witness:
  "\<exists>w' :: fsys app. map r_user_count (rooms (w_saved w')) = [1] \<and> map s_expires_at (sessions (w_saved w')) = [seconds (session_ttl_seconds app_cfg)]"
proof -
  obtain x w' where h: "handle_request app_cfg app_crypto local_backend (demo_owner ''POST'') (PostJoin ''AQID'' [] [] demo_join) demo_app4 = (Reply x, w')"
    using replied [OF _ demo_rejoin] by (metis serve.simps(4))
  have "0 < s_expires_at app_session \<and> cookie (demo_owner ''POST'') (session_cookie_name app_cfg) = Some ''BwgJ'' \<and>
      s_session_token_hash app_session = hash_token app_crypto ''BwgJ'' \<and> r_access_token_hash app_room = hash_token app_crypto ''AQID'' \<and>
      s_room_id app_session = r_id app_room" by code_simp
  then have "rooms (w_saved w') = [app_room] \<and> sessions (w_saved w') = upd (\<lambda>t. s_id t = s_id app_session) (refreshed app_cfg 0) [app_session]"
    using live_cookie_takes_no_seat [OF demo_reach(4) demo_hyps _ _ _ _ _ _ _ _ h, of app_session "''BwgJ''" app_room]
    by (auto simp: demo_app4)
  then have "map r_user_count (rooms (w_saved w')) = [1] \<and> map s_expires_at (sessions (w_saved w')) = [seconds (session_ttl_seconds app_cfg)]"
    by (simp add: app_room_facts upd_def refreshed_def)
  then show ?thesis by (rule exI)
qed

text \<open>C32: Joining by room code never tells why a code does not work: apart from a malformed body (422), the CSRF check, the rate limit, a full room and an internal error, every refusal is the same JOIN_FAILED with the same text, whether the room does not exist, has expired, is deleted or the password is wrong.\<close>

theorem join_by_code_hides_reasons:
  assumes "handle_request cfg cr bk req (PostJoinByCode rnd crnd body) w = (Failed st cd det, w')"
  shows "cd = error_code JoinFailed \<and> det = ''Room not found or has expired'' \<or>
    cd \<in> {error_code CSRFValidationFailed, error_code RateLimited, error_code RoomFull, ''INTERNAL_ERROR''}"
proof -
  have full: "is_instance c RoomFull \<Longrightarrow> c = RoomFull" for c by (cases c) (simp_all add: is_instance_def)
  have "wp (serve cfg cr bk req (PostJoinByCode rnd crnd body)) (\<lambda>_ _. True) (\<lambda>e _. join_error e) (w\<lparr>w_db := w_saved w\<rparr>)"
    unfolding serve.simps wp_reply by (rule join_by_code_error)
  from handle_request_wp [OF this assms] obtain e where "Failed st cd det = respond (Inl e)" "join_error e" by auto
  then show ?thesis
    by (cases e) (auto simp: respond_def join_error_def join_failed_def init_error_def dest: full split: if_splits)
qed

theorem join_by_code_hides_reasons_witness: "''Room not found or has expired'' \<noteq> [] \<and>
  (\<exists>st w'. handle_request app_cfg app_crypto local_backend (demo_visitor ''POST'') (PostJoinByCode [] [] demo_bad_code) demo_app4
     = (Failed st (error_code JoinFailed) ''Room not found or has expired'', w'))"
proof -
  have jf: "join_failed = Drop JoinFailed ''Room not found or has expired''" by (simp add: join_failed_def init_error_def)
  obtain w' where h: "handle_request app_cfg app_crypto local_backend (demo_visitor ''POST'') (PostJoinByCode [] [] demo_bad_code) demo_app4
      = (Failed (status_code JoinFailed) (error_code JoinFailed) ''Room not found or has expired'', w')"
    using failed [OF serve.simps(5) demo_refused [unfolded jf]] by blast
  from join_by_code_hides_reasons [OF h] h show ?thesis by auto
qed

text \<open>C33: In every reachable state a broadcast to a channel is sent once to every open WebSocket of the channel whose session is not excluded and whose socket still answers, and to no other, whatever the event is, with one exception: a change of the room's settings, which cannot be serialised, is sent to nobody. The registry keeps its links.\<close>

theorem broadcast_reaches_exactly_the_live:
  assumes "reachable cfg cr bk exact w" and "object_store bk contents" and "cfg_ok cfg"
    and "broadcast ch ev exclude (a_sockets w) = (res, t)"
  shows "\<exists>heard. distinct heard \<and>
    set heard = {ws. (\<nexists>v. ev = RoomSettingsChanged v) \<and> (\<exists>k \<in> set (a_conns w). c_ws k = ws \<and> ws_channel (c_room k) = ch \<and>
      s_id (c_session k) \<notin> set exclude \<and> ws \<notin> set (gone (a_sockets w)))} \<and>
    outbox t = outbox (a_sockets w) @ map (\<lambda>ws. (ws, ev)) heard \<and> links (registry t) = links (registry (a_sockets w))"
proof -
  have "socks_ok w" using reachable_sound [OF assms(1-3)] by (simp add: sound_def)
  moreover have "json_serializable ev \<longleftrightarrow> (\<nexists>v. ev = RoomSettingsChanged v)" by (cases ev) (simp_all add: json_serializable_def)
  moreover have "(if \<nexists>v. ev = RoomSettingsChanged v then audience ch exclude w else {}) =
      {ws. (\<nexists>v. ev = RoomSettingsChanged v) \<and> (\<exists>k \<in> set (a_conns w). c_ws k = ws \<and> ws_channel (c_room k) = ch \<and>
        s_id (c_session k) \<notin> set exclude \<and> ws \<notin> set (gone (a_sockets w)))}" by (auto simp: audience_def)
  ultimately show ?thesis using broadcast_heard [of w ch ev exclude res t] assms(4) by (simp only:)
qed

theorem broadcast_reaches_exactly_the_live_witness:
  "\<exists>t. outbox t = outbox (a_sockets demo_app4) @ [(1, Pong)] \<and> snd (broadcast ''room:1'' Pong [] (a_sockets demo_app4)) = t"
proof -
  have c: "ws_channel (c_room app_conn) = ''room:1''" "c_ws app_conn = 1" by code_simp+
  obtain heard where h: "distinct heard" "set heard = {1}"
    "outbox (snd (broadcast ''room:1'' Pong [] (a_sockets demo_app4))) = outbox (a_sockets demo_app4) @ map (\<lambda>ws. (ws, Pong)) heard"
    using broadcast_reaches_exactly_the_live [OF demo_reach(4) demo_hyps surjective_pairing, where ch = "''room:1''" and ev = Pong and exclude = "[]"] c
    by (auto simp: demo_app4)
  from h(1,2) have "heard = [1]" by (cases heard) (auto simp: subset_singleton_iff)
  with h(3) show ?thesis by simp
qed

text \<open>C34: A CHAT_SEND that is handled without an exception either stores nothing and answers its sender alone with error events, or stores and commits exactly one message, of that sender and room, whose body is the body of the payload as a string, stripped and not empty, and announces it once to every open WebSocket of the room and to no other.\<close>

theorem chat_message_reaches_the_room:
  assumes "reachable cfg cr bk exact w" and "object_store bk contents" and "cfg_ok cfg"
    and "r \<in> set (rooms (w_saved w))" and "r_id r = r_id (c_room c)" and "r_status r \<noteq> DELETED"
    and "chat_send cfg c payload (w\<lparr>w_db := w_saved w\<rparr>) = (Inr u, t)"
  shows "(messages (w_db t) = messages (w_saved w) \<and>
      (\<exists>evs. outbox (a_sockets t) = outbox (a_sockets w) @ evs \<and> (\<forall>(s, ev) \<in> set evs. s = c_ws c \<and> (\<exists>cd det. ev = ErrorEvent cd det)))) \<or>
    (\<exists>m heard. messages (w_saved t) = messages (w_saved w) @ [m] \<and> m_room_id m = r_id (c_room c) \<and>
      m_sender_session_id m = Some (s_id (c_session c)) \<and> m_body m \<noteq> [] \<and>
      (\<exists>b. vget payload ''body'' (VStr []) = Inr b \<and> m_body m = strip (py_str b)) \<and>
      distinct heard \<and> set heard = audience (ws_channel (c_room c)) [] w \<and>
      outbox (a_sockets t) = outbox (a_sockets w) @ map (\<lambda>ws. (ws, ChatMessageSent (view_message m))) heard)"
  using chat_outcome [OF reachable_sound [OF assms(1-3)] assms(4-7)] .

theorem chat_message_reaches_the_room_witness:
  "\<exists>evs. outbox (a_sockets (snd (chat_send app_cfg app_conn (VDict [(''body'', VStr ''hi'')]) demo_app4))) = outbox (a_sockets demo_app4) @ evs \<and>
     list_all (\<lambda>(s, ev). s = 1) evs"
proof -
  let ?p = "VDict [(''body'', VStr ''hi'')]"
  have c: "c_ws app_conn = 1" "r_id (c_room app_conn) = 1" "ws_channel (c_room app_conn) = ''room:1''" by code_simp+
  have "chat_send app_cfg app_conn ?p (demo_app4\<lparr>w_db := w_saved demo_app4\<rparr>) = (Inr (), snd (chat_send app_cfg app_conn ?p demo_app4))"
    unfolding demo_same using demo_chat by (simp add: prod_eq_iff)
  from chat_message_reaches_the_room [OF demo_reach(4) demo_hyps _ _ _ this, of app_room]
  show ?thesis by (auto simp: demo_app4 app_room_facts c audience_def list_all_iff)
qed

text \<open>C35: A scan of the cleanup scheduler whose queries and listings are answered changes no table, no object and no socket and only adds jobs to the queue. Every job it adds is due: the cleanup of a room past its expiry, the deletion of an object that still exists for a deleted file, the expiry of an upload pending for more than a day, or the sweep of an object that exists and belongs to no file row, so never of an object whose row is still there. Of each kind it adds at most one batch, and everything that is due when the backlog fits into the batch, whichever rows an unordered query returns first.\<close>

theorem scan_enqueues_what_is_due:
  assumes "object_store bk contents" and "scan_once cfg bk w = (res, w')"
  shows "\<exists>jobs. res = Inr () \<and> w' = w\<lparr>w_db := w_saved w, a_jobs := a_jobs w @ jobs\<rparr> \<and>
    (\<forall>(ty, p) \<in> set jobs. due (contents (w_store w)) (w_now w) (w_saved w) ty p) \<and>
    (\<forall>ty. length (filter (\<lambda>j. fst j = ty) jobs) \<le> batch_limit cfg ty) \<and>
    (\<forall>ty p. due (contents (w_store w)) (w_now w) (w_saved w) ty p \<longrightarrow>
      backlog (contents (w_store w)) (w_now w) (w_saved w) ty \<le> batch_limit cfg ty \<longrightarrow> (ty, p) \<in> set jobs)"
proof -
  let ?jobs = "scan_jobs cfg bk (w_now w) (w_saved w) (w_store w)"
  have "res = Inr ()" "w' = w\<lparr>w_db := w_saved w, a_jobs := a_jobs w @ ?jobs\<rparr>"
    using assms(2) by (simp_all add: scan_once_eq)
  moreover have "\<forall>(ty, p) \<in> set ?jobs. due (contents (w_store w)) (w_now w) (w_saved w) ty p"
    using object_store.scan_jobs_due [OF assms(1)] by blast
  ultimately show ?thesis
    using object_store.scan_jobs_bounded [OF assms(1)] object_store.due_scanned [OF assms(1)] by blast
qed

theorem scan_enqueues_what_is_due_witness:
  "(JOB_ROOM_CLEANUP, [(''room_id'', JInt 1)]) \<in>
     set (a_jobs (snd (scan_once app_cfg local_backend (demo_app4\<lparr>w_now := 3600000000\<rparr>))))"
proof -
  let ?w = "demo_app4\<lparr>w_now := 3600000000\<rparr>"
  let ?objects = "fs_contents (w_store ?w)"
  have room: "r_expires_at app_room = 3600000000" by (simp add: app_room_def demo_room_full_def demo_room_def)
  from due.Expired [of app_room "w_saved ?w" "w_now ?w" ?objects]
  have "due ?objects (w_now ?w) (w_saved ?w) JOB_ROOM_CLEANUP [(''room_id'', JInt 1)]"
    by (simp add: demo_app4 app_room_facts room)
  moreover have "backlog ?objects (w_now ?w) (w_saved ?w) JOB_ROOM_CLEANUP \<le> batch_limit app_cfg JOB_ROOM_CLEANUP"
    by (simp add: backlog_def batch_limit_def rowcount_def demo_app4)
  moreover obtain jobs where "snd (scan_once app_cfg local_backend ?w) = ?w\<lparr>w_db := w_saved ?w, a_jobs := a_jobs ?w @ jobs\<rparr>"
    "due ?objects (w_now ?w) (w_saved ?w) JOB_ROOM_CLEANUP [(''room_id'', JInt 1)] \<longrightarrow>
      backlog ?objects (w_now ?w) (w_saved ?w) JOB_ROOM_CLEANUP \<le> batch_limit app_cfg JOB_ROOM_CLEANUP \<longrightarrow>
      (JOB_ROOM_CLEANUP, [(''room_id'', JInt 1)]) \<in> set jobs"
    using scan_enqueues_what_is_due [OF local_store.object_store_axioms surjective_pairing, of app_cfg ?w] by blast
  ultimately show ?thesis by simp
qed

text \<open>C36: A room cleanup job that ends without an exception leaves no room of its id active or expired: it is claimed for deletion or deleted, and committed so.\<close>

theorem cleanup_job_settles_its_room:
  assumes "reachable cfg cr bk exact w" and "object_store bk contents" and "cfg_ok cfg"
    and "payload_get p ''room_id'' = JInt i" and "run_room_cleanup bk p (w\<lparr>w_db := w_saved w\<rparr>) = (Inr u, t)"
  shows "\<forall>r \<in> set (rooms (w_saved t)). r_id r = i \<longrightarrow> r_status r = DELETING \<or> r_status r = DELETED"
proof -
  have "good exact cfg (w\<lparr>w_db := w_saved w\<rparr>)"
    using reachable_sound [OF assms(1-3)] by (simp add: sound_def steady_def db_ok_def good_def)
  moreover have "w_db (w\<lparr>w_db := w_saved w\<rparr>) = w_saved (w\<lparr>w_db := w_saved w\<rparr>)" by simp
  ultimately show ?thesis using wp_returns [OF assms(5) room_cleanup_job_wp [OF _ _ assms(4)]] by blast
qed

theorem cleanup_job_settles_its_room_witness:
  "filter (\<lambda>r. r_id r = 1 \<and> r_status r \<noteq> DELETING \<and> r_status r \<noteq> DELETED)
     (rooms (w_saved (snd (run_room_cleanup local_backend [(''room_id'', JInt 1)] demo_app4)))) = []"
proof -
  let ?p = "[(''room_id'', JInt 1)]"
  have p: "payload_get ?p ''room_id'' = JInt 1" by (simp add: payload_get_def)
  have "run_room_cleanup local_backend ?p (demo_app4\<lparr>w_db := w_saved demo_app4\<rparr>) = (Inr (), snd (run_room_cleanup local_backend ?p demo_app4))"
    unfolding demo_same using demo_cleanup by (simp add: prod_eq_iff)
  from cleanup_job_settles_its_room [OF demo_reach(4) demo_hyps p this] show ?thesis unfolding filter_empty_conv by blast
qed

text \<open>C37: Fetching the CSRF token, the room page, the file list, the state of an upload or the chat history changes no table, no object, no socket and no job, whether it is answered or refused.\<close>

theorem reads_change_nothing:
  assumes "is_read call"
  shows "snd (handle_request cfg cr bk req call w) = w\<lparr>w_db := w_saved w\<rparr>"
  by (rule looks_handled [OF read_looks [OF assms]])

theorem reads_change_nothing_witness:
  "w_saved (snd (handle_request app_cfg app_crypto local_backend (demo_owner ''GET'') (GetMessages ''AQID'') demo_app4)) = w_saved demo_app4"
  using reads_change_nothing [of "GetMessages ''AQID''" app_cfg app_crypto local_backend "demo_owner ''GET''" demo_app4]
  by (simp add: is_read_def)

text \<open>C38: The second file name of a download header decodes to the UTF-8 bytes of the stored name and holds no character that could end the field; the first, quoted one is the stored name as it is unless that name has a backslash, so a quote in the name is not replaced.\<close>

theorem disposition_carries_the_name:
  "\<exists>shown enc. content_disposition name = ''attachment; filename='' @ dquote # shown @ dquote # ''; filename*=UTF-8'' @
       char_of (39 :: nat) # char_of (39 :: nat) # enc \<and>
     percent_decode enc = map unat (utf8_encode name) \<and>
     (\<nexists>c. c \<in> set enc \<and> c \<noteq> CHR ''%'' \<and> \<not> quote_safe (of_char c)) \<and>
     (backslash \<notin> set name \<longrightarrow> shown = name)"
  by (intro exI conjI, unfold content_disposition_def, rule refl, rule decode_quote)
    (use quote_chars in blast, simp add: replace2_id)

theorem disposition_carries_the_name_witness:
  "\<exists>enc. content_disposition [CHR ''a'', dquote, CHR ''b''] = ''attachment; filename='' @ dquote # [CHR ''a'', dquote, CHR ''b''] @ dquote #
     ''; filename*=UTF-8'' @ char_of (39 :: nat) # char_of (39 :: nat) # enc"
proof -
  have "backslash \<notin> set [CHR ''a'', dquote, CHR ''b'']" by code_simp
  with disposition_carries_the_name [of "[CHR ''a'', dquote, CHR ''b'']"] show ?thesis by metis
qed

text \<open>C39: Whichever backend the settings choose, an object that was put is read back, reported to exist and listed, with the bytes of its stream and their number; no other object changes; and after a delete exactly that object is gone. For S3 this holds of every client that keeps the promises of s3_service_ok.\<close>

theorem configured_backend_stores:
  fixes cfg cl w objects k d n w'
  defines "bk \<equiv> get_storage_backend cfg cl"
  assumes "s3_service_ok cl (s3_bucket cfg) objects" and "put bk k d w = (Inr n, w')"
  shows "concat (fst (get_stream bk k w')) = concat (fst d) \<and> snd (get_stream bk k w') = None \<and> n = int (length (concat (fst d))) \<and>
    (\<forall>k'. object_exists bk k' w' \<longleftrightarrow> k' = k \<or> object_exists bk k' w) \<and>
    set (list_keys bk p w') = {k'. object_exists bk k' w' \<and> prefix p k'} \<and>
    (\<forall>k'. k' \<noteq> k \<and> object_exists bk k' w \<longrightarrow> concat (fst (get_stream bk k' w')) = concat (fst (get_stream bk k' w))) \<and>
    (\<forall>u w''. delete_object bk k w' = (Inr u, w'') \<longrightarrow> (\<forall>k'. object_exists bk k' w'' \<longleftrightarrow> k' \<noteq> k \<and> object_exists bk k' w'))"
proof -
  let ?c = "backend_contents cfg objects"
  have st: "object_store bk ?c" unfolding bk_def by (rule configured_store [OF assms(2)])
  note ok = object_store.put_ok [OF st assms(3)]
  have e: "object_exists bk k v \<longleftrightarrow> ?c v k \<noteq> None" for k v by (rule object_store.exists_iff [OF st])
  have same: "concat (fst (get_stream bk k' w')) = concat (fst (get_stream bk k' w))" if "k' \<noteq> k" "object_exists bk k' w" for k'
  proof -
    from that e obtain b where "?c w k' = Some b" by blast
    with ok that(1) have "?c w' k' = Some b" by simp
    with \<open>?c w k' = Some b\<close> object_store.get_some [OF st] show ?thesis by metis
  qed
  have gone: "\<forall>k'. object_exists bk k' w'' \<longleftrightarrow> k' \<noteq> k \<and> object_exists bk k' w'" if "delete_object bk k w' = (Inr u, w'')" for u w''
    using object_store.delete_ok [OF st that] by (simp add: e)
  have "?c w' k = Some (concat (fst d))" using ok by simp
  from object_store.get_some [OF st this] ok same gone show ?thesis
    by (simp add: e object_store.list_keys_iff [OF st])
qed

theorem configured_backend_stores_witness:
  "concat (fst (get_stream (get_storage_backend (app_cfg\<lparr>storage_backend_name := ''s3''\<rparr>) memory_client) ''k''
     (snd (put (get_storage_backend (app_cfg\<lparr>storage_backend_name := ''s3''\<rparr>) memory_client) ''k'' ([[1], [2, 3]], None)
       \<lparr>tmp_dir = demo_fs [], storage_root = demo_fs [], remote = []\<rparr>)))) = [1, 2, 3]"
proof -
  let ?bk = "get_storage_backend (app_cfg\<lparr>storage_backend_name := ''s3''\<rparr>) memory_client"
  let ?w = "\<lparr>tmp_dir = demo_fs [], storage_root = demo_fs [], remote = []\<rparr>"
  have "put ?bk ''k'' ([[1], [2, 3]], None) ?w = (Inr 3, snd (put ?bk ''k'' ([[1], [2, 3]], None) ?w))"
  proof -
    have "fst (put ?bk ''k'' ([[1], [2, 3]], None) ?w) = Inr 3" by code_simp
    then show ?thesis by (simp only: prod_eq_iff fst_conv snd_conv)
  qed
  from configured_backend_stores [OF memory_service this] show ?thesis by simp
qed

text \<open>C40: Migrating an empty database to the head revision succeeds and gives exactly the tables that the mapped classes declare: the same columns with their types and nullability, the same named keys, unique constraints, foreign keys and indexes; migrating back down leaves the empty database.\<close>

theorem schema_matches_models:
  "\<exists>db. upgrade_head versions [] = Some db \<and> distinct (map fst db) \<and> same_schema db metadata \<and> downgrade_base versions db = Some []"
  using migrated by (auto split: option.splits)

end
